(* ===== verification/Prelude.thy ===== *)
theory Prelude
  imports Main "HOL-Library.State_Monad" "HOL-Library.Word" "HOL-Library.Char_ord"
    "HOL-Library.List_Lexorder"
begin

text \<open>
  Shared vocabulary of the development. Go's \<open>string\<close> and \<open>[]byte\<close> are byte sequences and
  are both HOL's \<^typ>\<open>string\<close> (a list of 8-bit characters). Go's \<open>error\<close> interface is used
  by this repository in three ways only: compared with \<open>nil\<close>, returned, and turned into its
  message by \<open>Error()\<close>; it is the datatype \<open>go_error\<close> below. A Go function that returns
  \<open>(value, error)\<close> and is only read after the error check is a sum \<open>go_error + 'a\<close>.
  Effects run in the library's state monad.
\<close>

named_theorems go_defs \<open>the primitive effects, unfolded when a model function is run\<close>

datatype go_error = GoError string

primrec Error :: "go_error \<Rightarrow> string" where
  "Error (GoError s) = s"

text \<open>A slice or pointer that may be \<open>nil\<close> is an option; \<open>None\<close> is \<open>nil\<close>.\<close>

type_synonym 'a nilable = "'a option"

text \<open>Sequencing of computations that stop at the first error.\<close>

fun bind_ok :: "'e + 'a \<Rightarrow> ('a \<Rightarrow> 'e + 'b) \<Rightarrow> 'e + 'b" where
  "bind_ok (Inl e) f = Inl e"
| "bind_ok (Inr x) f = f x"

lemma bind_ok_Inr_iff:
  "bind_ok m f = Inr y \<longleftrightarrow> (\<exists>x. m = Inr x \<and> f x = Inr y)"
  by (cases m) auto

lemma bind_ok_Inl_iff:
  "bind_ok m f = Inl e \<longleftrightarrow> m = Inl e \<or> (\<exists>x. m = Inr x \<and> f x = Inl e)"
  by (cases m) auto

lemma bind_ok_case: "bind_ok m f = (case m of Inl e \<Rightarrow> Inl e | Inr x \<Rightarrow> f x)"
  by (cases m) auto

lemma bind_ok_cong [fundef_cong]:
  "m = m' \<Longrightarrow> (\<And>x. m' = Inr x \<Longrightarrow> f x = f' x) \<Longrightarrow> bind_ok m f = bind_ok m' f'"
  by (cases m') auto

fun mapM_ok :: "('a \<Rightarrow> 'e + 'b) \<Rightarrow> 'a list \<Rightarrow> 'e + 'b list" where
  "mapM_ok f [] = Inr []"
| "mapM_ok f (x # xs) = bind_ok (f x) (\<lambda>y. bind_ok (mapM_ok f xs) (\<lambda>ys. Inr (y # ys)))"

lemma mapM_ok_cong [fundef_cong]:
  "xs = ys \<Longrightarrow> (\<And>x. x \<in> set ys \<Longrightarrow> f x = g x) \<Longrightarrow> mapM_ok f xs = mapM_ok g ys"
  by (induction ys arbitrary: xs) auto

lemma mapM_ok_Inr: "(\<And>x. x \<in> set xs \<Longrightarrow> f x = Inr (g x)) \<Longrightarrow> mapM_ok f xs = Inr (map g xs)"
  by (induction xs) auto

lemma mapM_ok_InrD:
  "mapM_ok f xs = Inr ys \<Longrightarrow> length ys = length xs \<and> (\<forall>i<length xs. f (xs ! i) = Inr (ys ! i))"
proof (induction xs arbitrary: ys)
  case (Cons x xs)
  then obtain z zs where "f x = Inr z" "mapM_ok f xs = Inr zs" "ys = z # zs"
    by (auto simp: bind_ok_Inr_iff)
  with Cons.IH [of zs] show ?case by (auto simp: nth_Cons split: nat.split)
qed simp

lemma mapM_ok_Inr_iff: "mapM_ok f xs = Inr ys \<longleftrightarrow> list_all2 (\<lambda>x y. f x = Inr y) xs ys"
  by (induction xs arbitrary: ys) (auto simp: bind_ok_Inr_iff list_all2_Cons1)

lemma mapM_ok_inverse:
  "mapM_ok f xs = Inr ys \<Longrightarrow> (\<And>x y. x \<in> set xs \<Longrightarrow> f x = Inr y \<Longrightarrow> g y = Inr x) \<Longrightarrow>
    mapM_ok g ys = Inr xs"
  by (induction xs arbitrary: ys) (auto simp: bind_ok_Inr_iff)

lemma mapM_ok_set:
  "mapM_ok f xs = Inr ys \<Longrightarrow> y \<in> set ys \<Longrightarrow> \<exists>x\<in>set xs. f x = Inr y"
  by (induction xs arbitrary: ys) (auto simp: bind_ok_Inr_iff)

text \<open>A left fold that stops at the first error.\<close>

fun foldM_ok :: "('a \<Rightarrow> 's \<Rightarrow> 'e + 's) \<Rightarrow> 'a list \<Rightarrow> 's \<Rightarrow> 'e + 's" where
  "foldM_ok f [] s = Inr s"
| "foldM_ok f (x # xs) s = bind_ok (f x s) (foldM_ok f xs)"

lemma foldM_ok_invariant:
  "foldM_ok f xs s = Inr t \<Longrightarrow> P s \<Longrightarrow>
    (\<And>x s s'. x \<in> set xs \<Longrightarrow> P s \<Longrightarrow> f x s = Inr s' \<Longrightarrow> P s') \<Longrightarrow> P t"
proof (induction xs arbitrary: s)
  case (Cons x xs)
  from Cons.prems(1) obtain s' where "f x s = Inr s'" "foldM_ok f xs s' = Inr t"
    by (auto simp: bind_ok_Inr_iff)
  with Cons.IH [of s'] Cons.prems(2,3) show ?case by auto
qed simp

text \<open>
  An encoder and a decoder that agree on the values satisfying \<open>ok\<close>: the contract between
  the two ends of every wire or name format of the repository.
\<close>

locale codec =
  fixes enc :: "'a \<Rightarrow> 'b" and dec :: "'b \<Rightarrow> 'e + 'a" and ok :: "'a \<Rightarrow> bool"
  assumes dec_enc: "ok x \<Longrightarrow> dec (enc x) = Inr x"
begin

lemma enc_inject: "ok x \<Longrightarrow> ok y \<Longrightarrow> enc x = enc y \<longleftrightarrow> x = y"
  by (metis dec_enc sum.inject(2))

lemma enc_inj_on: "inj_on enc {x. ok x}"
  by (rule inj_onI) (simp add: enc_inject)

lemma dec_total_on_enc: "ok x \<Longrightarrow> \<exists>y. dec (enc x) = Inr y"
  by (simp add: dec_enc)

end

section \<open>Orders and schedules\<close>

text \<open>\<open>before is i j\<close>: in the list, the last of \<open>i\<close> comes before the first of \<open>j\<close>. An order of threads
  is in real time for a schedule of their steps when it keeps this, and timely when all its
  threads have made steps.\<close>

definition upto_last :: "nat \<Rightarrow> nat list \<Rightarrow> nat list" where
  "upto_last i is = rev (dropWhile (\<lambda>k. k \<noteq> i) (rev is))"

definition before :: "nat list \<Rightarrow> nat \<Rightarrow> nat \<Rightarrow> bool" where
  "before is i j \<longleftrightarrow> j \<notin> set (upto_last i is)"

definition in_real_time :: "nat list \<Rightarrow> nat list \<Rightarrow> bool" where
  "in_real_time is ord \<longleftrightarrow> list_all (\<lambda>i. list_all (\<lambda>j. before is i j \<longrightarrow> before ord i j) ord) ord"

lemma before_snoc: "before (is @ [k]) i j \<longleftrightarrow> (if i = k then j \<notin> set is \<and> j \<noteq> k else before is i j)"
  by (auto simp: before_def upto_last_def)

lemma before_absent: "j \<notin> set is \<Longrightarrow> before is i j"
  by (auto simp: before_def upto_last_def dest: set_dropWhileD)

definition timely :: "nat list \<Rightarrow> nat list \<Rightarrow> bool" where
  "timely is ord \<longleftrightarrow> in_real_time is ord \<and> list_all (\<lambda>i. i \<in> set is) ord"

lemma timely_snoc:
  assumes "timely is ord"
  shows "timely (is @ [k]) ord" and "k \<notin> set ord \<Longrightarrow> timely (is @ [k]) (ord @ [k])"
  using assms before_absent [of k ord] by (auto simp: timely_def in_real_time_def list_all_iff before_snoc)

end
