(* ===== verification/Go_Strings.thy ===== *)
theory Go_Strings
  imports Prelude
begin

text \<open>
  The functions of Go's package \<open>strings\<close> that the repository calls, at the arguments it
  calls them with: every separator, pattern and cut set in the sources is a single byte, so
  the second argument is a \<^typ>\<open>char\<close>.
\<close>

text \<open>\<open>strings.Split(s, sep)\<close>: the pieces between the separators, one more than there are
  separators.\<close>

fun Split :: "string \<Rightarrow> char \<Rightarrow> string list" where
  "Split [] sep = [[]]"
| "Split (c # cs) sep =
     (if c = sep then [] # Split cs sep
      else (case Split cs sep of [] \<Rightarrow> [[c]] | w # ws \<Rightarrow> (c # w) # ws))"

text \<open>\<open>strings.Replace(s, old, new, -1)\<close>.\<close>

definition Replace :: "string \<Rightarrow> char \<Rightarrow> char \<Rightarrow> string" where
  "Replace s old new = map (\<lambda>c. if c = old then new else c) s"

text \<open>\<open>strings.Contains(s, sep)\<close>.\<close>

definition Contains :: "string \<Rightarrow> char \<Rightarrow> bool" where
  "Contains s c = (c \<in> set s)"

text \<open>\<open>strings.TrimLeft(s, cutset)\<close>.\<close>

definition TrimLeft :: "string \<Rightarrow> char \<Rightarrow> string" where
  "TrimLeft s c = dropWhile (\<lambda>x. x = c) s"

text \<open>\<open>strings.Join(parts, sep)\<close>.\<close>

fun Join :: "string list \<Rightarrow> string \<Rightarrow> string" where
  "Join [] sep = []"
| "Join [w] sep = w"
| "Join (w # v # ws) sep = w @ sep @ Join (v # ws) sep"

lemma Split_not_Nil [simp]: "Split s sep \<noteq> []"
  by (induction s) (auto split: list.splits)

lemma Split_no_sep: "w \<in> set (Split s sep) \<Longrightarrow> sep \<notin> set w"
  by (induction s arbitrary: w) (auto split: list.splits if_splits)

lemma Split_notin [simp]: "sep \<notin> set s \<Longrightarrow> Split s sep = [s]"
  by (induction s) auto

lemma Split_append_sep: "sep \<notin> set a \<Longrightarrow> Split (a @ sep # b) sep = a # Split b sep"
  by (induction a) auto

lemma length_Split: "length (Split s sep) = Suc (count_list s sep)"
proof (induction s)
  case (Cons c cs)
  then show ?case by (cases "Split cs sep") auto
qed simp

lemma Join_Split: "Join (Split s sep) [sep] = s"
proof (induction s)
  case (Cons c cs)
  then show ?case
  proof (cases "Split cs sep")
    case (Cons w ws)
    with Cons.IH show ?thesis by (cases ws) auto
  qed simp
qed simp

lemma Split_two_iff:
  "Split s sep = [a, b] \<longleftrightarrow> s = a @ sep # b \<and> sep \<notin> set a \<and> sep \<notin> set b"
proof
  assume *: "Split s sep = [a, b]"
  then have "s = Join [a, b] [sep]" using Join_Split [of s sep] by simp
  moreover have "a \<in> set (Split s sep)" "b \<in> set (Split s sep)" using * by simp_all
  ultimately show "s = a @ sep # b \<and> sep \<notin> set a \<and> sep \<notin> set b"
    using Split_no_sep by fastforce
qed (simp add: Split_append_sep)

lemma sep_append_eq_iff:
  "sep \<notin> set a \<Longrightarrow> sep \<notin> set c \<Longrightarrow> a @ sep # b = c @ sep # d \<longleftrightarrow> a = c \<and> b = d"
proof (induction a arbitrary: c)
  case Nil
  then show ?case by (cases c) auto
next
  case (Cons x xs)
  then show ?case by (cases c) auto
qed

lemma Replace_Replace_back:
  "new \<notin> set s \<Longrightarrow> Replace (Replace s old new) new old = s"
  by (auto simp: Replace_def intro!: map_idI)

lemma Replace_absent: "old \<notin> set s \<Longrightarrow> Replace s old new = s"
  by (auto simp: Replace_def intro!: map_idI)

lemma Replace_removes: "old \<noteq> new \<Longrightarrow> old \<notin> set (Replace s old new)"
  by (auto simp: Replace_def)

lemma length_Replace [simp]: "length (Replace s old new) = length s"
  by (simp add: Replace_def)

end
