(* ===== verification/Volume_Id.thy ===== *)
theory Volume_Id
  imports Go_Strings
begin

text \<open>
  \<^verbatim>\<open>utils/volume_id.go\<close>: the printable form of a two-part volume id. \<open>GetUniqueId\<close> joins the
  prefix and the suffix with an underscore after writing each underscore inside them as an
  equals sign; \<open>NewVolumeIdFromEncodedString\<close> reads the form back. The only error is
  \<open>fmt.Errorf("incorrectly encoded volume ID string: %q", volumeString)\<close>, kept as a value
  with its operand.
\<close>

record VolumeId =
  Prefix :: string
  Suffix :: string

datatype volume_id_error = IncorrectlyEncoded string

definition NewVolumeId :: "string \<Rightarrow> string \<Rightarrow> VolumeId" where
  "NewVolumeId prefix suffix = \<lparr>Prefix = prefix, Suffix = suffix\<rparr>"

definition NewVolumeIdFromEncodedString :: "string \<Rightarrow> volume_id_error + VolumeId" where
  "NewVolumeIdFromEncodedString volumeString =
     (let parts = Split volumeString CHR ''_'' in
      if length parts \<noteq> 2 then Inl (IncorrectlyEncoded volumeString)
      else Inr \<lparr>Prefix = Replace (parts ! 0) CHR ''='' CHR ''_'',
                Suffix = Replace (parts ! 1) CHR ''='' CHR ''_''\<rparr>)"

definition GetUniqueId :: "VolumeId \<Rightarrow> string" where
  "GetUniqueId vid =
     Replace (Prefix vid) CHR ''_'' CHR ''='' @ ''_'' @ Replace (Suffix vid) CHR ''_'' CHR ''=''"

text \<open>The ids the encoding keeps apart: no equals sign in either part.\<close>

definition plain_id :: "VolumeId \<Rightarrow> bool" where
  "plain_id vid \<longleftrightarrow> \<not> Contains (Prefix vid) CHR ''='' \<and> \<not> Contains (Suffix vid) CHR ''=''"

lemma decode_iff:
  "NewVolumeIdFromEncodedString s = Inr vid \<longleftrightarrow>
    (\<exists>a b. s = a @ CHR ''_'' # b \<and> CHR ''_'' \<notin> set a \<and> CHR ''_'' \<notin> set b \<and>
      vid = \<lparr>Prefix = Replace a CHR ''='' CHR ''_'', Suffix = Replace b CHR ''='' CHR ''_''\<rparr>)"
proof (cases "Split s CHR ''_''")
  case (Cons a ws)
  then have a: "CHR ''_'' \<notin> set a" by (metis Split_no_sep list.set_intros(1))
  show ?thesis
  proof (cases "length ws = 1")
    case True
    then obtain b where "Split s CHR ''_'' = [a, b]"
      using Cons by (auto simp: length_Suc_conv)
    then show ?thesis
      by (auto simp: NewVolumeIdFromEncodedString_def Split_two_iff Split_append_sep sep_append_eq_iff)
  next
    case False
    with Cons show ?thesis
      by (auto simp: NewVolumeIdFromEncodedString_def Split_append_sep)
  qed
qed simp

lemma decode_GetUniqueId:
  "NewVolumeIdFromEncodedString (GetUniqueId vid) =
    Inr \<lparr>Prefix = Replace (Replace (Prefix vid) CHR ''_'' CHR ''='') CHR ''='' CHR ''_'',
         Suffix = Replace (Replace (Suffix vid) CHR ''_'' CHR ''='') CHR ''='' CHR ''_''\<rparr>"
proof -
  have "CHR ''_'' \<notin> set (Replace p CHR ''_'' CHR ''='')" for p
    by (rule Replace_removes) simp
  then show ?thesis
    by (auto simp: NewVolumeIdFromEncodedString_def GetUniqueId_def Split_append_sep)
qed

lemma decode_GetUniqueId_plain:
  "plain_id vid \<Longrightarrow> NewVolumeIdFromEncodedString (GetUniqueId vid) = Inr vid"
  by (simp add: decode_GetUniqueId plain_id_def Contains_def Replace_Replace_back)

interpretation vid: codec GetUniqueId NewVolumeIdFromEncodedString plain_id
  by unfold_locales (rule decode_GetUniqueId_plain)

lemma GetUniqueId_decode:
  "NewVolumeIdFromEncodedString s = Inr vid \<Longrightarrow> GetUniqueId vid = s"
  by (auto simp: decode_iff GetUniqueId_def Replace_Replace_back)

section \<open>Properties\<close>

lemma Replace_back_iff: "old \<noteq> new \<Longrightarrow> Replace (Replace s old new) new old = s \<longleftrightarrow> new \<notin> set s"
  by (induction s) (auto simp: Replace_def)

text \<open>Property C20. Decoding the unique id gives the volume id back exactly for ids without an equals
  sign in either part.\<close>

theorem volume_id_roundtrip:
  "NewVolumeIdFromEncodedString (GetUniqueId (NewVolumeId prefix suffix)) = Inr (NewVolumeId prefix suffix) \<longleftrightarrow>
    CHR ''='' \<notin> set prefix \<and> CHR ''='' \<notin> set suffix"
  by (simp add: decode_GetUniqueId NewVolumeId_def Replace_back_iff)

text \<open>Whatever decodes encodes to the string it came from.\<close>

theorem encoded_string_roundtrip:
  assumes "NewVolumeIdFromEncodedString s = Inr vid"
  shows "GetUniqueId vid = s"
  using GetUniqueId_decode [OF assms] .

theorem encoded_string_roundtrip_witness: "GetUniqueId \<lparr>Prefix = ''a_b'', Suffix = ''c''\<rparr> = ''a=b_c''"
proof -
  have "NewVolumeIdFromEncodedString ''a=b_c'' = Inr \<lparr>Prefix = ''a_b'', Suffix = ''c''\<rparr>"
    by (simp add: NewVolumeIdFromEncodedString_def Replace_def)
  from encoded_string_roundtrip [OF this] show ?thesis .
qed

text \<open>A string is rejected exactly when it does not have one underscore, and the error
  names the string.\<close>

theorem volume_id_errors:
  "NewVolumeIdFromEncodedString s = Inl e \<longleftrightarrow> count_list s CHR ''_'' \<noteq> 1 \<and> e = IncorrectlyEncoded s"
  by (auto simp: NewVolumeIdFromEncodedString_def length_Split Let_def split: if_splits)

text \<open>Two volume ids have the same unique id exactly when they agree up to reading
  underscores as equals signs: ids without equals signs are never confused.\<close>

theorem unique_id_collisions:
  "GetUniqueId v = GetUniqueId w \<longleftrightarrow>
    Replace (Prefix v) CHR ''_'' CHR ''='' = Replace (Prefix w) CHR ''_'' CHR ''='' \<and>
    Replace (Suffix v) CHR ''_'' CHR ''='' = Replace (Suffix w) CHR ''_'' CHR ''=''"
proof -
  have "CHR ''_'' \<notin> set (Replace p CHR ''_'' CHR ''='')" for p
    by (rule Replace_removes) simp
  then show ?thesis by (simp add: GetUniqueId_def sep_append_eq_iff)
qed

end
