(* ===== verification/Json_String.thy ===== *)
theory Json_String
  imports Go_Strings
begin

text \<open>
  String literals of Go's package \<open>encoding/json\<close> (Go 1.25): the UTF-8 classifier of
  \<open>unicode/utf8\<close>, the escaping that \<open>json.Marshal\<close> applies (\<open>appendString\<close> with HTML escaping on)
  and the inverse that the decoder applies (\<open>unquoteBytes\<close>). The main lemma is that decoding
  an encoded string gives the string back with each invalid byte replaced by U+FFFD, hence
  the string itself when it is valid UTF-8.
\<close>

abbreviation byte :: "char \<Rightarrow> nat" where
  "byte c \<equiv> of_char c"

abbreviation backslash :: char where
  "backslash \<equiv> CHR 0x5C"

abbreviation dquote :: char where
  "dquote \<equiv> CHR 0x22"

section \<open>UTF-8\<close>

definition utf8_cont :: "char \<Rightarrow> bool" where
  "utf8_cont c \<longleftrightarrow> 0x80 \<le> byte c \<and> byte c \<le> 0xBF"

text \<open>
  The number of bytes of the well-formed UTF-8 sequence a string starts with, 0 when there is
  none (Go's \<open>utf8.DecodeRune\<close> returns \<open>RuneError\<close> with size 1 then).
\<close>

definition utf8_second :: "nat \<Rightarrow> char \<Rightarrow> bool" where
  "utf8_second b0 c \<longleftrightarrow>
     (if b0 = 0xE0 then 0xA0 \<le> byte c \<and> byte c \<le> 0xBF
      else if b0 = 0xED then 0x80 \<le> byte c \<and> byte c \<le> 0x9F
      else if b0 = 0xF0 then 0x90 \<le> byte c \<and> byte c \<le> 0xBF
      else if b0 = 0xF4 then 0x80 \<le> byte c \<and> byte c \<le> 0x8F
      else utf8_cont c)"

definition utf8_width :: "nat \<Rightarrow> nat" where
  "utf8_width b0 =
     (if b0 < 0x80 then 1
      else if 0xC2 \<le> b0 \<and> b0 \<le> 0xDF then 2
      else if 0xE0 \<le> b0 \<and> b0 \<le> 0xEF then 3
      else if 0xF0 \<le> b0 \<and> b0 \<le> 0xF4 then 4
      else 0)"

definition utf8_len :: "char \<Rightarrow> string \<Rightarrow> nat" where
  "utf8_len c cs =
     (let n = utf8_width (byte c) in
      if n \<le> 1 then n
      else if n - 1 \<le> length cs \<and> utf8_second (byte c) (cs ! 0) \<and> list_all utf8_cont (take (n - 2) (tl cs))
      then n else 0)"

fun valid_utf8 :: "string \<Rightarrow> bool" where
  "valid_utf8 [] = True"
| "valid_utf8 (c # cs) =
     (let n = utf8_len c cs in n \<noteq> 0 \<and> valid_utf8 (drop (n - 1) cs))"

definition replacement_char :: string where
  "replacement_char = [CHR 0xEF, CHR 0xBF, CHR 0xBD]"

text \<open>\<open>strings.ToValidUTF8\<close> byte by byte: what a JSON round trip makes of a string.\<close>

fun to_valid :: "string \<Rightarrow> string" where
  "to_valid [] = []"
| "to_valid (c # cs) =
     (let n = utf8_len c cs in
      if n = 0 then replacement_char @ to_valid cs
      else c # take (n - 1) cs @ to_valid (drop (n - 1) cs))"

lemma to_valid_id: "valid_utf8 s \<Longrightarrow> to_valid s = s"
  by (induction s rule: to_valid.induct) (auto simp: Let_def)

lemma utf8_len_ascii [simp]: "byte c < 0x80 \<Longrightarrow> utf8_len c cs = 1"
  by (simp add: utf8_len_def utf8_width_def)

lemma valid_utf8_ascii: "list_all (\<lambda>c. byte c < 0x80) s \<Longrightarrow> valid_utf8 s"
  by (induction s) (auto simp: Let_def)

lemma utf8_len_bound: "utf8_len c cs - 1 \<le> length cs"
  by (auto simp: utf8_len_def Let_def)

lemma utf8_len_prefix:
  assumes "utf8_len c cs = n" and "n \<noteq> 0"
  shows "utf8_len c (take (n - 1) cs @ ys) = n"
proof (cases "n \<le> 1")
  case True
  with assms show ?thesis by (auto simp: utf8_len_def Let_def split: if_splits)
next
  case False
  with assms have *: "utf8_width (byte c) = n" "n - 1 \<le> length cs"
    "utf8_second (byte c) (cs ! 0)" "list_all utf8_cont (take (n - 2) (tl cs))"
    by (auto simp: utf8_len_def Let_def split: if_splits)
  from False * obtain b bs where cs: "cs = b # bs" by (cases cs) auto
  from False obtain k where n: "n = Suc (Suc k)" by (metis One_nat_def Suc_le_eq less_Suc0 not0_implies_Suc not_less_eq_eq)
  from * show ?thesis by (simp add: utf8_len_def cs n)
qed

lemma utf8_len_high:
  assumes "utf8_len c cs = n" and "x \<in> set (take (n - 1) cs)"
  shows "0x80 \<le> byte x"
proof -
  have second: "utf8_second b y \<Longrightarrow> 0x80 \<le> byte y" for b y
    by (auto simp: utf8_second_def utf8_cont_def split: if_splits)
  show ?thesis
  proof (cases "n \<le> 1")
    case False
    with assms(1) have *: "n - 1 \<le> length cs" "utf8_second (byte c) (cs ! 0)"
      "list_all utf8_cont (take (n - 2) (tl cs))"
      by (auto simp: utf8_len_def Let_def split: if_splits)
    from False * obtain b bs where cs: "cs = b # bs" by (cases cs) auto
    from False obtain k where n: "n = Suc (Suc k)"
      by (metis One_nat_def Suc_le_eq less_Suc0 not0_implies_Suc not_less_eq_eq)
    from * assms(2) second show ?thesis
      by (auto simp: cs n list_all_iff utf8_cont_def)
  qed (use assms in simp)
qed

lemma valid_utf8_append: "valid_utf8 s \<Longrightarrow> valid_utf8 t \<Longrightarrow> valid_utf8 (s @ t)"
proof (induction s rule: valid_utf8.induct)
  case (2 c cs)
  let ?n = "utf8_len c cs"
  from 2 have n: "?n \<noteq> 0" and v: "valid_utf8 (drop (?n - 1) cs @ t)" by (auto simp: Let_def)
  have split: "cs @ t = take (?n - 1) cs @ drop (?n - 1) cs @ t" by simp
  have "utf8_len c (cs @ t) = ?n"
    by (subst split) (rule utf8_len_prefix [OF refl n])
  moreover have "drop (?n - 1) (cs @ t) = drop (?n - 1) cs @ t"
    using utf8_len_bound [of c cs] by simp
  ultimately show ?case using n v by (simp add: Let_def)
qed simp

text \<open>The UTF-8 encoding of a code point, as \<open>utf8.AppendRune\<close> writes it.\<close>

definition encode_rune :: "nat \<Rightarrow> string" where
  "encode_rune r =
     (if r < 0x80 then [char_of r]
      else if r < 0x800 then [char_of (0xC0 + r div 0x40), char_of (0x80 + r mod 0x40)]
      else if (0xD800 \<le> r \<and> r \<le> 0xDFFF) \<or> 0x10FFFF < r then replacement_char
      else if r < 0x10000 then
        [char_of (0xE0 + r div 0x1000), char_of (0x80 + r div 0x40 mod 0x40), char_of (0x80 + r mod 0x40)]
      else
        [char_of (0xF0 + r div 0x40000), char_of (0x80 + r div 0x1000 mod 0x40),
         char_of (0x80 + r div 0x40 mod 0x40), char_of (0x80 + r mod 0x40)])"

section \<open>Escaping\<close>

definition hex_digit :: "nat \<Rightarrow> char" where
  "hex_digit n = ''0123456789abcdef'' ! (n mod 16)"

text \<open>One byte below 0x80: \<open>htmlSafeSet\<close>, the two-character escapes, and \<^verbatim>\<open>\u00XX\<close>.\<close>

definition quote_ascii :: "char \<Rightarrow> string" where
  "quote_ascii c =
     (if c = backslash \<or> c = dquote then [backslash, c]
      else if c = CHR 0x08 then [backslash, CHR ''b'']
      else if c = CHR 0x0C then [backslash, CHR ''f'']
      else if c = CHR 0x0A then [backslash, CHR ''n'']
      else if c = CHR 0x0D then [backslash, CHR ''r'']
      else if c = CHR 0x09 then [backslash, CHR ''t'']
      else if byte c < 0x20 \<or> c = CHR ''<'' \<or> c = CHR ''>'' \<or> c = CHR ''&''
      then backslash # ''u00'' @ [hex_digit (byte c div 16), hex_digit (byte c)]
      else [c])"

fun quote_body :: "string \<Rightarrow> string" where
  "quote_body [] = []"
| "quote_body (c # cs) =
     (if byte c < 0x80 then quote_ascii c @ quote_body cs
      else let n = utf8_len c cs in
        if n = 0 then backslash # ''ufffd'' @ quote_body cs
        else if c = CHR 0xE2 \<and> take (n - 1) cs = [CHR 0x80, CHR 0xA8]
        then backslash # ''u2028'' @ quote_body (drop (n - 1) cs)
        else if c = CHR 0xE2 \<and> take (n - 1) cs = [CHR 0x80, CHR 0xA9]
        then backslash # ''u2029'' @ quote_body (drop (n - 1) cs)
        else c # take (n - 1) cs @ quote_body (drop (n - 1) cs))"

definition quote :: "string \<Rightarrow> string" where
  "quote s = dquote # quote_body s @ [dquote]"

section \<open>Unescaping\<close>

definition hex_value :: "char \<Rightarrow> nat option" where
  "hex_value c =
     (let b = byte c in
      if 0x30 \<le> b \<and> b \<le> 0x39 then Some (b - 0x30)
      else if 0x61 \<le> b \<and> b \<le> 0x66 then Some (b - 0x61 + 10)
      else if 0x41 \<le> b \<and> b \<le> 0x46 then Some (b - 0x41 + 10)
      else None)"

text \<open>Four hex digits (\<open>getu4\<close> after the leading \<^verbatim>\<open>\u\<close>).\<close>

fun hex4 :: "string \<Rightarrow> nat option" where
  "hex4 (a # b # c # d # _) =
     (case (hex_value a, hex_value b, hex_value c, hex_value d) of
        (Some w, Some x, Some y, Some z) \<Rightarrow> Some (((w * 16 + x) * 16 + y) * 16 + z)
      | _ \<Rightarrow> None)"
| "hex4 _ = None"

definition high_surrogate :: "nat \<Rightarrow> bool" where
  "high_surrogate r \<longleftrightarrow> 0xD800 \<le> r \<and> r < 0xDC00"

definition low_surrogate :: "nat \<Rightarrow> bool" where
  "low_surrogate r \<longleftrightarrow> 0xDC00 \<le> r \<and> r < 0xE000"

fun second_u4 :: "string \<Rightarrow> nat option" where
  "second_u4 (b # u # cs) = (if b = backslash \<and> u = CHR ''u'' then hex4 cs else None)"
| "second_u4 _ = None"

definition simple_escape :: "char \<Rightarrow> char option" where
  "simple_escape e =
     (if e = dquote \<or> e = backslash \<or> e = CHR ''/'' \<or> e = CHR 0x27 then Some e
      else if e = CHR ''b'' then Some (CHR 0x08)
      else if e = CHR ''f'' then Some (CHR 0x0C)
      else if e = CHR ''n'' then Some (CHR 0x0A)
      else if e = CHR ''r'' then Some (CHR 0x0D)
      else if e = CHR ''t'' then Some (CHR 0x09)
      else None)"

text \<open>The surrogate case of \<open>unquoteBytes\<close>: a pair is combined, a lone one becomes U+FFFD.
  The second component is how many bytes after the four digits the escape used up.\<close>

definition decode_u4 :: "nat \<Rightarrow> string \<Rightarrow> string \<times> nat" where
  "decode_u4 r cs =
     (if high_surrogate r \<or> low_surrogate r then
        (case second_u4 cs of
           Some r1 \<Rightarrow>
             if high_surrogate r \<and> low_surrogate r1
             then (encode_rune ((r - 0xD800) * 0x400 + (r1 - 0xDC00) + 0x10000), 6)
             else (replacement_char, 0)
         | None \<Rightarrow> (replacement_char, 0))
      else (encode_rune r, 0))"

fun unquote :: "string \<Rightarrow> string option" where
  "unquote [] = Some []"
| "unquote (c # cs) =
     (if c = backslash then
        (case cs of
           [] \<Rightarrow> None
         | e # r \<Rightarrow>
             if e = CHR ''u'' then
               (case hex4 r of
                  None \<Rightarrow> None
                | Some n \<Rightarrow>
                    let d = decode_u4 n (drop 4 r) in
                    map_option (\<lambda>t. fst d @ t) (unquote (drop (4 + snd d) r)))
             else
               (case simple_escape e of
                  None \<Rightarrow> None
                | Some x \<Rightarrow> map_option (\<lambda>t. x # t) (unquote r)))
      else if c = dquote \<or> byte c < 0x20 then None
      else
        (let n = utf8_len c cs in
         if n = 0 then map_option (\<lambda>t. replacement_char @ t) (unquote cs)
         else map_option (\<lambda>t. c # take (n - 1) cs @ t) (unquote (drop (n - 1) cs))))"

section \<open>Unescaping inverts escaping\<close>

lemma hex_value_digit [simp]: "hex_value (hex_digit n) = Some (n mod 16)"
proof -
  have "\<forall>k\<in>set [0..<16]. hex_value (''0123456789abcdef'' ! k) = Some k"
    by (simp add: upt_rec hex_value_def)
  moreover have "n mod 16 \<in> set [0..<16]" by simp
  ultimately show ?thesis unfolding hex_digit_def by blast
qed

lemma hex4_byte:
  "byte c < 0x80 \<Longrightarrow>
    hex4 (CHR ''0'' # CHR ''0'' # hex_digit (byte c div 16) # hex_digit (byte c) # t) = Some (byte c)"
  by (simp add: hex_value_def [of "CHR ''0''"])

lemma encode_rune_byte: "byte c < 0x80 \<Longrightarrow> encode_rune (byte c) = [c]"
  by (simp add: encode_rune_def)

lemma not_surrogate_byte: "byte c < 0x80 \<Longrightarrow> \<not> high_surrogate (byte c) \<and> \<not> low_surrogate (byte c)"
  by (simp add: high_surrogate_def low_surrogate_def)

lemma unquote_quote_ascii:
  assumes "byte c < 0x80"
  shows "unquote (quote_ascii c @ t) = map_option (\<lambda>u. c # u) (unquote t)"
proof -
  have short: "unquote (quote_ascii x @ t) = map_option (\<lambda>u. x # u) (unquote t)"
    if "x = backslash \<or> x = dquote \<or> x = CHR 0x08 \<or> x = CHR 0x0C \<or> x = CHR 0x0A \<or> x = CHR 0x0D \<or> x = CHR 0x09"
    for x
    using that by (elim disjE) (simp_all add: quote_ascii_def simple_escape_def)
  let ?short = "{backslash, dquote, CHR 0x08, CHR 0x0C, CHR 0x0A, CHR 0x0D, CHR 0x09}"
  let ?html = "{CHR ''<'', CHR ''>'', CHR ''&''}"
  consider "c \<in> ?short" | "c \<notin> ?short" "byte c < 0x20 \<or> c \<in> ?html"
    | "c \<notin> ?short" "\<not> byte c < 0x20" "c \<notin> ?html"
    by (cases "c \<in> ?short"; cases "byte c < 0x20 \<or> c \<in> ?html") simp_all
  then show ?thesis
  proof cases
    case 1
    then show ?thesis by (intro short) simp
  next
    case 2
    then have "quote_ascii c @ t =
      backslash # CHR ''u'' # CHR ''0'' # CHR ''0'' # hex_digit (byte c div 16) # hex_digit (byte c) # t"
      by (auto simp: quote_ascii_def)
    with assms show ?thesis
      by (cases "unquote t")
        (simp_all add: hex4_byte decode_u4_def not_surrogate_byte encode_rune_byte del: hex4.simps)
  next
    case 3
    then have "quote_ascii c = [c]" by (simp add: quote_ascii_def)
    with 3 assms show ?thesis by simp
  qed
qed

lemma unquote_u4_const:
  "hex4 (a # b # c # d # []) = Some r \<Longrightarrow> \<not> high_surrogate r \<Longrightarrow> \<not> low_surrogate r \<Longrightarrow>
    unquote (backslash # CHR ''u'' # a # b # c # d # t) = map_option (\<lambda>u. encode_rune r @ u) (unquote t)"
  by (simp add: decode_u4_def)

lemma unquote_fffd:
  "unquote (backslash # ''ufffd'' @ t) = map_option (\<lambda>u. replacement_char @ u) (unquote t)"
proof -
  have "hex4 ''fffd'' = Some 0xFFFD" and "\<not> high_surrogate 0xFFFD" and "\<not> low_surrogate 0xFFFD"
    and e: "encode_rune 0xFFFD = replacement_char"
    by (simp_all add: hex_value_def high_surrogate_def low_surrogate_def encode_rune_def
        char_of_def bit_iff_odd replacement_char_def)
  from unquote_u4_const [OF this(1-3)] show ?thesis by (simp only: append.simps e)
qed

lemma unquote_2028:
  "unquote (backslash # ''u2028'' @ t) = map_option (\<lambda>u. [CHR 0xE2, CHR 0x80, CHR 0xA8] @ u) (unquote t)"
proof -
  have "hex4 ''2028'' = Some 0x2028" and "\<not> high_surrogate 0x2028" and "\<not> low_surrogate 0x2028"
    and e: "encode_rune 0x2028 = [CHR 0xE2, CHR 0x80, CHR 0xA8]"
    by (simp_all add: hex_value_def high_surrogate_def low_surrogate_def encode_rune_def
        char_of_def bit_iff_odd replacement_char_def)
  from unquote_u4_const [OF this(1-3)] show ?thesis by (simp only: append.simps e)
qed

lemma unquote_2029:
  "unquote (backslash # ''u2029'' @ t) = map_option (\<lambda>u. [CHR 0xE2, CHR 0x80, CHR 0xA9] @ u) (unquote t)"
proof -
  have "hex4 ''2029'' = Some 0x2029" and "\<not> high_surrogate 0x2029" and "\<not> low_surrogate 0x2029"
    and e: "encode_rune 0x2029 = [CHR 0xE2, CHR 0x80, CHR 0xA9]"
    by (simp_all add: hex_value_def high_surrogate_def low_surrogate_def encode_rune_def
        char_of_def bit_iff_odd replacement_char_def)
  from unquote_u4_const [OF this(1-3)] show ?thesis by (simp only: append.simps e)
qed

lemma unquote_copy:
  assumes "\<not> byte c < 0x80" and "utf8_len c cs = n" and "n \<noteq> 0"
  shows "unquote (c # take (n - 1) cs @ t) =
    map_option (\<lambda>u. c # take (n - 1) cs @ u) (unquote t)"
proof -
  have "utf8_len c (take (n - 1) cs @ t) = n" using assms utf8_len_prefix by blast
  moreover have "length (take (n - 1) cs) = n - 1"
    using utf8_len_bound [of c cs] assms(2) by simp
  moreover have "c \<noteq> backslash" "c \<noteq> dquote" using assms(1) by auto
  ultimately show ?thesis using assms(1,3) by (simp add: Let_def)
qed

lemma unquote_quote_body: "unquote (quote_body s) = Some (to_valid s)"
proof (induction s rule: quote_body.induct)
  case (2 c cs)
  let ?n = "utf8_len c cs"
  consider "byte c < 0x80" | "\<not> byte c < 0x80" "?n = 0" | "\<not> byte c < 0x80" "?n \<noteq> 0" by blast
  then show ?case
  proof cases
    case 1
    with "2.IH"(1) show ?thesis by (simp add: unquote_quote_ascii)
  next
    case 2
    with "2.IH"(2) have "unquote (quote_body cs) = Some (to_valid cs)" by simp
    with 2 unquote_fffd [of "quote_body cs"] show ?thesis by (simp del: unquote.simps)
  next
    case 3
    then have IH: "unquote (quote_body (drop (?n - 1) cs)) = Some (to_valid (drop (?n - 1) cs))"
      using "2.IH"(3,4,5) by metis
    let ?t = "take (?n - 1) cs" and ?q = "quote_body (drop (?n - 1) cs)"
    consider "c = CHR 0xE2" "?t = [CHR 0x80, CHR 0xA8]" | "c = CHR 0xE2" "?t = [CHR 0x80, CHR 0xA9]"
      | "\<not> (c = CHR 0xE2 \<and> ?t = [CHR 0x80, CHR 0xA8])" "\<not> (c = CHR 0xE2 \<and> ?t = [CHR 0x80, CHR 0xA9])"
      by blast
    then show ?thesis
    proof cases
      case c1: 1
      with 3 have "quote_body (c # cs) = backslash # ''u2028'' @ ?q" by (simp add: Let_def)
      moreover have "to_valid (c # cs) = [CHR 0xE2, CHR 0x80, CHR 0xA8] @ to_valid (drop (?n - 1) cs)"
        using 3 c1 by (simp add: Let_def)
      ultimately show ?thesis by (simp only: unquote_2028 IH option.map)
    next
      case c2: 2
      with 3 have "quote_body (c # cs) = backslash # ''u2029'' @ ?q" by (simp add: Let_def)
      moreover have "to_valid (c # cs) = [CHR 0xE2, CHR 0x80, CHR 0xA9] @ to_valid (drop (?n - 1) cs)"
        using 3 c2 by (simp add: Let_def)
      ultimately show ?thesis by (simp only: unquote_2029 IH option.map)
    next
      case c3: 3
      then have "quote_body (c # cs) = c # ?t @ ?q"
        using 3 unfolding quote_body.simps Let_def by (simp only: if_False)
      moreover have "to_valid (c # cs) = c # ?t @ to_valid (drop (?n - 1) cs)"
        using 3 by (simp add: Let_def)
      ultimately show ?thesis using 3 by (simp only: unquote_copy [OF 3(1) refl 3(2)] IH option.map)
    qed
  qed
qed simp

end
