(* ===== verification/Json.thy ===== *)
theory Json
  imports Json_String
begin

text \<open>
  The JSON text layer of Go's package \<open>encoding/json\<close> (Go 1.25). \<open>print_json\<close> is the compact
  output of \<open>json.Marshal\<close> for a value already turned into a JSON tree; \<open>parse_json\<close> is
  the validating scanner that \<open>json.Unmarshal\<close> runs over its input (\<open>scanner.go\<close>), a
  push-down automaton over the bytes whose stack also collects the tree. Its states, its
  nesting limit and its error texts are the library's. The main lemma is that the parser
  reads back what the printer writes.
\<close>

datatype json =
    JNull
  | JBool bool
  | JNum string \<comment> \<open>the literal as written\<close>
  | JStr string
  | JArr "json list"
  | JObj "(string \<times> json) list"

section \<open>Printing\<close>

fun print_json :: "json \<Rightarrow> string" where
  "print_json JNull = ''null''"
| "print_json (JBool b) = (if b then ''true'' else ''false'')"
| "print_json (JNum lit) = lit"
| "print_json (JStr s) = quote s"
| "print_json (JArr vs) = ''['' @ Join (map print_json vs) '','' @ '']''"
| "print_json (JObj kvs) =
     ''{'' @ Join (map (\<lambda>kv. quote (fst kv) @ '':'' @ print_json (snd kv)) kvs) '','' @ ''}''"

section \<open>Scanning\<close>

definition is_space :: "char \<Rightarrow> bool" where
  "is_space c \<longleftrightarrow> c = CHR '' '' \<or> c = CHR 0x09 \<or> c = CHR 0x0D \<or> c = CHR 0x0A"

definition is_digit :: "char \<Rightarrow> bool" where
  "is_digit c \<longleftrightarrow> 0x30 \<le> byte c \<and> byte c \<le> 0x39"

definition is_digit19 :: "char \<Rightarrow> bool" where
  "is_digit19 c \<longleftrightarrow> 0x31 \<le> byte c \<and> byte c \<le> 0x39"

text \<open>\<open>quoteChar\<close> of \<open>scanner.go\<close>: the offending byte, taken as a code point, in single quotes and
  escaped as \<open>strconv.Quote\<close> escapes it (the printable code points from 0x80 to 0xFF are
  0xA1 to 0xFF except 0xAD).\<close>

definition quoteChar :: "char \<Rightarrow> string" where
  "quoteChar c =
     [CHR 0x27] @
     (if c = CHR 0x27 then [backslash, c]
      else if c = dquote then [c]
      else if c = backslash then [backslash, c]
      else if c = CHR 0x07 then [backslash, CHR ''a'']
      else if c = CHR 0x08 then [backslash, CHR ''b'']
      else if c = CHR 0x0C then [backslash, CHR ''f'']
      else if c = CHR 0x0A then [backslash, CHR ''n'']
      else if c = CHR 0x0D then [backslash, CHR ''r'']
      else if c = CHR 0x09 then [backslash, CHR ''t'']
      else if c = CHR 0x0B then [backslash, CHR ''v'']
      else if byte c < 0x20 \<or> byte c = 0x7F
      then backslash # ''x'' @ [hex_digit (byte c div 16), hex_digit (byte c)]
      else if byte c < 0x80 then [c]
      else if byte c \<le> 0xA0 \<or> byte c = 0xAD
      then backslash # ''u00'' @ [hex_digit (byte c div 16), hex_digit (byte c)]
      else encode_rune (byte c))
     @ [CHR 0x27]"

definition syntax_error :: "char \<Rightarrow> string \<Rightarrow> go_error + 'a" where
  "syntax_error c ctx = Inl (GoError (''invalid character '' @ quoteChar c @ '' '' @ ctx))"

text \<open>Number literals: the states \<open>stateNeg\<close>, \<open>state0\<close>, \<open>state1\<close>, \<open>stateDot\<close>, \<open>stateDot0\<close>,
  \<open>stateE\<close>, \<open>stateESign\<close>, \<open>stateE0\<close>.\<close>

datatype num_state = Neg | Zero | Digits | Dot | Frac | Exp | ExpSign | ExpDigits

definition num_start :: "char \<Rightarrow> num_state option" where
  "num_start c =
     (if c = CHR ''-'' then Some Neg else if c = CHR ''0'' then Some Zero
      else if is_digit19 c then Some Digits else None)"

definition after_int :: "char \<Rightarrow> num_state option" where
  "after_int c =
     (if c = CHR ''.'' then Some Dot
      else if c = CHR ''e'' \<or> c = CHR ''E'' then Some Exp else None)"

fun num_next :: "char \<Rightarrow> num_state \<Rightarrow> num_state option" where
  "num_next c Neg =
     (if c = CHR ''0'' then Some Zero else if is_digit19 c then Some Digits else None)"
| "num_next c Zero = after_int c"
| "num_next c Digits = (if is_digit c then Some Digits else after_int c)"
| "num_next c Dot = (if is_digit c then Some Frac else None)"
| "num_next c Frac =
     (if is_digit c then Some Frac
      else if c = CHR ''e'' \<or> c = CHR ''E'' then Some Exp else None)"
| "num_next c Exp =
     (if c = CHR ''+'' \<or> c = CHR ''-'' then Some ExpSign
      else if is_digit c then Some ExpDigits else None)"
| "num_next c ExpSign = (if is_digit c then Some ExpDigits else None)"
| "num_next c ExpDigits = (if is_digit c then Some ExpDigits else None)"

fun num_final :: "num_state \<Rightarrow> bool" where
  "num_final Zero = True" | "num_final Digits = True"
| "num_final Frac = True" | "num_final ExpDigits = True"
| "num_final _ = False"

fun num_ctx :: "num_state \<Rightarrow> string" where
  "num_ctx Neg = ''in numeric literal''"
| "num_ctx Dot = ''after decimal point in numeric literal''"
| "num_ctx _ = ''in exponent of numeric literal''"

fun num_run :: "string \<Rightarrow> num_state \<Rightarrow> num_state option" where
  "num_run [] n = Some n"
| "num_run (c # cs) n = (case num_next c n of None \<Rightarrow> None | Some n' \<Rightarrow> num_run cs n')"

definition is_number :: "string \<Rightarrow> bool" where
  "is_number s =
     (case s of [] \<Rightarrow> False
      | c # cs \<Rightarrow>
          (case num_start c of None \<Rightarrow> False
           | Some n \<Rightarrow> (case num_run cs n of None \<Rightarrow> False | Some n' \<Rightarrow> num_final n')))"

text \<open>The open arrays and objects (\<open>parseState\<close>), innermost first, with what they hold so far.\<close>

datatype frame =
    FArr "json list"
  | FObjKey "(string \<times> json) list"
  | FObjVal "(string \<times> json) list" string

datatype mode =
    BeginValue | BeginValueOrEmpty | BeginStringOrEmpty | BeginString
  | EndValue json
  | InString string
  | InStringEsc string
  | InStringEscU string nat
  | InNumber num_state string
  | InLiteral string string json \<comment> \<open>name, characters still expected, value\<close>

type_synonym scan = "mode \<times> frame list"

definition maxNestingDepth :: nat where
  "maxNestingDepth = 10000"

definition push_frame :: "char \<Rightarrow> mode \<Rightarrow> frame \<Rightarrow> frame list \<Rightarrow> go_error + scan" where
  "push_frame c m f st =
     (if Suc (length st) \<le> maxNestingDepth then Inr (m, f # st)
      else syntax_error c ''exceeded max depth'')"

text \<open>\<open>stateBeginValue\<close>.\<close>

definition begin_value :: "char \<Rightarrow> frame list \<Rightarrow> go_error + scan" where
  "begin_value c st =
     (if is_space c then Inr (BeginValue, st)
      else if c = CHR ''{'' then push_frame c BeginStringOrEmpty (FObjKey []) st
      else if c = CHR ''['' then push_frame c BeginValueOrEmpty (FArr []) st
      else if c = dquote then Inr (InString [], st)
      else if c = CHR ''t'' then Inr (InLiteral ''true'' ''rue'' (JBool True), st)
      else if c = CHR ''f'' then Inr (InLiteral ''false'' ''alse'' (JBool False), st)
      else if c = CHR ''n'' then Inr (InLiteral ''null'' ''ull'' JNull, st)
      else (case num_start c of
          Some n \<Rightarrow> Inr (InNumber n [c], st)
        | None \<Rightarrow> syntax_error c ''looking for beginning of value''))"

definition begin_string :: "char \<Rightarrow> frame list \<Rightarrow> go_error + scan" where
  "begin_string c st =
     (if is_space c then Inr (BeginString, st)
      else if c = dquote then Inr (InString [], st)
      else syntax_error c ''looking for beginning of object key string'')"

text \<open>\<open>stateEndValue\<close> with the value just completed, and \<open>stateEndTop\<close> when nothing is open.
  A key is always a string, so the last clause of the key case is never reached.\<close>

fun end_value :: "char \<Rightarrow> json \<Rightarrow> frame list \<Rightarrow> go_error + scan" where
  "end_value c v [] =
     (if is_space c then Inr (EndValue v, []) else syntax_error c ''after top-level value'')"
| "end_value c v (FObjKey kvs # st) =
     (if is_space c then Inr (EndValue v, FObjKey kvs # st)
      else if c = CHR '':'' then
        (case v of JStr k \<Rightarrow> Inr (BeginValue, FObjVal kvs k # st)
         | _ \<Rightarrow> syntax_error c ''after object key'')
      else syntax_error c ''after object key'')"
| "end_value c v (FObjVal kvs k # st) =
     (if is_space c then Inr (EndValue v, FObjVal kvs k # st)
      else if c = CHR '','' then Inr (BeginString, FObjKey (kvs @ [(k, v)]) # st)
      else if c = CHR ''}'' then Inr (EndValue (JObj (kvs @ [(k, v)])), st)
      else syntax_error c ''after object key:value pair'')"
| "end_value c v (FArr vs # st) =
     (if is_space c then Inr (EndValue v, FArr vs # st)
      else if c = CHR '','' then Inr (BeginValue, FArr (vs @ [v]) # st)
      else if c = CHR '']'' then Inr (EndValue (JArr (vs @ [v])), st)
      else syntax_error c ''after array element'')"

text \<open>A completed string literal; the library panics with this text when unquoting fails,
  which the scanner's own checks exclude.\<close>

definition end_string :: "string \<Rightarrow> frame list \<Rightarrow> go_error + scan" where
  "end_string raw st =
     (case unquote raw of
        Some s \<Rightarrow> Inr (EndValue (JStr s), st)
      | None \<Rightarrow> Inl (GoError ''JSON decoder out of sync - data changing underfoot?''))"

fun scan_step :: "char \<Rightarrow> scan \<Rightarrow> go_error + scan" where
  "scan_step c (BeginValue, st) = begin_value c st"
| "scan_step c (BeginValueOrEmpty, st) =
     (if is_space c then Inr (BeginValueOrEmpty, st)
      else case (c = CHR '']'', st) of
          (True, FArr vs # st') \<Rightarrow> Inr (EndValue (JArr vs), st')
        | _ \<Rightarrow> begin_value c st)"
| "scan_step c (BeginStringOrEmpty, st) =
     (if is_space c then Inr (BeginStringOrEmpty, st)
      else case (c = CHR ''}'', st) of
          (True, FObjKey kvs # st') \<Rightarrow> Inr (EndValue (JObj kvs), st')
        | _ \<Rightarrow> begin_string c st)"
| "scan_step c (BeginString, st) = begin_string c st"
| "scan_step c (EndValue v, st) = end_value c v st"
| "scan_step c (InString raw, st) =
     (if c = dquote then end_string raw st
      else if c = backslash then Inr (InStringEsc (raw @ [c]), st)
      else if byte c < 0x20 then syntax_error c ''in string literal''
      else Inr (InString (raw @ [c]), st))"
| "scan_step c (InStringEsc raw, st) =
     (if c \<in> {CHR ''b'', CHR ''f'', CHR ''n'', CHR ''r'', CHR ''t'', backslash, CHR ''/'', dquote}
      then Inr (InString (raw @ [c]), st)
      else if c = CHR ''u'' then Inr (InStringEscU (raw @ [c]) 4, st)
      else syntax_error c ''in string escape code'')"
| "scan_step c (InStringEscU raw n, st) =
     (if hex_value c \<noteq> None
      then Inr (if n \<le> 1 then InString (raw @ [c]) else InStringEscU (raw @ [c]) (n - 1), st)
      else syntax_error c (''in '' @ [backslash] @ ''u hexadecimal character escape''))"
| "scan_step c (InNumber n raw, st) =
     (case num_next c n of
        Some n' \<Rightarrow> Inr (InNumber n' (raw @ [c]), st)
      | None \<Rightarrow> if num_final n then end_value c (JNum raw) st else syntax_error c (num_ctx n))"
| "scan_step c (InLiteral name (e # es) v, st) =
     (if c = e then Inr (if es = [] then EndValue v else InLiteral name es v, st)
      else syntax_error c (''in literal '' @ name @ '' (expecting '' @ quoteChar e @ '')''))"
| "scan_step c (InLiteral name [] v, st) = end_value c v st"

fun scan_run :: "string \<Rightarrow> scan \<Rightarrow> go_error + scan" where
  "scan_run [] s = Inr s"
| "scan_run (c # cs) s = bind_ok (scan_step c s) (scan_run cs)"

text \<open>\<open>scanner.eof\<close>: one more blank must complete the top-level value.\<close>

definition scan_eof :: "scan \<Rightarrow> go_error + json" where
  "scan_eof s =
     bind_ok (scan_step (CHR '' '') s)
       (\<lambda>s'. case s' of (EndValue v, []) \<Rightarrow> Inr v
           | _ \<Rightarrow> Inl (GoError ''unexpected end of JSON input''))"

lemma scan_eof_value:
  assumes "scan_eof s = Inr v"
  shows "scan_step (CHR '' '') s = Inr (EndValue v, [])"
proof -
  obtain s' where s': "scan_step (CHR '' '') s = Inr s'"
    "(case s' of (EndValue v, []) \<Rightarrow> Inr v | _ \<Rightarrow> Inl (GoError ''unexpected end of JSON input'')) = Inr v"
    using assms unfolding scan_eof_def by (auto simp: bind_ok_Inr_iff)
  have "s' = (EndValue v, [])"
    using s'(2) by (auto split: prod.splits mode.splits list.splits)
  with s'(1) show ?thesis by simp
qed

definition parse_json :: "string \<Rightarrow> go_error + json" where
  "parse_json s = bind_ok (scan_run s (BeginValue, [])) scan_eof"

end
