(* ===== verification/Json_Roundtrip.thy ===== *)
theory Json_Roundtrip
  imports Json
begin

text \<open>
  The scanner reads back what the printer writes: for a tree whose number literals are well
  formed and whose nesting is within Go's limit, parsing the printed text gives the tree with
  its strings made valid UTF-8.
\<close>

fun sanitize :: "json \<Rightarrow> json" where
  "sanitize JNull = JNull"
| "sanitize (JBool b) = JBool b"
| "sanitize (JNum lit) = JNum lit"
| "sanitize (JStr s) = JStr (to_valid s)"
| "sanitize (JArr vs) = JArr (map sanitize vs)"
| "sanitize (JObj kvs) = JObj (map (\<lambda>kv. (to_valid (fst kv), sanitize (snd kv))) kvs)"

fun json_depth :: "json \<Rightarrow> nat" where
  "json_depth (JArr vs) = Suc (Max (insert 0 (set (map json_depth vs))))"
| "json_depth (JObj kvs) = Suc (Max (insert 0 (set (map (\<lambda>kv. json_depth (snd kv)) kvs))))"
| "json_depth _ = 0"

fun numbers_ok :: "json \<Rightarrow> bool" where
  "numbers_ok (JNum lit) = is_number lit"
| "numbers_ok (JArr vs) = list_all numbers_ok vs"
| "numbers_ok (JObj kvs) = list_all (\<lambda>kv. numbers_ok (snd kv)) kvs"
| "numbers_ok _ = True"

fun strings_valid :: "json \<Rightarrow> bool" where
  "strings_valid (JStr s) = valid_utf8 s"
| "strings_valid (JArr vs) = list_all strings_valid vs"
| "strings_valid (JObj kvs) = list_all (\<lambda>kv. valid_utf8 (fst kv) \<and> strings_valid (snd kv)) kvs"
| "strings_valid _ = True"

lemma sanitize_id: "strings_valid j \<Longrightarrow> sanitize j = j"
  by (induction j rule: sanitize.induct)
    (auto simp: to_valid_id list_all_iff intro!: map_idI)

lemma scan_run_append: "scan_run (xs @ ys) s = bind_ok (scan_run xs s) (scan_run ys)"
proof (induction xs arbitrary: s)
  case (Cons c cs)
  show ?case by (cases "scan_step c s") (simp_all add: Cons.IH)
qed simp

section \<open>String literals\<close>

lemma scan_string_char:
  "c \<noteq> dquote \<Longrightarrow> c \<noteq> backslash \<Longrightarrow> \<not> byte c < 0x20 \<Longrightarrow>
    scan_step c (InString raw, st) = Inr (InString (raw @ [c]), st)"
  by simp

lemma scan_string_high:
  "(\<And>c. c \<in> set cs \<Longrightarrow> 0x80 \<le> byte c) \<Longrightarrow>
    scan_run cs (InString raw, st) = Inr (InString (raw @ cs), st)"
proof (induction cs arbitrary: raw)
  case (Cons c cs)
  then have "0x80 \<le> byte c" by simp
  then have "c \<noteq> dquote" "c \<noteq> backslash" "\<not> byte c < 0x20" by auto
  then show ?case using Cons by simp
qed simp

lemma hex_value_hex_digit_ne: "hex_value (hex_digit n) \<noteq> None"
  by simp

lemma scan_u_escape:
  assumes "hex_value a \<noteq> None" "hex_value b \<noteq> None" "hex_value c \<noteq> None" "hex_value d \<noteq> None"
  shows "scan_run (backslash # CHR ''u'' # [a, b, c, d]) (InString raw, st) =
    Inr (InString (raw @ backslash # CHR ''u'' # [a, b, c, d]), st)"
  using assms by simp

lemma scan_quote_ascii:
  assumes "byte c < 0x80"
  shows "scan_run (quote_ascii c) (InString raw, st) = Inr (InString (raw @ quote_ascii c), st)"
proof -
  have short: "scan_run (quote_ascii x) (InString raw, st) = Inr (InString (raw @ quote_ascii x), st)"
    if "x = backslash \<or> x = dquote \<or> x = CHR 0x08 \<or> x = CHR 0x0C \<or> x = CHR 0x0A \<or> x = CHR 0x0D \<or> x = CHR 0x09"
    for x
    using that by (elim disjE) (simp_all add: quote_ascii_def)
  let ?short = "c = backslash \<or> c = dquote \<or> c = CHR 0x08 \<or> c = CHR 0x0C \<or> c = CHR 0x0A \<or> c = CHR 0x0D \<or> c = CHR 0x09"
  let ?html = "byte c < 0x20 \<or> c = CHR ''<'' \<or> c = CHR ''>'' \<or> c = CHR ''&''"
  show ?thesis
  proof (cases ?short)
    case False
    note ns = False
    show ?thesis
    proof (cases ?html)
      case True
      with ns have q: "quote_ascii c =
          backslash # CHR ''u'' # [CHR ''0'', CHR ''0'', hex_digit (byte c div 16), hex_digit (byte c)]"
        unfolding quote_ascii_def by (simp only: if_True if_False de_Morgan_disj append.simps) simp
      have "hex_value (CHR ''0'') \<noteq> None" by (simp add: hex_value_def)
      from scan_u_escape [OF this this hex_value_hex_digit_ne hex_value_hex_digit_ne]
      show ?thesis unfolding q .
    next
      case False
      with ns have "quote_ascii c = [c]" by (simp add: quote_ascii_def)
      with ns False show ?thesis by simp
    qed
  qed (rule short)
qed

lemma scan_u_const:
  "scan_run (backslash # ''ufffd'') (InString raw, st) = Inr (InString (raw @ backslash # ''ufffd''), st)"
  "scan_run (backslash # ''u2028'') (InString raw, st) = Inr (InString (raw @ backslash # ''u2028''), st)"
  "scan_run (backslash # ''u2029'') (InString raw, st) = Inr (InString (raw @ backslash # ''u2029''), st)"
  by (rule scan_u_escape; simp add: hex_value_def)+

lemma scan_quote_body:
  "scan_run (quote_body s) (InString raw, st) = Inr (InString (raw @ quote_body s), st)"
proof (induction s arbitrary: raw rule: quote_body.induct)
  case (2 c cs)
  let ?n = "utf8_len c cs"
  consider (ascii) "byte c < 0x80" | (bad) "\<not> byte c < 0x80" "?n = 0"
    | (ls) "\<not> byte c < 0x80" "?n \<noteq> 0" "c = CHR 0xE2 \<and> take (?n - 1) cs = [CHR 0x80, CHR 0xA8]"
    | (ps) "\<not> byte c < 0x80" "?n \<noteq> 0" "\<not> (c = CHR 0xE2 \<and> take (?n - 1) cs = [CHR 0x80, CHR 0xA8])"
        "c = CHR 0xE2 \<and> take (?n - 1) cs = [CHR 0x80, CHR 0xA9]"
    | (copy) "\<not> byte c < 0x80" "?n \<noteq> 0" "\<not> (c = CHR 0xE2 \<and> take (?n - 1) cs = [CHR 0x80, CHR 0xA8])"
        "\<not> (c = CHR 0xE2 \<and> take (?n - 1) cs = [CHR 0x80, CHR 0xA9])"
    by blast
  then show ?case
  proof cases
    case ascii
    with "2.IH"(1) show ?thesis by (simp add: scan_run_append scan_quote_ascii)
  next
    case bad
    then have "quote_body (c # cs) = (backslash # ''ufffd'') @ quote_body cs" by (simp add: Let_def)
    moreover have "scan_run (quote_body cs) (InString r, st) = Inr (InString (r @ quote_body cs), st)" for r
      using "2.IH"(2) bad by simp
    ultimately show ?thesis by (simp only: scan_run_append scan_u_const bind_ok.simps append_assoc)
  next
    case ls
    let ?q = "quote_body (drop (?n - 1) cs)"
    from ls have "quote_body (c # cs) = (backslash # ''u2028'') @ ?q"
      by (elim conjE) (simp add: Let_def)
    moreover have "scan_run ?q (InString r, st) = Inr (InString (r @ ?q), st)" for r
      using "2.IH"(3) ls by metis
    ultimately show ?thesis by (simp only: scan_run_append scan_u_const bind_ok.simps append_assoc)
  next
    case ps
    let ?q = "quote_body (drop (?n - 1) cs)"
    from ps have "quote_body (c # cs) = (backslash # ''u2029'') @ ?q"
      by (elim conjE) (simp add: Let_def)
    moreover have "scan_run ?q (InString r, st) = Inr (InString (r @ ?q), st)" for r
      using "2.IH"(4) ps by metis
    ultimately show ?thesis by (simp only: scan_run_append scan_u_const bind_ok.simps append_assoc)
  next
    case copy
    let ?q = "quote_body (drop (?n - 1) cs)" and ?t = "c # take (?n - 1) cs"
    from copy have "quote_body (c # cs) = ?t @ ?q"
      unfolding quote_body.simps Let_def by (simp only: if_False append.simps)
    moreover have "scan_run ?q (InString r, st) = Inr (InString (r @ ?q), st)" for r
      using "2.IH"(5) copy by metis
    moreover have "scan_run ?t (InString r, st) = Inr (InString (r @ ?t), st)" for r
      by (rule scan_string_high) (use copy(1) utf8_len_high [OF refl] in fastforce)
    ultimately show ?thesis by (simp only: scan_run_append bind_ok.simps append_assoc)
  qed
qed simp

lemma scan_quote:
  assumes "scan_step dquote (m, st) = Inr (InString [], st)"
  shows "scan_run (quote s) (m, st) = Inr (EndValue (JStr (to_valid s)), st)"
  using assms
  by (simp add: quote_def scan_run_append scan_quote_body end_string_def unquote_quote_body
      del: scan_step.simps(1,2,3,4,5))

section \<open>Number literals\<close>

lemma num_start_plain:
  assumes "num_start c = Some n"
  shows "\<not> is_space c" "c \<noteq> CHR ''{''" "c \<noteq> CHR ''[''" "c \<noteq> dquote" "c \<noteq> CHR ''t''"
    "c \<noteq> CHR ''f''" "c \<noteq> CHR ''n''" "c \<noteq> CHR '']''"
  using assms by (auto simp: num_start_def is_digit19_def is_space_def split: if_splits)

lemma scan_num_run:
  "num_run cs n = Some n' \<Longrightarrow> scan_run cs (InNumber n raw, st) = Inr (InNumber n' (raw @ cs), st)"
  by (induction cs arbitrary: n raw) (auto split: option.splits)

lemma num_next_closer:
  "c = CHR '','' \<or> c = CHR ''}'' \<or> c = CHR '']'' \<or> c = CHR '' '' \<Longrightarrow> num_next c n = None"
  by (cases n) (auto simp: is_digit_def is_digit19_def after_int_def)

section \<open>Whole values\<close>

text \<open>After a value has been read, a comma, a closing bracket or a blank ends it.\<close>

definition closes :: "mode \<Rightarrow> json \<Rightarrow> bool" where
  "closes m v \<longleftrightarrow>
     (\<forall>c st. c = CHR '','' \<or> c = CHR ''}'' \<or> c = CHR '']'' \<or> c = CHR '' '' \<longrightarrow>
        scan_step c (m, st) = end_value c v st)"

lemma closes_EndValue [simp]: "closes (EndValue v) v"
  by (simp add: closes_def)

lemma closes_InNumber: "num_final n \<Longrightarrow> closes (InNumber n raw) (JNum raw)"
  by (simp add: closes_def num_next_closer)

definition reads :: "json \<Rightarrow> bool" where
  "reads j \<longleftrightarrow>
     (\<forall>st. json_depth j + length st \<le> maxNestingDepth \<longrightarrow>
        (\<exists>m. scan_run (print_json j) (BeginValue, st) = Inr (m, st) \<and> closes m (sanitize j)))"

lemma readsE:
  assumes "reads j" and "json_depth j + length st \<le> maxNestingDepth"
  obtains m where "scan_run (print_json j) (BeginValue, st) = Inr (m, st)" "closes m (sanitize j)"
  using assms by (auto simp: reads_def)

lemma reads_number: "is_number lit \<Longrightarrow> reads (JNum lit)"
  unfolding reads_def
proof (intro allI impI)
  fix st :: "frame list"
  assume "is_number lit"
  then obtain c cs n n' where lit: "lit = c # cs" and n: "num_start c = Some n"
    and n': "num_run cs n = Some n'" "num_final n'"
    by (auto simp: is_number_def split: list.splits option.splits)
  then have "scan_run lit (BeginValue, st) = Inr (InNumber n' lit, st)"
    using num_start_plain [OF n] by (simp add: begin_value_def scan_num_run)
  with n'(2) show "\<exists>m. scan_run (print_json (JNum lit)) (BeginValue, st) = Inr (m, st) \<and>
      closes m (sanitize (JNum lit))"
    by (simp add: closes_InNumber)
qed

lemma print_json_first:
  assumes "numbers_ok j"
  shows "\<exists>c cs. print_json j = c # cs \<and> c \<noteq> CHR '']'' \<and> \<not> is_space c"
proof (cases j)
  case (JNum lit)
  with assms show ?thesis
    using num_start_plain by (fastforce simp: is_number_def split: list.splits option.splits)
qed (simp_all add: quote_def is_space_def)

lemma scan_run_first_elem:
  "numbers_ok j \<Longrightarrow>
    scan_run (print_json j @ cs) (BeginValueOrEmpty, st) = scan_run (print_json j @ cs) (BeginValue, st)"
  using print_json_first [of j] by (auto split: prod.splits bool.splits)

lemma Join_Cons: "Join (w # ws) sep = w @ (if ws = [] then [] else sep @ Join ws sep)"
  by (cases ws) simp_all

lemma scan_array_rest:
  assumes "\<forall>v\<in>set vs. reads v \<and> json_depth v + Suc (length st) \<le> maxNestingDepth" and "vs \<noteq> []"
  shows "scan_run (Join (map print_json vs) '','' @ '']'') (BeginValue, FArr acc # st) =
    Inr (EndValue (JArr (acc @ map sanitize vs)), st)"
  using assms
proof (induction vs arbitrary: acc)
  case (Cons v vs)
  then have "reads v" "json_depth v + length (FArr acc # st) \<le> maxNestingDepth" by auto
  then obtain m where m: "scan_run (print_json v) (BeginValue, FArr acc # st) = Inr (m, FArr acc # st)"
    "closes m (sanitize v)"
    by (rule readsE)
  show ?case
  proof (cases "vs = []")
    case True
    with m show ?thesis by (simp add: scan_run_append closes_def is_space_def)
  next
    case False
    with Cons have IH: "scan_run (Join (map print_json vs) '','' @ '']'') (BeginValue, FArr (acc @ [sanitize v]) # st) =
      Inr (EndValue (JArr ((acc @ [sanitize v]) @ map sanitize vs)), st)" by simp
    have "scan_run (Join (map print_json (v # vs)) '','' @ '']'') (BeginValue, FArr acc # st) =
      scan_run (CHR '','' # Join (map print_json vs) '','' @ '']'') (m, FArr acc # st)"
      using False m by (simp add: Join_Cons scan_run_append [of "print_json v"])
    also have "\<dots> = scan_run (Join (map print_json vs) '','' @ '']'') (BeginValue, FArr (acc @ [sanitize v]) # st)"
      using m(2) by (simp add: closes_def is_space_def)
    finally show ?thesis using IH by simp
  qed
qed simp

definition print_member :: "string \<times> json \<Rightarrow> string" where
  "print_member kv = quote (fst kv) @ '':'' @ print_json (snd kv)"

lemma scan_member:
  assumes "reads v" and "json_depth v + Suc (length st) \<le> maxNestingDepth"
    and "scan_step dquote (m0, FObjKey acc # st) = Inr (InString [], FObjKey acc # st)"
  shows "\<exists>m. scan_run (print_member (k, v)) (m0, FObjKey acc # st) =
      Inr (m, FObjVal acc (to_valid k) # st) \<and> closes m (sanitize v)"
proof -
  obtain m where "scan_run (print_json v) (BeginValue, FObjVal acc (to_valid k) # st) =
      Inr (m, FObjVal acc (to_valid k) # st)" "closes m (sanitize v)"
    using readsE [OF assms(1), of "FObjVal acc (to_valid k) # st"] assms(2) by auto
  then show ?thesis
    by (simp add: print_member_def scan_run_append scan_quote [OF assms(3)] is_space_def)
qed

lemma scan_object_rest:
  assumes "\<forall>kv\<in>set kvs. reads (snd kv) \<and> json_depth (snd kv) + Suc (length st) \<le> maxNestingDepth"
    and "kvs \<noteq> []"
    and "scan_step dquote (m0, FObjKey acc # st) = Inr (InString [], FObjKey acc # st)"
  shows "scan_run (Join (map print_member kvs) '','' @ ''}'') (m0, FObjKey acc # st) =
    Inr (EndValue (JObj (acc @ map (\<lambda>kv. (to_valid (fst kv), sanitize (snd kv))) kvs)), st)"
  using assms
proof (induction kvs arbitrary: m0 acc)
  case (Cons kv kvs)
  obtain k v where kv: "kv = (k, v)" by (cases kv)
  with Cons.prems obtain m where m:
    "scan_run (print_member kv) (m0, FObjKey acc # st) = Inr (m, FObjVal acc (to_valid k) # st)"
    "closes m (sanitize v)"
    using scan_member [of v st m0 acc k] by auto
  show ?case
  proof (cases "kvs = []")
    case True
    with m kv show ?thesis by (simp add: scan_run_append closes_def is_space_def)
  next
    case False
    let ?acc = "acc @ [(to_valid k, sanitize v)]"
    have "scan_step dquote (BeginString, FObjKey ?acc # st) = Inr (InString [], FObjKey ?acc # st)"
      by (simp add: begin_string_def is_space_def)
    with Cons False have IH: "scan_run (Join (map print_member kvs) '','' @ ''}'') (BeginString, FObjKey ?acc # st) =
      Inr (EndValue (JObj (?acc @ map (\<lambda>kv. (to_valid (fst kv), sanitize (snd kv))) kvs)), st)" by simp
    have "scan_run (Join (map print_member (kv # kvs)) '','' @ ''}'') (m0, FObjKey acc # st) =
      scan_run (CHR '','' # Join (map print_member kvs) '','' @ ''}'') (m, FObjVal acc (to_valid k) # st)"
      using False m by (simp add: Join_Cons scan_run_append [of "print_member kv"])
    also have "\<dots> = scan_run (Join (map print_member kvs) '','' @ ''}'') (BeginString, FObjKey ?acc # st)"
      using m(2) by (simp add: closes_def is_space_def)
    finally show ?thesis using IH kv by simp
  qed
qed simp

lemma reads_all: "numbers_ok j \<Longrightarrow> reads j"
proof (induction j rule: numbers_ok.induct)
  case (1 lit)
  then show ?case by (simp add: reads_number)
next
  case (2 vs)
  have elems: "reads v" if "v \<in> set vs" for v
    using 2 that by (simp add: list_all_iff)
  show ?case unfolding reads_def
  proof (intro allI impI)
    fix st :: "frame list"
    assume d: "json_depth (JArr vs) + length st \<le> maxNestingDepth"
    have dv: "json_depth v + Suc (length st) \<le> maxNestingDepth" if "v \<in> set vs" for v
    proof -
      have "json_depth v \<le> Max (insert 0 (set (map json_depth vs)))" using that by simp
      with d show ?thesis by simp
    qed
    have run: "scan_run (print_json (JArr vs)) (BeginValue, st) =
        scan_run (Join (map print_json vs) '','' @ '']'') (BeginValueOrEmpty, FArr [] # st)"
      using d by (simp add: begin_value_def is_space_def push_frame_def)
    have "scan_run (print_json (JArr vs)) (BeginValue, st) = Inr (EndValue (sanitize (JArr vs)), st)"
    proof (cases vs)
      case Nil
      with run show ?thesis by (simp add: is_space_def)
    next
      case (Cons v ws)
      with 2 have "scan_run (Join (map print_json vs) '','' @ '']'') (BeginValueOrEmpty, FArr [] # st) =
          scan_run (Join (map print_json vs) '','' @ '']'') (BeginValue, FArr [] # st)"
        by (simp only: list.map Join_Cons append_assoc) (rule scan_run_first_elem, simp)
      with run Cons elems dv scan_array_rest [of vs st "[]"] show ?thesis by auto
    qed
    then show "\<exists>m. scan_run (print_json (JArr vs)) (BeginValue, st) = Inr (m, st) \<and>
        closes m (sanitize (JArr vs))"
      by simp
  qed
next
  case (3 kvs)
  have elems: "reads (snd kv)" if "kv \<in> set kvs" for kv
    using 3 that by (simp add: list_all_iff)
  show ?case unfolding reads_def
  proof (intro allI impI)
    fix st :: "frame list"
    assume d: "json_depth (JObj kvs) + length st \<le> maxNestingDepth"
    have dv: "json_depth (snd kv) + Suc (length st) \<le> maxNestingDepth" if "kv \<in> set kvs" for kv
    proof -
      have "json_depth (snd kv) \<le> Max (insert 0 (set (map (\<lambda>kv. json_depth (snd kv)) kvs)))"
        using that by simp
      with d show ?thesis by simp
    qed
    have run: "scan_run (print_json (JObj kvs)) (BeginValue, st) =
        scan_run (Join (map print_member kvs) '','' @ ''}'') (BeginStringOrEmpty, FObjKey [] # st)"
      using d by (simp add: begin_value_def is_space_def push_frame_def print_member_def [abs_def])
    have "scan_run (print_json (JObj kvs)) (BeginValue, st) = Inr (EndValue (sanitize (JObj kvs)), st)"
    proof (cases kvs)
      case Nil
      with run show ?thesis by (simp add: is_space_def)
    next
      case (Cons kv kvs')
      have "scan_step dquote (BeginStringOrEmpty, FObjKey [] # st) = Inr (InString [], FObjKey [] # st)"
        by (simp add: begin_string_def is_space_def)
      with run Cons elems dv scan_object_rest [of kvs st BeginStringOrEmpty "[]"] show ?thesis by auto
    qed
    then show "\<exists>m. scan_run (print_json (JObj kvs)) (BeginValue, st) = Inr (m, st) \<and>
        closes m (sanitize (JObj kvs))"
      by simp
  qed
qed (auto simp: reads_def begin_value_def is_space_def scan_quote [where m = BeginValue])

theorem parse_print:
  assumes "numbers_ok j" and "json_depth j \<le> maxNestingDepth"
  shows "parse_json (print_json j) = Inr (sanitize j)"
proof -
  from reads_all [OF assms(1)] assms(2) obtain m where
    "scan_run (print_json j) (BeginValue, []) = Inr (m, [])" "closes m (sanitize j)"
    using readsE [of j "[]"] by auto
  then show ?thesis by (simp add: parse_json_def scan_eof_def closes_def is_space_def)
qed

corollary parse_print_valid:
  "numbers_ok j \<Longrightarrow> json_depth j \<le> maxNestingDepth \<Longrightarrow> strings_valid j \<Longrightarrow>
    parse_json (print_json j) = Inr j"
  by (simp add: parse_print sanitize_id)

end
