(* ===== verification/Resources.thy ===== *)
theory Resources
  imports Prelude
begin

text \<open>
  \<^verbatim>\<open>resources.go\<close>: the route table, the request and response types of the Docker volume
  plugin protocol, and the TLS and driver specifications. Field names carry the name of
  their struct, since Isabelle's record selectors share one name space. A Go slice, map or
  pointer that may be \<open>nil\<close> is \<open>nilable\<close>; Go's \<open>int\<close> is a 64-bit word read as two's complement.
\<close>

section \<open>Routes\<close>

definition ActivateRoute :: string where "ActivateRoute = ''activate''"
definition CreateRoute :: string where "CreateRoute = ''create''"
definition GetRoute :: string where "GetRoute = ''get''"
definition ListRoute :: string where "ListRoute = ''list''"
definition MountRoute :: string where "MountRoute = ''mount''"
definition PathRoute :: string where "PathRoute = ''path''"
definition RemoveRoute :: string where "RemoveRoute = ''remove''"
definition UnmountRoute :: string where "UnmountRoute = ''unmount''"
definition CapabilitiesRoute :: string where "CapabilitiesRoute = ''capabilities''"

lemmas route_name_defs = ActivateRoute_def CreateRoute_def GetRoute_def ListRoute_def
  MountRoute_def PathRoute_def RemoveRoute_def UnmountRoute_def CapabilitiesRoute_def

text \<open>\<open>rata.Route\<close> (vendored \<^verbatim>\<open>github.com/tedsuo/rata/routes.go\<close>).\<close>

record Route =
  Route_Name :: string
  Route_Method :: string
  Route_Path :: string

definition post_route :: "string \<Rightarrow> string \<Rightarrow> Route" where
  "post_route path name = \<lparr>Route_Name = name, Route_Method = ''POST'', Route_Path = path\<rparr>"

definition Routes :: "Route list" where
  "Routes =
     [post_route ''/Plugin.Activate'' ActivateRoute,
      post_route ''/VolumeDriver.Create'' CreateRoute,
      post_route ''/VolumeDriver.Get'' GetRoute,
      post_route ''/VolumeDriver.List'' ListRoute,
      post_route ''/VolumeDriver.Mount'' MountRoute,
      post_route ''/VolumeDriver.Path'' PathRoute,
      post_route ''/VolumeDriver.Remove'' RemoveRoute,
      post_route ''/VolumeDriver.Unmount'' UnmountRoute,
      post_route ''/VolumeDriver.Capabilities'' CapabilitiesRoute]"

section \<open>Go values of type \<open>interface{}\<close>\<close>

text \<open>
  The values of \<open>CreateRequest.Opts\<close>. A \<open>float64\<close> is of the type parameter \<open>'f\<close>: the code only
  passes it between \<open>encoding/json\<close> and the driver. A map is given by its entries in key
  order, the order in which \<open>json.Marshal\<close> writes them. \<open>VUnsupported\<close> stands for a value of a
  type that JSON cannot carry (a channel, a function), by the name of its type.
\<close>

type_synonym 'v gomap = "(string \<times> 'v) list"

datatype 'f goval =
    VNil
  | VBool bool
  | VFloat 'f
  | VString string
  | VSlice "'f goval list"
  | VMap "(string \<times> 'f goval) list"
  | VUnsupported string

fun map_put :: "string \<Rightarrow> 'v \<Rightarrow> 'v gomap \<Rightarrow> 'v gomap" where
  "map_put k v [] = [(k, v)]"
| "map_put k v ((k', v') # m) =
     (if k = k' then (k, v) # m
      else if k < k' then (k, v) # (k', v') # m
      else (k', v') # map_put k v m)"

definition is_gomap :: "'v gomap \<Rightarrow> bool" where
  "is_gomap m \<longleftrightarrow> sorted_wrt (<) (map fst m)"

lemma map_put_keys: "set (map fst (map_put k v m)) = insert k (set (map fst m))"
  by (induction k v m rule: map_put.induct) auto

lemma map_put_is_gomap: "is_gomap m \<Longrightarrow> is_gomap (map_put k v m)"
proof (induction k v m rule: map_put.induct)
  case (2 k v k' v' m)
  then show ?case
    using map_put_keys [of k v m] by (auto simp: is_gomap_def)
qed (simp add: is_gomap_def)

lemma map_of_map_put: "is_gomap m \<Longrightarrow> map_of (map_put k v m) = (map_of m)(k \<mapsto> v)"
proof (induction k v m rule: map_put.induct)
  case (2 k v k' v' m)
  then show ?case by (auto simp: is_gomap_def fun_upd_twist)
qed simp

lemma map_put_last: "(\<And>k'. k' \<in> set (map fst m) \<Longrightarrow> k' < k) \<Longrightarrow> map_put k v m = m @ [(k, v)]"
proof (induction m)
  case (Cons a m)
  obtain k' v' where a: "a = (k', v')" by (cases a)
  with Cons.prems have "k' < k" by simp
  then have "k \<noteq> k'" "\<not> k < k'" by auto
  then show ?case using Cons a by simp
qed simp

text \<open>Storing the entries of a map one by one rebuilds it.\<close>

lemma foldl_map_put_append:
  assumes "is_gomap (m @ n)"
  shows "foldl (\<lambda>m kv. map_put (fst kv) (snd kv) m) m n = m @ n"
  using assms
proof (induction n arbitrary: m)
  case (Cons a n)
  obtain k v where a: "a = (k, v)" by (cases a)
  have "map_put k v m = m @ [(k, v)]"
    using Cons.prems a by (intro map_put_last) (auto simp: is_gomap_def sorted_wrt_append)
  with Cons a show ?case by simp
qed simp

section \<open>Requests and responses\<close>

record ActivateResponse =
  ActivateResponse_Err :: string
  ActivateResponse_Implements :: "string list nilable"

record 'f CreateRequest =
  CreateRequest_Name :: string
  CreateRequest_Opts :: "'f goval gomap nilable"

record MountRequest =
  MountRequest_Name :: string

record MountResponse =
  MountResponse_Err :: string
  MountResponse_Mountpoint :: string

record VolumeInfo =
  VolumeInfo_Name :: string
  VolumeInfo_Mountpoint :: string
  VolumeInfo_MountCount :: "64 word"

record ListResponse =
  ListResponse_Volumes :: "VolumeInfo list nilable"
  ListResponse_Err :: string

record PathRequest =
  PathRequest_Name :: string

record PathResponse =
  PathResponse_Err :: string
  PathResponse_Mountpoint :: string

record UnmountRequest =
  UnmountRequest_Name :: string

record RemoveRequest =
  RemoveRequest_Name :: string

record ErrorResponse =
  ErrorResponse_Err :: string

record GetRequest =
  GetRequest_Name :: string

record GetResponse =
  GetResponse_Volume :: VolumeInfo
  GetResponse_Err :: string

record CapabilityInfo =
  CapabilityInfo_Scope :: string

record CapabilitiesResponse =
  CapabilitiesResponse_Capabilities :: CapabilityInfo

record SafeError =
  SafeDescription :: string

definition SafeError_Error :: "SafeError \<Rightarrow> string" where
  "SafeError_Error s = SafeDescription s"

record TLSConfig =
  InsecureSkipVerify :: bool
  CAFile :: string
  CertFile :: string
  KeyFile :: string

record DriverSpec =
  DriverSpec_Name :: string
  DriverSpec_Address :: string
  DriverSpec_TLSConfig :: "TLSConfig nilable"
  DriverSpec_UniqueVolumeIds :: bool

text \<open>The zero values Go gives a variable of each type.\<close>

definition zero_ActivateResponse :: ActivateResponse where
  "zero_ActivateResponse = \<lparr>ActivateResponse_Err = '''', ActivateResponse_Implements = None\<rparr>"

definition zero_CreateRequest :: "'f CreateRequest" where
  "zero_CreateRequest = \<lparr>CreateRequest_Name = '''', CreateRequest_Opts = None\<rparr>"

definition zero_MountRequest :: MountRequest where
  "zero_MountRequest = \<lparr>MountRequest_Name = ''''\<rparr>"

definition zero_MountResponse :: MountResponse where
  "zero_MountResponse = \<lparr>MountResponse_Err = '''', MountResponse_Mountpoint = ''''\<rparr>"

definition zero_VolumeInfo :: VolumeInfo where
  "zero_VolumeInfo = \<lparr>VolumeInfo_Name = '''', VolumeInfo_Mountpoint = '''', VolumeInfo_MountCount = 0\<rparr>"

definition zero_ListResponse :: ListResponse where
  "zero_ListResponse = \<lparr>ListResponse_Volumes = None, ListResponse_Err = ''''\<rparr>"

definition zero_PathRequest :: PathRequest where
  "zero_PathRequest = \<lparr>PathRequest_Name = ''''\<rparr>"

definition zero_PathResponse :: PathResponse where
  "zero_PathResponse = \<lparr>PathResponse_Err = '''', PathResponse_Mountpoint = ''''\<rparr>"

definition zero_UnmountRequest :: UnmountRequest where
  "zero_UnmountRequest = \<lparr>UnmountRequest_Name = ''''\<rparr>"

definition zero_RemoveRequest :: RemoveRequest where
  "zero_RemoveRequest = \<lparr>RemoveRequest_Name = ''''\<rparr>"

definition zero_ErrorResponse :: ErrorResponse where
  "zero_ErrorResponse = \<lparr>ErrorResponse_Err = ''''\<rparr>"

definition zero_GetRequest :: GetRequest where
  "zero_GetRequest = \<lparr>GetRequest_Name = ''''\<rparr>"

definition zero_GetResponse :: GetResponse where
  "zero_GetResponse = \<lparr>GetResponse_Volume = zero_VolumeInfo, GetResponse_Err = ''''\<rparr>"

definition zero_CapabilitiesResponse :: CapabilitiesResponse where
  "zero_CapabilitiesResponse = \<lparr>CapabilitiesResponse_Capabilities = \<lparr>CapabilityInfo_Scope = ''''\<rparr>\<rparr>"

definition zero_TLSConfig :: TLSConfig where
  "zero_TLSConfig = \<lparr>InsecureSkipVerify = False, CAFile = '''', CertFile = '''', KeyFile = ''''\<rparr>"

definition zero_DriverSpec :: DriverSpec where
  "zero_DriverSpec = \<lparr>DriverSpec_Name = '''', DriverSpec_Address = '''',
     DriverSpec_TLSConfig = None, DriverSpec_UniqueVolumeIds = False\<rparr>"

lemmas zero_defs = zero_ActivateResponse_def zero_CreateRequest_def zero_MountRequest_def
  zero_MountResponse_def zero_VolumeInfo_def zero_ListResponse_def zero_PathRequest_def
  zero_PathResponse_def zero_UnmountRequest_def zero_RemoveRequest_def zero_ErrorResponse_def
  zero_GetRequest_def zero_GetResponse_def zero_CapabilitiesResponse_def zero_TLSConfig_def
  zero_DriverSpec_def

end
