(* ===== verification/Go_Json.thy ===== *)
theory Go_Json
  imports Json_Roundtrip Resources
begin

text \<open>
  How \<open>encoding/json\<close> (Go 1.25) maps Go values to JSON trees and back: the field lookup by
  folded name, decoding into an existing value, the rule that \<^verbatim>\<open>null\<close> leaves a non-nilable
  value alone, and the text of a type error. A decoder takes the error context (the struct
  and the path of the field being filled), the tree and the value it decodes into. The
  library records the first type mismatch and reports it at the end; the code never reads
  the value after an error, so a decoder stops there.
\<close>

section \<open>Decimal integers\<close>

definition digit_char :: "nat \<Rightarrow> char" where
  "digit_char d = char_of (0x30 + d mod 10)"

text \<open>\<open>strconv.Itoa\<close>.\<close>

fun nat_dec :: "nat \<Rightarrow> string" where
  "nat_dec n = (if n < 10 then [digit_char n] else nat_dec (n div 10) @ [digit_char n])"

declare nat_dec.simps [simp del]

definition itoa :: "int \<Rightarrow> string" where
  "itoa i = (if i < 0 then CHR ''-'' # nat_dec (nat (- i)) else nat_dec (nat i))"

text \<open>\<open>strconv.ParseInt(s, 10, 64)\<close> on a JSON number literal: \<open>None\<close> when it has a fraction or
  an exponent or does not fit in 64 bits.\<close>

fun dec_value :: "string \<Rightarrow> nat \<Rightarrow> nat option" where
  "dec_value [] acc = Some acc"
| "dec_value (c # cs) acc =
     (if is_digit c then dec_value cs (10 * acc + (byte c - 0x30)) else None)"

definition parse_int64 :: "string \<Rightarrow> int option" where
  "parse_int64 s =
     (let (neg, ds) = (case s of [] \<Rightarrow> (False, []) | c # cs \<Rightarrow> if c = CHR ''-'' then (True, cs) else (False, s))
      in if ds = [] then None
         else case dec_value ds 0 of
           None \<Rightarrow> None
         | Some n \<Rightarrow>
             let i = (if neg then - int n else int n) in
             if - (2 ^ 63) \<le> i \<and> i < 2 ^ 63 then Some i else None)"

lemma byte_digit_char: "byte (digit_char d) = 0x30 + d mod 10"
proof -
  have "0x30 + d mod 10 < (256::nat)" using mod_less_divisor [of 10 d] by linarith
  then show ?thesis by (simp add: digit_char_def of_char_of)
qed

lemma is_digit_digit_char [simp]: "is_digit (digit_char d)"
proof -
  have "d mod 10 \<le> 9" using mod_less_divisor [of 10 d] by linarith
  then show ?thesis by (simp add: is_digit_def byte_digit_char)
qed

lemma dec_value_append:
  "dec_value (xs @ ys) acc = (case dec_value xs acc of None \<Rightarrow> None | Some a \<Rightarrow> dec_value ys a)"
  by (induction xs arbitrary: acc) auto

lemma dec_value_nat_dec: "dec_value (nat_dec n) 0 = Some n"
proof (induction n rule: nat_dec.induct)
  case (1 n)
  show ?case
  proof (cases "n < 10")
    case True
    then show ?thesis by (subst nat_dec.simps) (simp add: byte_digit_char)
  next
    case False
    with 1 show ?thesis by (subst nat_dec.simps) (simp add: dec_value_append byte_digit_char)
  qed
qed

lemma nat_dec_digits: "list_all is_digit (nat_dec n)"
proof (induction n rule: nat_dec.induct)
  case (1 n)
  then show ?case by (subst nat_dec.simps) simp
qed

lemma nat_dec_first:
  "\<exists>c cs. nat_dec n = c # cs \<and> is_digit c \<and> (n = 0 \<longrightarrow> nat_dec n = ''0'') \<and> (n \<noteq> 0 \<longrightarrow> is_digit19 c)"
proof (induction n rule: nat_dec.induct)
  case (1 n)
  show ?case
  proof (cases "n < 10")
    case True
    moreover have "digit_char 0 = CHR ''0''" by (simp add: digit_char_def char_of_def bit_iff_odd)
    ultimately show ?thesis
      by (subst (1 2) nat_dec.simps) (auto simp: is_digit19_def byte_digit_char)
  next
    case False
    with 1 obtain c cs where "nat_dec (n div 10) = c # cs" "is_digit c" "is_digit19 c" by auto
    with False show ?thesis by (subst (1 2) nat_dec.simps) auto
  qed
qed

lemma num_run_digits: "list_all is_digit cs \<Longrightarrow> num_run cs Digits = Some Digits"
  by (induction cs) auto

lemma is_number_nat_dec: "num_start c = Some Neg \<Longrightarrow> is_number (nat_dec n) \<and> is_number (c # nat_dec n)"
proof -
  assume neg: "num_start c = Some Neg"
  obtain d ds where d: "nat_dec n = d # ds" "is_digit d" "n = 0 \<longrightarrow> nat_dec n = ''0''" "n \<noteq> 0 \<longrightarrow> is_digit19 d"
    using nat_dec_first by blast
  show ?thesis
  proof (cases "n = 0")
    case True
    with d neg show ?thesis by (simp add: is_number_def num_start_def)
  next
    case False
    with d have d19: "is_digit19 d" by simp
    moreover from d19 have "d \<noteq> CHR ''-''" "d \<noteq> CHR ''0''" by (auto simp: is_digit19_def)
    moreover have "num_run ds Digits = Some Digits"
      using nat_dec_digits [of n] d(1) by (simp add: num_run_digits)
    ultimately show ?thesis using d(1) neg by (simp add: is_number_def num_start_def)
  qed
qed

lemma is_number_itoa: "is_number (itoa i)"
  using is_number_nat_dec [of "CHR ''-''"] by (simp add: itoa_def num_start_def)

lemma parse_int64_itoa: "- (2 ^ 63) \<le> i \<Longrightarrow> i < 2 ^ 63 \<Longrightarrow> parse_int64 (itoa i) = Some i"
proof -
  assume b: "- (2 ^ 63) \<le> i" "i < 2 ^ 63"
  obtain d ds where d: "nat_dec (nat \<bar>i\<bar>) = d # ds" "is_digit d"
    using nat_dec_first by blast
  then have "d \<noteq> CHR ''-''" by (auto simp: is_digit_def)
  moreover have v: "dec_value (d # ds) 0 = Some (nat \<bar>i\<bar>)"
    using dec_value_nat_dec [of "nat \<bar>i\<bar>"] d(1) by simp
  ultimately show ?thesis using b d(1)
    by (cases "i < 0") (auto simp: parse_int64_def itoa_def abs_if simp del: dec_value.simps)
qed

section \<open>Field names\<close>

text \<open>\<open>foldName\<close>: ASCII letters in upper case; the two other code points whose simple case
  folding meets ASCII, U+017F and U+212A, become S and K. Any other code point folds outside
  ASCII and so to no field name of the protocol.\<close>

definition to_upper :: "char \<Rightarrow> char" where
  "to_upper c = (if 0x61 \<le> byte c \<and> byte c \<le> 0x7A then char_of (byte c - 0x20) else c)"

fun fold_name :: "string \<Rightarrow> string" where
  "fold_name [] = []"
| "fold_name (c # cs) =
     (if c = CHR 0xC5 \<and> take 1 cs = [CHR 0xBF] then CHR ''S'' # fold_name (drop 1 cs)
      else if c = CHR 0xE2 \<and> take 2 cs = [CHR 0x84, CHR 0xAA] then CHR ''K'' # fold_name (drop 2 cs)
      else to_upper c # fold_name cs)"

section \<open>Decoding\<close>

text \<open>The struct being filled and the path of field names; both empty at the top.\<close>

type_synonym err_ctx = "string \<times> string list"

type_synonym 'a decoder = "err_ctx \<Rightarrow> json \<Rightarrow> 'a \<Rightarrow> go_error + 'a"

definition top_ctx :: err_ctx where
  "top_ctx = ('''', [])"

fun json_kind :: "json \<Rightarrow> string" where
  "json_kind JNull = ''null''"
| "json_kind (JBool _) = ''bool''"
| "json_kind (JNum _) = ''number''"
| "json_kind (JStr _) = ''string''"
| "json_kind (JArr _) = ''array''"
| "json_kind (JObj _) = ''object''"

text \<open>\<open>UnmarshalTypeError.Error()\<close>.\<close>

definition type_error :: "string \<Rightarrow> err_ctx \<Rightarrow> string \<Rightarrow> go_error + 'a" where
  "type_error what ctx typ =
     Inl (GoError (''json: cannot unmarshal '' @ what @
       (if ctx = top_ctx then '' into Go value''
        else '' into Go struct field '' @ fst ctx @ ''.'' @ Join (snd ctx) ''.'') @
       '' of type '' @ typ))"

fun dec_string :: "string decoder" where
  "dec_string ctx (JStr s) old = Inr s"
| "dec_string ctx JNull old = Inr old"
| "dec_string ctx j old = type_error (json_kind j) ctx ''string''"

fun dec_bool :: "bool decoder" where
  "dec_bool ctx (JBool b) old = Inr b"
| "dec_bool ctx JNull old = Inr old"
| "dec_bool ctx j old = type_error (json_kind j) ctx ''bool''"

fun dec_int :: "64 word decoder" where
  "dec_int ctx (JNum lit) old =
     (case parse_int64 lit of
        Some i \<Rightarrow> Inr (word_of_int i)
      | None \<Rightarrow> type_error (''number '' @ lit) ctx ''int'')"
| "dec_int ctx JNull old = Inr old"
| "dec_int ctx j old = type_error (json_kind j) ctx ''int''"

text \<open>Array elements are decoded over those the slice already has.\<close>

fun dec_elems :: "'a decoder \<Rightarrow> 'a \<Rightarrow> err_ctx \<Rightarrow> json list \<Rightarrow> 'a list \<Rightarrow> go_error + 'a list" where
  "dec_elems dec zero ctx [] olds = Inr []"
| "dec_elems dec zero ctx (v # vs) olds =
     bind_ok (dec ctx v (case olds of [] \<Rightarrow> zero | old # _ \<Rightarrow> old))
       (\<lambda>y. bind_ok (dec_elems dec zero ctx vs (drop 1 olds)) (\<lambda>ys. Inr (y # ys)))"

definition dec_slice :: "'a decoder \<Rightarrow> 'a \<Rightarrow> string \<Rightarrow> 'a list nilable decoder" where
  "dec_slice dec zero typ ctx j old =
     (case j of
        JNull \<Rightarrow> Inr None
      | JArr vs \<Rightarrow>
          bind_ok (dec_elems dec zero ctx vs (case old of None \<Rightarrow> [] | Some xs \<Rightarrow> xs)) (\<lambda>ys. Inr (Some ys))
      | _ \<Rightarrow> type_error (json_kind j) ctx typ)"

definition dec_pointer :: "'a decoder \<Rightarrow> 'a \<Rightarrow> 'a nilable decoder" where
  "dec_pointer dec zero ctx j old =
     (case j of
        JNull \<Rightarrow> Inr None
      | _ \<Rightarrow> bind_ok (dec ctx j (case old of None \<Rightarrow> zero | Some x \<Rightarrow> x)) (\<lambda>y. Inr (Some y)))"

type_synonym 'a field = "string \<times> 'a decoder"

definition struct_field :: "string \<Rightarrow> ('a \<Rightarrow> 'b) \<Rightarrow> (('b \<Rightarrow> 'b) \<Rightarrow> 'a \<Rightarrow> 'a) \<Rightarrow> 'b decoder \<Rightarrow> 'a field" where
  "struct_field name sel upd dec =
     (name, \<lambda>ctx j x. bind_ok (dec ctx j (sel x)) (\<lambda>v. Inr (upd (\<lambda>_. v) x)))"

definition find_field :: "'a field list \<Rightarrow> string \<Rightarrow> 'a field option" where
  "find_field flds key = find (\<lambda>f. fold_name (fst f) = fold_name key) flds"

text \<open>A struct named \<open>sname\<close> of package \<open>pkg\<close>; unknown keys are ignored, later occurrences of a
  key overwrite earlier ones. The protocol's structs are those of package \<open>dockerdriver\<close>.\<close>

definition dec_struct_of :: "string \<Rightarrow> string \<Rightarrow> 'a field list \<Rightarrow> 'a decoder" where
  "dec_struct_of pkg sname flds ctx j x =
     (case j of
        JNull \<Rightarrow> Inr x
      | JObj kvs \<Rightarrow>
          foldM_ok (\<lambda>kv x. case find_field flds (fst kv) of
              None \<Rightarrow> Inr x
            | Some f \<Rightarrow> snd f (sname, snd ctx @ [fst f]) (snd kv) x) kvs x
      | _ \<Rightarrow> type_error (json_kind j) ctx (pkg @ ''.'' @ sname))"

abbreviation dec_struct :: "string \<Rightarrow> 'a field list \<Rightarrow> 'a decoder" where
  "dec_struct \<equiv> dec_struct_of ''dockerdriver''"

lemmas dec_struct_def = dec_struct_of_def

text \<open>Conversion between \<open>float64\<close> and decimal text (\<open>strconv.ParseFloat\<close>, and the shortest form
  \<open>json.Marshal\<close> writes, an error for NaN and the infinities) is a parameter: the code moves
  such numbers without computing with them.\<close>

record 'f strconv =
  ParseFloat :: "string \<Rightarrow> 'f option"
  FormatFloat :: "'f \<Rightarrow> go_error + string"

definition strconv_exact :: "'f strconv \<Rightarrow> bool" where
  "strconv_exact fl \<longleftrightarrow>
     (\<forall>x s. FormatFloat fl x = Inr s \<longrightarrow> is_number s \<and> ParseFloat fl s = Some x)"

text \<open>Decoding into a fresh \<open>interface{}\<close>: \<open>valueInterface\<close>.\<close>

fun goval_of_json :: "'f strconv \<Rightarrow> err_ctx \<Rightarrow> json \<Rightarrow> go_error + 'f goval" where
  "goval_of_json fl ctx JNull = Inr VNil"
| "goval_of_json fl ctx (JBool b) = Inr (VBool b)"
| "goval_of_json fl ctx (JNum lit) =
     (case ParseFloat fl lit of
        Some x \<Rightarrow> Inr (VFloat x)
      | None \<Rightarrow> type_error (''number '' @ lit) ctx ''float64'')"
| "goval_of_json fl ctx (JStr s) = Inr (VString s)"
| "goval_of_json fl ctx (JArr vs) = bind_ok (mapM_ok (goval_of_json fl ctx) vs) (\<lambda>xs. Inr (VSlice xs))"
| "goval_of_json fl ctx (JObj kvs) =
     bind_ok (mapM_ok (\<lambda>kv. bind_ok (goval_of_json fl ctx (snd kv)) (\<lambda>v. Inr (fst kv, v))) kvs)
       (\<lambda>es. Inr (VMap (foldl (\<lambda>m e. map_put (fst e) (snd e) m) [] es)))"

definition dec_opts :: "'f strconv \<Rightarrow> 'f goval gomap nilable decoder" where
  "dec_opts fl ctx j old =
     (case j of
        JNull \<Rightarrow> Inr None
      | JObj kvs \<Rightarrow>
          bind_ok (mapM_ok (\<lambda>kv. bind_ok (goval_of_json fl ctx (snd kv)) (\<lambda>v. Inr (fst kv, v))) kvs)
            (\<lambda>es. Inr (Some (foldl (\<lambda>m e. map_put (fst e) (snd e) m)
                (case old of None \<Rightarrow> [] | Some m \<Rightarrow> m) es)))
      | _ \<Rightarrow> type_error (json_kind j) ctx ''map[string]interface {}'')"

section \<open>Encoding\<close>

fun goval_json :: "'f strconv \<Rightarrow> 'f goval \<Rightarrow> go_error + json" where
  "goval_json fl VNil = Inr JNull"
| "goval_json fl (VBool b) = Inr (JBool b)"
| "goval_json fl (VFloat x) = bind_ok (FormatFloat fl x) (\<lambda>s. Inr (JNum s))"
| "goval_json fl (VString s) = Inr (JStr s)"
| "goval_json fl (VSlice xs) = bind_ok (mapM_ok (goval_json fl) xs) (\<lambda>js. Inr (JArr js))"
| "goval_json fl (VMap m) =
     bind_ok (mapM_ok (\<lambda>e. bind_ok (goval_json fl (snd e)) (\<lambda>j. Inr (fst e, j))) m)
       (\<lambda>kvs. Inr (JObj kvs))"
| "goval_json fl (VUnsupported t) = Inl (GoError (''json: unsupported type: '' @ t))"

definition nilable_json :: "('a \<Rightarrow> json) \<Rightarrow> 'a nilable \<Rightarrow> json" where
  "nilable_json enc x = (case x of None \<Rightarrow> JNull | Some y \<Rightarrow> enc y)"

definition Unmarshal :: "'a decoder \<Rightarrow> 'a \<Rightarrow> string \<Rightarrow> go_error + 'a" where
  "Unmarshal dec zero data = bind_ok (parse_json data) (\<lambda>j. dec top_ctx j zero)"

end
