(* ===== verification/Wire.thy ===== *)
theory Wire
  imports Go_Json
begin

text \<open>
  The JSON form of every type of \<^verbatim>\<open>resources.go\<close>, as \<open>json.Marshal\<close> and \<open>json.Unmarshal\<close>
  derive it from the struct declarations: the fields in their order under their Go names or
  \<open>json\<close> tags. Each type comes with the facts that make it a wire type: decoding an encoded
  message gives the message back, and every response that carries an error shows it to a
  reader that only looks for \<open>Err\<close>.
\<close>

section \<open>Folded field names\<close>

lemma to_upper_lower [simp]:
  "to_upper (CHR ''a'') = CHR ''A''"
  "to_upper (CHR ''b'') = CHR ''B''"
  "to_upper (CHR ''c'') = CHR ''C''"
  "to_upper (CHR ''d'') = CHR ''D''"
  "to_upper (CHR ''e'') = CHR ''E''"
  "to_upper (CHR ''f'') = CHR ''F''"
  "to_upper (CHR ''g'') = CHR ''G''"
  "to_upper (CHR ''h'') = CHR ''H''"
  "to_upper (CHR ''i'') = CHR ''I''"
  "to_upper (CHR ''j'') = CHR ''J''"
  "to_upper (CHR ''k'') = CHR ''K''"
  "to_upper (CHR ''l'') = CHR ''L''"
  "to_upper (CHR ''m'') = CHR ''M''"
  "to_upper (CHR ''n'') = CHR ''N''"
  "to_upper (CHR ''o'') = CHR ''O''"
  "to_upper (CHR ''p'') = CHR ''P''"
  "to_upper (CHR ''q'') = CHR ''Q''"
  "to_upper (CHR ''r'') = CHR ''R''"
  "to_upper (CHR ''s'') = CHR ''S''"
  "to_upper (CHR ''t'') = CHR ''T''"
  "to_upper (CHR ''u'') = CHR ''U''"
  "to_upper (CHR ''v'') = CHR ''V''"
  "to_upper (CHR ''w'') = CHR ''W''"
  "to_upper (CHR ''x'') = CHR ''X''"
  "to_upper (CHR ''y'') = CHR ''Y''"
  "to_upper (CHR ''z'') = CHR ''Z''"
  by (simp_all add: to_upper_def char_of_def bit_iff_odd)

lemma to_upper_other [simp]: "\<not> (0x61 \<le> byte c \<and> byte c \<le> 0x7A) \<Longrightarrow> to_upper c = c"
  by (auto simp: to_upper_def)

lemma fold_names [simp]:
  "fold_name ''Err'' = ''ERR''"
  "fold_name ''Implements'' = ''IMPLEMENTS''"
  "fold_name ''Name'' = ''NAME''"
  "fold_name ''Opts'' = ''OPTS''"
  "fold_name ''Mountpoint'' = ''MOUNTPOINT''"
  "fold_name ''MountCount'' = ''MOUNTCOUNT''"
  "fold_name ''Volumes'' = ''VOLUMES''"
  "fold_name ''Volume'' = ''VOLUME''"
  "fold_name ''Capabilities'' = ''CAPABILITIES''"
  "fold_name ''Scope'' = ''SCOPE''"
  "fold_name ''InsecureSkipVerify'' = ''INSECURESKIPVERIFY''"
  "fold_name ''CAFile'' = ''CAFILE''"
  "fold_name ''CertFile'' = ''CERTFILE''"
  "fold_name ''KeyFile'' = ''KEYFILE''"
  "fold_name ''Addr'' = ''ADDR''"
  "fold_name ''TLSConfig'' = ''TLSCONFIG''"
  "fold_name ''UniqueVolumeIds'' = ''UNIQUEVOLUMEIDS''"
  by simp_all

lemmas fold_name.simps [simp del]

lemma find_field_Nil [simp]: "find_field [] key = None"
  by (simp add: find_field_def)

lemma find_field_Cons [simp]:
  "find_field (f # fs) key = (if fold_name (fst f) = fold_name key then Some f else find_field fs key)"
  by (simp add: find_field_def)

lemma fst_struct_field [simp]: "fst (struct_field name sel upd dec) = name"
  by (simp add: struct_field_def)

lemma snd_struct_field [simp]:
  "snd (struct_field name sel upd dec) ctx j x = bind_ok (dec ctx j (sel x)) (\<lambda>v. Inr (upd (\<lambda>_. v) x))"
  by (simp add: struct_field_def)

section \<open>Encoders and decoders\<close>

definition VolumeInfo_json :: "VolumeInfo \<Rightarrow> json" where
  "VolumeInfo_json x =
     JObj [(''Name'', JStr (VolumeInfo_Name x)),
           (''Mountpoint'', JStr (VolumeInfo_Mountpoint x)),
           (''MountCount'', JNum (itoa (sint (VolumeInfo_MountCount x))))]"

definition dec_VolumeInfo :: "VolumeInfo decoder" where
  "dec_VolumeInfo =
     dec_struct ''VolumeInfo''
       [struct_field ''Name'' VolumeInfo_Name VolumeInfo_Name_update dec_string,
        struct_field ''Mountpoint'' VolumeInfo_Mountpoint VolumeInfo_Mountpoint_update dec_string,
        struct_field ''MountCount'' VolumeInfo_MountCount VolumeInfo_MountCount_update dec_int]"

definition ActivateResponse_json :: "ActivateResponse \<Rightarrow> json" where
  "ActivateResponse_json x =
     JObj [(''Err'', JStr (ActivateResponse_Err x)),
           (''Implements'', nilable_json (\<lambda>ss. JArr (map JStr ss)) (ActivateResponse_Implements x))]"

definition dec_ActivateResponse :: "ActivateResponse decoder" where
  "dec_ActivateResponse =
     dec_struct ''ActivateResponse''
       [struct_field ''Err'' ActivateResponse_Err ActivateResponse_Err_update dec_string,
        struct_field ''Implements'' ActivateResponse_Implements ActivateResponse_Implements_update (dec_slice dec_string '''' ''[]string'')]"

definition MountRequest_json :: "MountRequest \<Rightarrow> json" where
  "MountRequest_json x =
     JObj [(''Name'', JStr (MountRequest_Name x))]"

definition dec_MountRequest :: "MountRequest decoder" where
  "dec_MountRequest =
     dec_struct ''MountRequest''
       [struct_field ''Name'' MountRequest_Name MountRequest_Name_update dec_string]"

definition PathRequest_json :: "PathRequest \<Rightarrow> json" where
  "PathRequest_json x =
     JObj [(''Name'', JStr (PathRequest_Name x))]"

definition dec_PathRequest :: "PathRequest decoder" where
  "dec_PathRequest =
     dec_struct ''PathRequest''
       [struct_field ''Name'' PathRequest_Name PathRequest_Name_update dec_string]"

definition UnmountRequest_json :: "UnmountRequest \<Rightarrow> json" where
  "UnmountRequest_json x =
     JObj [(''Name'', JStr (UnmountRequest_Name x))]"

definition dec_UnmountRequest :: "UnmountRequest decoder" where
  "dec_UnmountRequest =
     dec_struct ''UnmountRequest''
       [struct_field ''Name'' UnmountRequest_Name UnmountRequest_Name_update dec_string]"

definition RemoveRequest_json :: "RemoveRequest \<Rightarrow> json" where
  "RemoveRequest_json x =
     JObj [(''Name'', JStr (RemoveRequest_Name x))]"

definition dec_RemoveRequest :: "RemoveRequest decoder" where
  "dec_RemoveRequest =
     dec_struct ''RemoveRequest''
       [struct_field ''Name'' RemoveRequest_Name RemoveRequest_Name_update dec_string]"

definition GetRequest_json :: "GetRequest \<Rightarrow> json" where
  "GetRequest_json x =
     JObj [(''Name'', JStr (GetRequest_Name x))]"

definition dec_GetRequest :: "GetRequest decoder" where
  "dec_GetRequest =
     dec_struct ''GetRequest''
       [struct_field ''Name'' GetRequest_Name GetRequest_Name_update dec_string]"

definition MountResponse_json :: "MountResponse \<Rightarrow> json" where
  "MountResponse_json x =
     JObj [(''Err'', JStr (MountResponse_Err x)),
           (''Mountpoint'', JStr (MountResponse_Mountpoint x))]"

definition dec_MountResponse :: "MountResponse decoder" where
  "dec_MountResponse =
     dec_struct ''MountResponse''
       [struct_field ''Err'' MountResponse_Err MountResponse_Err_update dec_string,
        struct_field ''Mountpoint'' MountResponse_Mountpoint MountResponse_Mountpoint_update dec_string]"

definition PathResponse_json :: "PathResponse \<Rightarrow> json" where
  "PathResponse_json x =
     JObj [(''Err'', JStr (PathResponse_Err x)),
           (''Mountpoint'', JStr (PathResponse_Mountpoint x))]"

definition dec_PathResponse :: "PathResponse decoder" where
  "dec_PathResponse =
     dec_struct ''PathResponse''
       [struct_field ''Err'' PathResponse_Err PathResponse_Err_update dec_string,
        struct_field ''Mountpoint'' PathResponse_Mountpoint PathResponse_Mountpoint_update dec_string]"

definition ListResponse_json :: "ListResponse \<Rightarrow> json" where
  "ListResponse_json x =
     JObj [(''Volumes'', nilable_json (\<lambda>vs. JArr (map VolumeInfo_json vs)) (ListResponse_Volumes x)),
           (''Err'', JStr (ListResponse_Err x))]"

definition dec_ListResponse :: "ListResponse decoder" where
  "dec_ListResponse =
     dec_struct ''ListResponse''
       [struct_field ''Volumes'' ListResponse_Volumes ListResponse_Volumes_update (dec_slice dec_VolumeInfo zero_VolumeInfo ''[]dockerdriver.VolumeInfo''),
        struct_field ''Err'' ListResponse_Err ListResponse_Err_update dec_string]"

definition ErrorResponse_json :: "ErrorResponse \<Rightarrow> json" where
  "ErrorResponse_json x =
     JObj [(''Err'', JStr (ErrorResponse_Err x))]"

definition dec_ErrorResponse :: "ErrorResponse decoder" where
  "dec_ErrorResponse =
     dec_struct ''ErrorResponse''
       [struct_field ''Err'' ErrorResponse_Err ErrorResponse_Err_update dec_string]"

definition GetResponse_json :: "GetResponse \<Rightarrow> json" where
  "GetResponse_json x =
     JObj [(''Volume'', VolumeInfo_json (GetResponse_Volume x)),
           (''Err'', JStr (GetResponse_Err x))]"

definition dec_GetResponse :: "GetResponse decoder" where
  "dec_GetResponse =
     dec_struct ''GetResponse''
       [struct_field ''Volume'' GetResponse_Volume GetResponse_Volume_update dec_VolumeInfo,
        struct_field ''Err'' GetResponse_Err GetResponse_Err_update dec_string]"

definition CapabilityInfo_json :: "CapabilityInfo \<Rightarrow> json" where
  "CapabilityInfo_json x =
     JObj [(''Scope'', JStr (CapabilityInfo_Scope x))]"

definition dec_CapabilityInfo :: "CapabilityInfo decoder" where
  "dec_CapabilityInfo =
     dec_struct ''CapabilityInfo''
       [struct_field ''Scope'' CapabilityInfo_Scope CapabilityInfo_Scope_update dec_string]"

definition CapabilitiesResponse_json :: "CapabilitiesResponse \<Rightarrow> json" where
  "CapabilitiesResponse_json x =
     JObj [(''Capabilities'', CapabilityInfo_json (CapabilitiesResponse_Capabilities x))]"

definition dec_CapabilitiesResponse :: "CapabilitiesResponse decoder" where
  "dec_CapabilitiesResponse =
     dec_struct ''CapabilitiesResponse''
       [struct_field ''Capabilities'' CapabilitiesResponse_Capabilities CapabilitiesResponse_Capabilities_update dec_CapabilityInfo]"

definition TLSConfig_json :: "TLSConfig \<Rightarrow> json" where
  "TLSConfig_json x =
     JObj [(''InsecureSkipVerify'', JBool (InsecureSkipVerify x)),
           (''CAFile'', JStr (CAFile x)),
           (''CertFile'', JStr (CertFile x)),
           (''KeyFile'', JStr (KeyFile x))]"

definition dec_TLSConfig :: "TLSConfig decoder" where
  "dec_TLSConfig =
     dec_struct ''TLSConfig''
       [struct_field ''InsecureSkipVerify'' InsecureSkipVerify InsecureSkipVerify_update dec_bool,
        struct_field ''CAFile'' CAFile CAFile_update dec_string,
        struct_field ''CertFile'' CertFile CertFile_update dec_string,
        struct_field ''KeyFile'' KeyFile KeyFile_update dec_string]"

definition DriverSpec_json :: "DriverSpec \<Rightarrow> json" where
  "DriverSpec_json x =
     JObj [(''Name'', JStr (DriverSpec_Name x)),
           (''Addr'', JStr (DriverSpec_Address x)),
           (''TLSConfig'', nilable_json TLSConfig_json (DriverSpec_TLSConfig x)),
           (''UniqueVolumeIds'', JBool (DriverSpec_UniqueVolumeIds x))]"

definition dec_DriverSpec :: "DriverSpec decoder" where
  "dec_DriverSpec =
     dec_struct ''DriverSpec''
       [struct_field ''Name'' DriverSpec_Name DriverSpec_Name_update dec_string,
        struct_field ''Addr'' DriverSpec_Address DriverSpec_Address_update dec_string,
        struct_field ''TLSConfig'' DriverSpec_TLSConfig DriverSpec_TLSConfig_update (dec_pointer dec_TLSConfig zero_TLSConfig),
        struct_field ''UniqueVolumeIds'' DriverSpec_UniqueVolumeIds DriverSpec_UniqueVolumeIds_update dec_bool]"

text \<open>\<open>CreateRequest\<close> carries arbitrary option values, so its encoding may fail.\<close>

definition CreateRequest_json :: "'f strconv \<Rightarrow> 'f CreateRequest \<Rightarrow> go_error + json" where
  "CreateRequest_json fl x =
     bind_ok (case CreateRequest_Opts x of None \<Rightarrow> Inr JNull | Some m \<Rightarrow> goval_json fl (VMap m))
       (\<lambda>opts. Inr (JObj [(''Name'', JStr (CreateRequest_Name x)), (''Opts'', opts)]))"

definition dec_CreateRequest :: "'f strconv \<Rightarrow> 'f CreateRequest decoder" where
  "dec_CreateRequest fl =
     dec_struct ''CreateRequest''
       [struct_field ''Name'' CreateRequest_Name CreateRequest_Name_update dec_string,
        struct_field ''Opts'' CreateRequest_Opts CreateRequest_Opts_update (dec_opts fl)]"

lemmas json_defs = VolumeInfo_json_def ActivateResponse_json_def MountRequest_json_def PathRequest_json_def UnmountRequest_json_def RemoveRequest_json_def GetRequest_json_def MountResponse_json_def PathResponse_json_def ListResponse_json_def ErrorResponse_json_def GetResponse_json_def CapabilityInfo_json_def CapabilitiesResponse_json_def TLSConfig_json_def DriverSpec_json_def

lemmas dec_defs = dec_VolumeInfo_def dec_ActivateResponse_def dec_MountRequest_def dec_PathRequest_def dec_UnmountRequest_def dec_RemoveRequest_def dec_GetRequest_def dec_MountResponse_def dec_PathResponse_def dec_ListResponse_def dec_ErrorResponse_def dec_GetResponse_def dec_CapabilityInfo_def dec_CapabilitiesResponse_def dec_TLSConfig_def dec_DriverSpec_def

section \<open>Wire types\<close>

text \<open>What the two ends of the protocol need of a message type.\<close>

locale wire_type =
  fixes enc :: "'a \<Rightarrow> json" and dec :: "'a decoder" and zero :: 'a
  assumes decode: "dec ctx (enc x) zero = Inr x"
    and numbers: "numbers_ok (enc x)"
    and shallow: "json_depth (enc x) \<le> maxNestingDepth"
begin

lemma unmarshal_marshal:
  "strings_valid (enc x) \<Longrightarrow> Unmarshal dec zero (print_json (enc x)) = Inr x"
  by (simp add: Unmarshal_def parse_print_valid numbers shallow decode)

lemma marshal_parses: "parse_json (print_json (enc x)) = Inr (sanitize (enc x))"
  by (simp add: parse_print numbers shallow)

end

sublocale wire_type \<subseteq> codec "\<lambda>x. print_json (enc x)" "Unmarshal dec zero" "\<lambda>x. strings_valid (enc x)"
  by unfold_locales (rule unmarshal_marshal)

text \<open>A response whose \<open>Err\<close> is what a reader of \<open>ErrorResponse\<close> sees.\<close>

locale wire_response = wire_type +
  fixes err :: "'a \<Rightarrow> string"
  assumes decode_err:
    "dec_ErrorResponse ctx (enc x) zero_ErrorResponse = Inr \<lparr>ErrorResponse_Err = err x\<rparr>"
begin

lemma unmarshal_err:
  "strings_valid (enc x) \<Longrightarrow>
    Unmarshal dec_ErrorResponse zero_ErrorResponse (print_json (enc x)) =
      Inr \<lparr>ErrorResponse_Err = err x\<rparr>"
  by (simp add: Unmarshal_def parse_print_valid numbers shallow decode_err)

end

lemma dec_elems_map:
  "(\<And>x. x \<in> set xs \<Longrightarrow> dec ctx (enc x) zero = Inr x) \<Longrightarrow> dec_elems dec zero ctx (map enc xs) [] = Inr xs"
  by (induction xs) auto

lemma parse_int64_sint [simp]: "parse_int64 (itoa (sint w)) = Some (sint (w :: 64 word))"
  using sint_greater_eq [of w] sint_lt [of w] by (intro parse_int64_itoa) simp_all

lemma json_depth_JArr_le: "(\<And>v. v \<in> set vs \<Longrightarrow> json_depth v \<le> n) \<Longrightarrow> json_depth (JArr vs) \<le> Suc n"
  by auto

lemma decode_VolumeInfo [simp]: "dec_VolumeInfo ctx (VolumeInfo_json x) zero_VolumeInfo = Inr x"
  by (simp add: dec_VolumeInfo_def VolumeInfo_json_def dec_struct_def zero_VolumeInfo_def)


lemma depth_VolumeInfo [simp]: "json_depth (VolumeInfo_json x) = 1"
  by (simp add: VolumeInfo_json_def)

lemma numbers_VolumeInfo [simp]: "numbers_ok (VolumeInfo_json x)"
  by (simp add: VolumeInfo_json_def is_number_itoa)

lemma depth_strings [simp]: "json_depth (JArr (map JStr ss)) \<le> 1"
  by (rule order_trans [OF json_depth_JArr_le [of _ 0]]) auto

lemma depth_volumes [simp]: "json_depth (JArr (map VolumeInfo_json vs)) \<le> 2"
  by (rule order_trans [OF json_depth_JArr_le [of _ 1]]) auto

lemmas wire_simps = dec_struct_def dec_slice_def nilable_json_def dec_elems_map list_all_iff
  maxNestingDepth_def

interpretation wire_MountRequest: wire_type MountRequest_json dec_MountRequest zero_MountRequest
  by unfold_locales (simp_all add: MountRequest_json_def dec_MountRequest_def zero_MountRequest_def wire_simps)

interpretation wire_PathRequest: wire_type PathRequest_json dec_PathRequest zero_PathRequest
  by unfold_locales (simp_all add: PathRequest_json_def dec_PathRequest_def zero_PathRequest_def wire_simps)

interpretation wire_UnmountRequest: wire_type UnmountRequest_json dec_UnmountRequest zero_UnmountRequest
  by unfold_locales (simp_all add: UnmountRequest_json_def dec_UnmountRequest_def zero_UnmountRequest_def wire_simps)

interpretation wire_RemoveRequest: wire_type RemoveRequest_json dec_RemoveRequest zero_RemoveRequest
  by unfold_locales (simp_all add: RemoveRequest_json_def dec_RemoveRequest_def zero_RemoveRequest_def wire_simps)

interpretation wire_GetRequest: wire_type GetRequest_json dec_GetRequest zero_GetRequest
  by unfold_locales (simp_all add: GetRequest_json_def dec_GetRequest_def zero_GetRequest_def wire_simps)

interpretation wire_ActivateResponse: wire_response ActivateResponse_json dec_ActivateResponse zero_ActivateResponse ActivateResponse_Err
  by unfold_locales
    (simp_all add: ActivateResponse_json_def dec_ActivateResponse_def zero_ActivateResponse_def dec_ErrorResponse_def
      zero_ErrorResponse_def wire_simps split: option.split)

interpretation wire_MountResponse: wire_response MountResponse_json dec_MountResponse zero_MountResponse MountResponse_Err
  by unfold_locales
    (simp_all add: MountResponse_json_def dec_MountResponse_def zero_MountResponse_def dec_ErrorResponse_def
      zero_ErrorResponse_def wire_simps split: option.split)

interpretation wire_ListResponse: wire_response ListResponse_json dec_ListResponse zero_ListResponse ListResponse_Err
  by unfold_locales
    (simp_all add: ListResponse_json_def dec_ListResponse_def zero_ListResponse_def dec_ErrorResponse_def
      zero_ErrorResponse_def wire_simps split: option.split)

interpretation wire_PathResponse: wire_response PathResponse_json dec_PathResponse zero_PathResponse PathResponse_Err
  by unfold_locales
    (simp_all add: PathResponse_json_def dec_PathResponse_def zero_PathResponse_def dec_ErrorResponse_def
      zero_ErrorResponse_def wire_simps split: option.split)

interpretation wire_ErrorResponse: wire_response ErrorResponse_json dec_ErrorResponse zero_ErrorResponse ErrorResponse_Err
  by unfold_locales
    (simp_all add: ErrorResponse_json_def dec_ErrorResponse_def zero_ErrorResponse_def dec_ErrorResponse_def
      zero_ErrorResponse_def wire_simps split: option.split)

interpretation wire_GetResponse: wire_response GetResponse_json dec_GetResponse zero_GetResponse GetResponse_Err
  by unfold_locales
    (simp_all add: GetResponse_json_def dec_GetResponse_def zero_GetResponse_def dec_ErrorResponse_def
      zero_ErrorResponse_def wire_simps split: option.split)

interpretation wire_CapabilitiesResponse: wire_response CapabilitiesResponse_json dec_CapabilitiesResponse zero_CapabilitiesResponse
    "\<lambda>_. ''''"
  by unfold_locales
    (simp_all add: CapabilitiesResponse_json_def dec_CapabilitiesResponse_def zero_CapabilitiesResponse_def
      CapabilityInfo_json_def dec_CapabilityInfo_def dec_ErrorResponse_def
      zero_ErrorResponse_def wire_simps split: option.split)

interpretation wire_TLSConfig: wire_type TLSConfig_json dec_TLSConfig zero_TLSConfig
  by unfold_locales (simp_all add: TLSConfig_json_def dec_TLSConfig_def zero_TLSConfig_def wire_simps)

section \<open>Option values\<close>

text \<open>Every map inside a value is a map: distinct keys, in order.\<close>

fun gomaps_ok :: "'f goval \<Rightarrow> bool" where
  "gomaps_ok (VSlice xs) = list_all gomaps_ok xs"
| "gomaps_ok (VMap m) = (is_gomap m \<and> list_all (\<lambda>e. gomaps_ok (snd e)) m)"
| "gomaps_ok _ = True"

lemma entries_inverse:
  assumes "mapM_ok (\<lambda>e. bind_ok (goval_json fl (snd e)) (\<lambda>j. Inr (fst e, j))) m = Inr kvs"
    and "\<And>e j. e \<in> set m \<Longrightarrow> goval_json fl (snd e) = Inr j \<Longrightarrow> goval_of_json fl ctx j = Inr (snd e)"
  shows "mapM_ok (\<lambda>kv. bind_ok (goval_of_json fl ctx (snd kv)) (\<lambda>v. Inr (fst kv, v))) kvs = Inr m"
  by (rule mapM_ok_inverse [OF assms(1)]) (auto simp: bind_ok_Inr_iff assms(2))

lemma goval_roundtrip:
  assumes "strconv_exact fl"
  shows "goval_json fl v = Inr j \<Longrightarrow> gomaps_ok v \<Longrightarrow> goval_of_json fl ctx j = Inr v"
proof (induction v arbitrary: j rule: gomaps_ok.induct)
  case (1 xs)
  then obtain js where js: "mapM_ok (goval_json fl) xs = Inr js" "j = JArr js"
    by (auto simp: bind_ok_Inr_iff)
  have "mapM_ok (goval_of_json fl ctx) js = Inr xs"
    by (rule mapM_ok_inverse [OF js(1)]) (use 1 in \<open>auto simp: list_all_iff\<close>)
  with js show ?case by simp
next
  case (2 m)
  then obtain kvs where kvs: "j = JObj kvs"
    "mapM_ok (\<lambda>e. bind_ok (goval_json fl (snd e)) (\<lambda>j. Inr (fst e, j))) m = Inr kvs"
    by (auto simp: bind_ok_Inr_iff)
  have "mapM_ok (\<lambda>kv. bind_ok (goval_of_json fl ctx (snd kv)) (\<lambda>v. Inr (fst kv, v))) kvs = Inr m"
    by (rule entries_inverse [OF kvs(2)]) (use 2 in \<open>auto simp: list_all_iff\<close>)
  moreover have "foldl (\<lambda>m e. map_put (fst e) (snd e) m) [] m = m"
    using foldl_map_put_append [of "[]" m] "2.prems" by simp
  ultimately show ?case by (simp add: kvs)
qed (use assms in \<open>auto simp: strconv_exact_def bind_ok_Inr_iff\<close>)

lemma goval_json_numbers:
  "strconv_exact fl \<Longrightarrow> goval_json fl v = Inr j \<Longrightarrow> numbers_ok j"
proof (induction fl v arbitrary: j rule: goval_json.induct)
  case (5 fl xs)
  then show ?case by (fastforce simp: bind_ok_Inr_iff list_all_iff dest: mapM_ok_set)
next
  case (6 fl m)
  then show ?case by (fastforce simp: bind_ok_Inr_iff list_all_iff dest: mapM_ok_set)
qed (auto simp: strconv_exact_def bind_ok_Inr_iff)

definition request_maps_ok :: "'f CreateRequest \<Rightarrow> bool" where
  "request_maps_ok x = (case CreateRequest_Opts x of None \<Rightarrow> True | Some m \<Rightarrow> gomaps_ok (VMap m))"

lemma decode_CreateRequest:
  assumes "strconv_exact fl" and "CreateRequest_json fl x = Inr j" and "request_maps_ok x"
  shows "dec_CreateRequest fl ctx j zero_CreateRequest = Inr x" and "numbers_ok j"
proof -
  have "dec_CreateRequest fl ctx j zero_CreateRequest = Inr x \<and> numbers_ok j"
  proof (cases "CreateRequest_Opts x")
    case None
    with assms(2) show ?thesis
      by (auto simp: CreateRequest_json_def dec_CreateRequest_def zero_CreateRequest_def
          dec_struct_def dec_opts_def)
  next
    case (Some m)
    with assms(2) obtain opts where opts: "goval_json fl (VMap m) = Inr opts"
      "j = JObj [(''Name'', JStr (CreateRequest_Name x)), (''Opts'', opts)]"
      by (auto simp: CreateRequest_json_def bind_ok_Inr_iff)
    then obtain kvs where kvs: "opts = JObj kvs"
      "mapM_ok (\<lambda>e. bind_ok (goval_json fl (snd e)) (\<lambda>j. Inr (fst e, j))) m = Inr kvs"
      by (auto simp: bind_ok_Inr_iff)
    from Some assms(3) have m: "is_gomap m" "list_all (\<lambda>e. gomaps_ok (snd e)) m"
      by (simp_all add: request_maps_ok_def)
    have "mapM_ok (\<lambda>kv. bind_ok (goval_of_json fl c (snd kv)) (\<lambda>v. Inr (fst kv, v))) kvs = Inr m" for c
      by (rule entries_inverse [OF kvs(2)])
        (use m(2) goval_roundtrip [OF assms(1)] in \<open>auto simp: list_all_iff\<close>)
    moreover have "foldl (\<lambda>m e. map_put (fst e) (snd e) m) [] m = m"
      using foldl_map_put_append [of "[]" m] m(1) by simp
    moreover have "numbers_ok opts"
      using goval_json_numbers [OF assms(1) opts(1)] by simp
    ultimately show ?thesis using Some kvs(1)
      by (simp add: opts(2) dec_CreateRequest_def zero_CreateRequest_def dec_struct_def dec_opts_def)
  qed
  then show "dec_CreateRequest fl ctx j zero_CreateRequest = Inr x" and "numbers_ok j" by simp_all
qed

lemma unmarshal_CreateRequest:
  assumes "strconv_exact fl" and "CreateRequest_json fl x = Inr j" and "request_maps_ok x"
    and "strings_valid j" and "json_depth j \<le> maxNestingDepth"
  shows "Unmarshal (dec_CreateRequest fl) zero_CreateRequest (print_json j) = Inr x"
  using decode_CreateRequest [OF assms(1-3)] assms(4,5)
  by (simp add: Unmarshal_def parse_print_valid)

section \<open>Properties\<close>

text \<open>A list of volumes survives the wire: reading what was written gives the same list
  (a nil list stays nil, every mount count keeps its 64 bits), and a reader that only looks
  for an error sees the response's error.\<close>

theorem list_response_wire:
  assumes "strings_valid (ListResponse_json x)"
  shows "Unmarshal dec_ListResponse zero_ListResponse (print_json (ListResponse_json x)) = Inr x \<and>
    Unmarshal dec_ErrorResponse zero_ErrorResponse (print_json (ListResponse_json x)) =
      Inr \<lparr>ErrorResponse_Err = ListResponse_Err x\<rparr>"
  using wire_ListResponse.unmarshal_marshal [OF assms] wire_ListResponse.unmarshal_err [OF assms] by simp

definition sample_list :: ListResponse where
  "sample_list =
     \<lparr>ListResponse_Volumes = Some [\<lparr>VolumeInfo_Name = ''v'', VolumeInfo_Mountpoint = ''/mnt/v'', VolumeInfo_MountCount = - 1\<rparr>],
      ListResponse_Err = ''late''\<rparr>"

theorem list_response_wire_witness:
  "Unmarshal dec_ListResponse zero_ListResponse (print_json (ListResponse_json sample_list)) = Inr sample_list"
proof -
  have "strings_valid (ListResponse_json sample_list)"
    by (simp add: sample_list_def ListResponse_json_def VolumeInfo_json_def nilable_json_def valid_utf8_ascii)
  from list_response_wire [OF this] show ?thesis by simp
qed

end
