(* ===== verification/Env.thy ===== *)
theory Env
  imports Wire
begin

text \<open>
  The environment a driver operation runs in: lager loggers, contexts, the interfaces \<open>Env\<close>
  and \<open>Driver\<close> of \<^verbatim>\<open>resources.go\<close>, the response writer, and the part of
  \<^verbatim>\<open>driverhttp/handlers.go\<close> that builds environments. Everything a handler does besides
  returning is an effect on \<open>server_state\<close>: log entries, the driver's own state, what was
  written to the response, and the monitor goroutines that were started.
\<close>

section \<open>Logging\<close>

text \<open>\<open>lager.LogLevel\<close>; lager compares levels by this order.\<close>

datatype log_level = DEBUG | INFO | ERROR | FATAL

fun level_rank :: "log_level \<Rightarrow> nat" where
  "level_rank DEBUG = 0" | "level_rank INFO = 1" | "level_rank ERROR = 2" | "level_rank FATAL = 3"

instantiation log_level :: linorder
begin

definition less_eq_log_level :: "log_level \<Rightarrow> log_level \<Rightarrow> bool" where
  "less_eq_log_level a b \<longleftrightarrow> level_rank a \<le> level_rank b"

definition less_log_level :: "log_level \<Rightarrow> log_level \<Rightarrow> bool" where
  "less_log_level a b \<longleftrightarrow> level_rank a < level_rank b"

instance
proof
  fix a b :: log_level
  show "a \<le> b \<Longrightarrow> b \<le> a \<Longrightarrow> a = b"
    by (cases a; cases b) (simp_all add: less_eq_log_level_def)
qed (auto simp: less_eq_log_level_def less_log_level_def)

end

text \<open>A logger is known by its task, the dotted path of its sessions. An entry is the level,
  the task with the action, and the error attached to it (\<open>None\<close> when the code passes \<open>nil\<close>).
  Other attached data is not kept.\<close>

type_synonym logger = string

datatype log_entry = LogEntry (entry_level: log_level) (entry_message: string) (entry_error: "string option")

record log_state =
  log :: "log_entry list"

definition Session :: "logger \<Rightarrow> string \<Rightarrow> logger" where
  "Session lg task = lg @ ''.'' @ task"

definition emit :: "log_entry \<Rightarrow> ('z log_state_scheme, unit) state" where
  "emit e = State (\<lambda>s. ((), s\<lparr>log := log s @ [e]\<rparr>))"

definition log_Debug :: "logger \<Rightarrow> string \<Rightarrow> ('z log_state_scheme, unit) state" where
  "log_Debug lg action = emit (LogEntry DEBUG (lg @ ''.'' @ action) None)"

definition log_Info :: "logger \<Rightarrow> string \<Rightarrow> ('z log_state_scheme, unit) state" where
  "log_Info lg action = emit (LogEntry INFO (lg @ ''.'' @ action) None)"

definition log_Error :: "logger \<Rightarrow> string \<Rightarrow> go_error option \<Rightarrow> ('z log_state_scheme, unit) state" where
  "log_Error lg action err = emit (LogEntry ERROR (lg @ ''.'' @ action) (map_option Error err))"

lemma run_emit [simp]: "run_state (emit e) s = ((), s\<lparr>log := log s @ [e]\<rparr>)"
  by (simp add: emit_def)

lemmas log_defs [go_defs] = log_Debug_def log_Info_def log_Error_def

section \<open>Contexts and environments\<close>

text \<open>A context is a root the caller supplies or the cancellable child of another.\<close>

datatype ctx = RootCtx nat | CancelCtx ctx

record Env =
  Env_Logger :: logger
  Env_Context :: ctx

definition NewHttpDriverEnv :: "logger \<Rightarrow> ctx \<Rightarrow> Env" where
  "NewHttpDriverEnv lg cx = \<lparr>Env_Logger = lg, Env_Context = cx\<rparr>"

definition EnvWithLogger :: "logger \<Rightarrow> Env \<Rightarrow> Env" where
  "EnvWithLogger lg env = \<lparr>Env_Logger = lg, Env_Context = Env_Context env\<rparr>"

definition EnvWithContext :: "ctx \<Rightarrow> Env \<Rightarrow> Env" where
  "EnvWithContext cx env = \<lparr>Env_Logger = Env_Logger env, Env_Context = cx\<rparr>"

section \<open>Drivers\<close>

text \<open>The interface \<open>Driver\<close> (with \<open>Provisioner\<close>), for a driver whose state is of type \<open>'s\<close>.\<close>

record ('f, 's) Driver =
  Driver_Activate :: "Env \<Rightarrow> ('s, ActivateResponse) state"
  Driver_Get :: "Env \<Rightarrow> GetRequest \<Rightarrow> ('s, GetResponse) state"
  Driver_List :: "Env \<Rightarrow> ('s, ListResponse) state"
  Driver_Mount :: "Env \<Rightarrow> MountRequest \<Rightarrow> ('s, MountResponse) state"
  Driver_Path :: "Env \<Rightarrow> PathRequest \<Rightarrow> ('s, PathResponse) state"
  Driver_Unmount :: "Env \<Rightarrow> UnmountRequest \<Rightarrow> ('s, ErrorResponse) state"
  Driver_Capabilities :: "Env \<Rightarrow> ('s, CapabilitiesResponse) state"
  Driver_Create :: "Env \<Rightarrow> 'f CreateRequest \<Rightarrow> ('s, ErrorResponse) state"
  Driver_Remove :: "Env \<Rightarrow> RemoveRequest \<Rightarrow> ('s, ErrorResponse) state"

text \<open>The interface \<open>MatchableDriver\<close>.\<close>

record ('f, 's) MatchableDriver = "('f, 's) Driver" +
  Driver_Matches :: "logger \<Rightarrow> string \<Rightarrow> TLSConfig nilable \<Rightarrow> ('s, bool) state"

section \<open>Server state\<close>

text \<open>
  What a handler has written: the header, the status (\<open>None\<close> until \<open>WriteHeader\<close>), the body,
  the text of a panic, and whether the writer implements \<open>http.CloseNotifier\<close>.
\<close>

record response_writer =
  rw_header :: "(string \<times> string) list"
  rw_status :: "nat option"
  rw_body :: string
  rw_panic :: "string option"
  rw_close_notifier :: bool

definition fresh_writer :: "bool \<Rightarrow> response_writer" where
  "fresh_writer closeNotifier =
     \<lparr>rw_header = [], rw_status = None, rw_body = '''', rw_panic = None,
      rw_close_notifier = closeNotifier\<rparr>"

text \<open>A monitor goroutine waits on the parent context and cancels the child.\<close>

record 's server_state = log_state +
  srv_driver :: 's
  srv_rw :: response_writer
  srv_monitors :: "(ctx \<times> ctx) list"

definition on_driver :: "('s, 'a) state \<Rightarrow> ('s server_state, 'a) state" where
  "on_driver m = State (\<lambda>s. let (r, d) = run_state m (srv_driver s) in (r, s\<lparr>srv_driver := d\<rparr>))"

lemma run_on_driver [simp]:
  "run_state (on_driver m) s =
    (fst (run_state m (srv_driver s)), s\<lparr>srv_driver := snd (run_state m (srv_driver s))\<rparr>)"
  by (simp add: on_driver_def split: prod.split)

definition on_rw :: "(response_writer \<Rightarrow> response_writer) \<Rightarrow> ('s server_state, unit) state" where
  "on_rw f = State (\<lambda>s. ((), s\<lparr>srv_rw := f (srv_rw s)\<rparr>))"

lemma run_on_rw [simp]: "run_state (on_rw f) s = ((), s\<lparr>srv_rw := f (srv_rw s)\<rparr>)"
  by (simp add: on_rw_def)

text \<open>\<open>http.ResponseWriter\<close>: \<open>Header().Set\<close> and \<open>Del\<close>, \<open>WriteHeader\<close> (the first status wins) and
  \<open>Write\<close> (which sends status 200 when none was set).\<close>

definition set_header :: "string \<Rightarrow> string \<Rightarrow> response_writer \<Rightarrow> response_writer" where
  "set_header k v w = w\<lparr>rw_header := (k, v) # filter (\<lambda>h. fst h \<noteq> k) (rw_header w)\<rparr>"

definition del_header :: "string \<Rightarrow> response_writer \<Rightarrow> response_writer" where
  "del_header k w = w\<lparr>rw_header := filter (\<lambda>h. fst h \<noteq> k) (rw_header w)\<rparr>"

definition write_header :: "nat \<Rightarrow> response_writer \<Rightarrow> response_writer" where
  "write_header code w =
     w\<lparr>rw_status := (case rw_status w of None \<Rightarrow> Some code | Some c \<Rightarrow> Some c)\<rparr>"

definition write_body :: "string \<Rightarrow> response_writer \<Rightarrow> response_writer" where
  "write_body bs w = (write_header 200 w)\<lparr>rw_body := rw_body w @ bs\<rparr>"

definition spawn_monitor :: "ctx \<Rightarrow> ctx \<Rightarrow> ('s server_state, unit) state" where
  "spawn_monitor parent child =
     State (\<lambda>s. ((), s\<lparr>srv_monitors := srv_monitors s @ [(parent, child)]\<rparr>))"

definition response_writer_is_close_notifier :: "('s server_state, bool) state" where
  "response_writer_is_close_notifier = State (\<lambda>s. (rw_close_notifier (srv_rw s), s))"

lemma run_spawn_monitor [simp]:
  "run_state (spawn_monitor p c) s = ((), s\<lparr>srv_monitors := srv_monitors s @ [(p, c)]\<rparr>)"
  by (simp add: spawn_monitor_def)

lemma run_close_notifier [simp]:
  "run_state response_writer_is_close_notifier s = (rw_close_notifier (srv_rw s), s)"
  by (simp add: response_writer_is_close_notifier_def)

section \<open>The monitored environment\<close>

definition EnvWithMonitor :: "logger \<Rightarrow> ctx \<Rightarrow> ('s server_state, Env) state" where
  "EnvWithMonitor lg0 cx = do {
     let lg = Session lg0 ''with-cancel'';
     log_Debug lg ''start'';
     let cancelCtx = CancelCtx cx;
     let env = NewHttpDriverEnv lg cancelCtx;
     closer \<leftarrow> response_writer_is_close_notifier;
     (if closer then spawn_monitor cx cancelCtx else State_Monad.return ());
     log_Debug lg ''end'';
     State_Monad.return env
   }"

definition monitor_env :: "logger \<Rightarrow> ctx \<Rightarrow> Env" where
  "monitor_env lg cx = \<lparr>Env_Logger = Session lg ''with-cancel'', Env_Context = CancelCtx cx\<rparr>"

definition after_monitor :: "logger \<Rightarrow> ctx \<Rightarrow> 's server_state \<Rightarrow> 's server_state" where
  "after_monitor lg cx s =
     s\<lparr>log := log s @ [LogEntry DEBUG (Session lg ''with-cancel'' @ ''.start'') None,
                       LogEntry DEBUG (Session lg ''with-cancel'' @ ''.end'') None],
       srv_monitors := srv_monitors s @
         (if rw_close_notifier (srv_rw s) then [(cx, CancelCtx cx)] else [])\<rparr>"

lemma run_EnvWithMonitor [simp]:
  "run_state (EnvWithMonitor lg cx) s = (monitor_env lg cx, after_monitor lg cx s)"
  by (cases "rw_close_notifier (srv_rw s)")
    (simp_all add: EnvWithMonitor_def Let_def log_defs NewHttpDriverEnv_def monitor_env_def after_monitor_def)

lemma after_monitor_fields [simp]:
  "srv_driver (after_monitor lg cx s) = srv_driver s"
  "srv_rw (after_monitor lg cx s) = srv_rw s"
  by (simp_all add: after_monitor_def)

end
