(* ===== verification/Go_Files.thy ===== *)
theory Go_Files
  imports Env
begin

text \<open>
  The part of Go's standard library under \<^verbatim>\<open>driver_spec.go\<close>: \<open>path.Join\<close> and \<open>path.Clean\<close>,
  \<open>bufio.Reader.ReadLine\<close> with its 4096-byte buffer, the streaming \<open>json.Decoder\<close>, and a file
  system of regular files with whatever errors the operating system reports.
\<close>

section \<open>Readers\<close>

text \<open>A reader delivers some bytes and then ends, or fails with an error. \<open>io.ReadAll\<close> returns
  the bytes read so far with the error.\<close>

record reader =
  rd_bytes :: string
  rd_error :: "go_error option"

definition ReadAll :: "reader \<Rightarrow> string \<times> go_error option" where
  "ReadAll r = (rd_bytes r, rd_error r)"

definition io_EOF :: go_error where
  "io_EOF = GoError ''EOF''"

text \<open>\<open>ReadLine\<close> of a fresh \<open>bufio.NewReader\<close>. A full buffer without a line feed is returned as
  it is (less a carriage return at its end) with \<open>isPrefix\<close>; an error after the last bytes is
  kept for the next call.\<close>

definition bufio_size :: nat where
  "bufio_size = 4096"

definition newline :: char where
  "newline = CHR 0x0A"

definition drop_cr :: "string \<Rightarrow> string" where
  "drop_cr l = (if l \<noteq> [] \<and> last l = CHR 0x0D then butlast l else l)"

definition ReadLine :: "reader \<Rightarrow> go_error + string \<times> bool" where
  "ReadLine r =
     (let buf = take bufio_size (rd_bytes r) in
      if newline \<in> set buf then Inr (drop_cr (takeWhile (\<lambda>c. c \<noteq> newline) buf), False)
      else if bufio_size \<le> length (rd_bytes r) then Inr (drop_cr buf, True)
      else if buf = [] then Inl (case rd_error r of None \<Rightarrow> io_EOF | Some e \<Rightarrow> e)
      else Inr (buf, False))"

text \<open>\<open>json.Decoder.Decode\<close> of a fresh decoder: the scanner runs until the first value ends. An
  object or array ends with its bracket; any other value ends before the next byte, whatever
  it is, or at the end of the input.\<close>

definition complete_value :: "char \<Rightarrow> scan \<Rightarrow> json option" where
  "complete_value c s =
     (case s of
        (EndValue v, []) \<Rightarrow> Some v
      | (InNumber n raw, []) \<Rightarrow> if num_next c n = None \<and> num_final n then Some (JNum raw) else None
      | _ \<Rightarrow> None)"

fun closed_value :: "scan \<Rightarrow> json option" where
  "closed_value (EndValue (JObj kvs), []) = Some (JObj kvs)"
| "closed_value (EndValue (JArr vs), []) = Some (JArr vs)"
| "closed_value _ = None"

fun read_value :: "string \<Rightarrow> scan \<Rightarrow> (scan \<Rightarrow> go_error + json) \<Rightarrow> go_error + json" where
  "read_value [] s at_end = at_end s"
| "read_value (c # cs) s at_end =
     (case complete_value c s of
        Some v \<Rightarrow> Inr v
      | None \<Rightarrow>
          bind_ok (scan_step c s) (\<lambda>s'.
            case closed_value s' of Some v \<Rightarrow> Inr v | None \<Rightarrow> read_value cs s' at_end))"

definition stream_end :: "reader \<Rightarrow> scan \<Rightarrow> go_error + json" where
  "stream_end r s =
     (case rd_error r of
        Some e \<Rightarrow> Inl e
      | None \<Rightarrow>
          (case complete_value (CHR '' '') s of
             Some v \<Rightarrow> Inr v
           | None \<Rightarrow>
               if list_all is_space (rd_bytes r) then Inl io_EOF else Inl (GoError ''unexpected EOF'')))"

definition Decode :: "'a decoder \<Rightarrow> 'a \<Rightarrow> reader \<Rightarrow> go_error + 'a" where
  "Decode dec zero r =
     bind_ok (read_value (rd_bytes r) (BeginValue, []) (stream_end r)) (\<lambda>j. dec top_ctx j zero)"

text \<open>Where \<open>json.Unmarshal\<close> succeeds the stream decoder reads the same value.\<close>

lemma end_value_complete:
  "complete_value c (EndValue v, []) = Some v"
  by (simp add: complete_value_def)

lemma scan_run_complete:
  "scan_run cs (EndValue v, []) = Inr s \<Longrightarrow> s = (EndValue v, [])"
  by (induction cs) (auto simp: syntax_error_def bind_ok_Inr_iff split: if_splits)

lemma scan_eof_complete: "scan_eof (EndValue v, []) = Inr w \<Longrightarrow> w = v"
  by (simp add: scan_eof_def is_space_def)

lemma complete_value_parses:
  assumes "complete_value c s = Some v" and "bind_ok (scan_run (c # cs) s) scan_eof = Inr w"
  shows "w = v"
proof -
  consider "s = (EndValue v, [])"
    | n raw where "s = (InNumber n raw, [])" "num_next c n = None" "num_final n" "v = JNum raw"
    using assms(1) by (auto simp: complete_value_def split: prod.splits mode.splits list.splits if_splits)
  then show ?thesis
  proof cases
    case 1
    with assms(2) show ?thesis
      by (metis bind_ok_Inr_iff scan_run_complete scan_eof_complete)
  next
    case 2
    with assms(2) obtain s' where "scan_run cs (EndValue v, []) = Inr s'" "scan_eof s' = Inr w"
      by (auto simp: bind_ok_Inr_iff syntax_error_def split: if_splits)
    then show ?thesis using scan_run_complete scan_eof_complete by blast
  qed
qed

lemma closed_value_state: "closed_value s = Some v \<Longrightarrow> s = (EndValue v, [])"
  by (induction s rule: closed_value.induct) auto

text \<open>A literal in progress expects at least one more character, none of them a blank.\<close>

definition literal_ok :: "scan \<Rightarrow> bool" where
  "literal_ok s = (case fst s of InLiteral _ es _ \<Rightarrow> es \<noteq> [] \<and> CHR '' '' \<notin> set es | _ \<Rightarrow> True)"

lemma end_value_literal_ok: "end_value c v st = Inr s \<Longrightarrow> literal_ok s"
  by (induction c v st rule: end_value.induct)
    (auto simp: literal_ok_def syntax_error_def split: if_splits json.splits)

lemma begin_value_literal_ok: "begin_value c st = Inr s \<Longrightarrow> literal_ok s"
  by (auto simp: begin_value_def push_frame_def literal_ok_def syntax_error_def
      split: if_splits option.splits)

lemma begin_string_literal_ok: "begin_string c st = Inr s \<Longrightarrow> literal_ok s"
  by (auto simp: begin_string_def literal_ok_def syntax_error_def split: if_splits)

lemma end_string_literal_ok: "end_string raw st = Inr s \<Longrightarrow> literal_ok s"
  by (auto simp: end_string_def literal_ok_def split: option.splits)

lemmas literal_ok_intros = end_value_literal_ok begin_value_literal_ok begin_string_literal_ok
  end_string_literal_ok

lemma literal_ok_simps [simp]:
  "literal_ok (EndValue v, st)" "literal_ok (BeginValueOrEmpty, st)" "literal_ok (BeginStringOrEmpty, st)"
  "literal_ok (BeginValue, st)"
  by (simp_all add: literal_ok_def)

lemma scan_step_literal_ok: "scan_step c s = Inr s' \<Longrightarrow> literal_ok s \<Longrightarrow> literal_ok s'"
proof (induction c s rule: scan_step.induct)
  case (2 c st)
  then show ?case
    by (auto intro: literal_ok_intros split: if_splits list.splits frame.splits bool.splits)
next
  case (3 c st)
  then show ?case
    by (auto intro: literal_ok_intros split: if_splits list.splits frame.splits bool.splits)
next
  case (6 c raw st)
  then show ?case
    by (auto intro: literal_ok_intros split: if_splits simp: syntax_error_def)
      (auto simp: literal_ok_def)
qed (auto dest: literal_ok_intros simp: literal_ok_def syntax_error_def
    split: if_splits option.splits)

lemma scan_eof_at_end:
  assumes "scan_eof s = Inr v" and "literal_ok s"
  shows "complete_value (CHR '' '') s = Some v"
proof -
  have end_top: "end_value c w st = Inr (EndValue v, []) \<Longrightarrow> c = CHR '' '' \<Longrightarrow> st = [] \<and> w = v" for c w st
    by (induction c w st rule: end_value.induct) (auto simp: is_space_def)
  obtain m st where s: "s = (m, st)" by (cases s)
  have step: "scan_step (CHR '' '') (m, st) = Inr (EndValue v, [])"
    using scan_eof_value [OF assms(1)] by (simp add: s)
  show ?thesis
  proof (cases m)
    case (EndValue w)
    with step end_top [of "CHR '' ''" w st] show ?thesis by (simp add: s complete_value_def)
  next
    case (InNumber n raw)
    with step end_top [of "CHR '' ''" "JNum raw" st] show ?thesis
      by (auto simp: s complete_value_def syntax_error_def split: option.splits if_splits)
  next
    case (InLiteral name es w)
    with step assms(2) show ?thesis
      by (cases es) (auto simp: s literal_ok_def syntax_error_def split: if_splits)
  qed (use step in \<open>auto simp: begin_value_def begin_string_def is_space_def syntax_error_def
      split: if_splits\<close>)
qed

lemma read_value_parses:
  assumes "bind_ok (scan_run cs s) scan_eof = Inr v" and "literal_ok s"
    and "\<And>s'. literal_ok s' \<Longrightarrow> scan_eof s' = Inr v \<Longrightarrow> at_end s' = Inr v"
  shows "read_value cs s at_end = Inr v"
  using assms
proof (induction cs arbitrary: s)
  case (Cons c cs)
  show ?case
  proof (cases "complete_value c s")
    case None
    from Cons.prems(1) obtain s' where s': "scan_step c s = Inr s'"
      "bind_ok (scan_run cs s') scan_eof = Inr v"
      by (auto simp: bind_ok_Inr_iff)
    show ?thesis
    proof (cases "closed_value s'")
      case None
      then show ?thesis
        using Cons.IH [OF s'(2) scan_step_literal_ok [OF s'(1) Cons.prems(2)] Cons.prems(3)]
          s'(1) \<open>complete_value c s = None\<close> by simp
    next
      case (Some w)
      then have "s' = (EndValue w, [])" by (rule closed_value_state)
      with s'(2) have "w = v" by (metis bind_ok_Inr_iff scan_run_complete scan_eof_complete)
      with Some s'(1) \<open>complete_value c s = None\<close> show ?thesis by simp
    qed
  next
    case (Some w)
    with complete_value_parses [OF Some Cons.prems(1)] show ?thesis by simp
  qed
qed simp

lemma Decode_Unmarshal:
  assumes "Unmarshal dec zero (rd_bytes r) = Inr x" and "rd_error r = None"
  shows "Decode dec zero r = Inr x"
proof -
  from assms(1) obtain v where v: "parse_json (rd_bytes r) = Inr v" "dec top_ctx v zero = Inr x"
    by (auto simp: Unmarshal_def bind_ok_Inr_iff)
  have "read_value (rd_bytes r) (BeginValue, []) (stream_end r) = Inr v"
    by (rule read_value_parses [OF v(1) [unfolded parse_json_def]])
      (simp_all add: stream_end_def assms(2) scan_eof_at_end)
  with v(2) show ?thesis by (simp add: Decode_def)
qed

section \<open>Paths\<close>

text \<open>\<open>path.Clean\<close> one component at a time: empty components and dots vanish, a double dot
  removes the component before it, and at the start of a rooted path it vanishes.\<close>

definition clean_step :: "bool \<Rightarrow> string list \<Rightarrow> string \<Rightarrow> string list" where
  "clean_step rooted out c =
     (if c = '''' \<or> c = ''.'' then out
      else if c = ''..'' then
        (if out \<noteq> [] \<and> last out \<noteq> ''..'' then butlast out
         else if rooted then out else out @ [c])
      else out @ [c])"

definition path_Clean :: "string \<Rightarrow> string" where
  "path_Clean p =
     (let rooted = (take 1 p = ''/'');
          out = foldl (clean_step rooted) [] (Split p CHR ''/'');
          s = (if rooted then ''/'' else '''') @ Join out ''/''
      in if s = '''' then ''.'' else s)"

text \<open>\<open>path.Join\<close> of two elements.\<close>

definition path_Join :: "string \<Rightarrow> string \<Rightarrow> string" where
  "path_Join a b =
     (if a = '''' \<and> b = '''' then ''''
      else path_Clean (if a = '''' then b else a @ ''/'' @ b))"

section \<open>Files\<close>

text \<open>What the operating system refuses: an error for a call, for \<open>Write\<close> and \<open>Read\<close> with the
  number of bytes transferred before it. Without a refusal a call succeeds, except that
  opening a file needs the file.\<close>

record operating_system =
  os_refuses_MkdirAll :: "string \<Rightarrow> go_error option"
  os_refuses_Create :: "string \<Rightarrow> go_error option"
  os_refuses_Write :: "string \<Rightarrow> string \<Rightarrow> (nat \<times> go_error) option"
  os_refuses_Sync :: "string \<Rightarrow> go_error option"
  os_refuses_Close :: "string \<Rightarrow> go_error option"
  os_refuses_Open :: "string \<Rightarrow> go_error option"
  os_refuses_Read :: "string \<Rightarrow> (nat \<times> go_error) option"

definition healthy :: operating_system where
  "healthy =
     \<lparr>os_refuses_MkdirAll = (\<lambda>_. None), os_refuses_Create = (\<lambda>_. None),
      os_refuses_Write = (\<lambda>_ _. None), os_refuses_Sync = (\<lambda>_. None),
      os_refuses_Close = (\<lambda>_. None),
      os_refuses_Open = (\<lambda>_. None), os_refuses_Read = (\<lambda>_. None)\<rparr>"

text \<open>The regular files by cleaned path, and the paths of the open handles.\<close>

record file_system = log_state +
  fs_files :: "string \<Rightarrow> string option"
  fs_handles :: "string list"

type_synonym 'a fs = "(file_system, 'a) state"

definition os_MkdirAll :: "operating_system \<Rightarrow> string \<Rightarrow> go_error option fs" where
  "os_MkdirAll os dir = State_Monad.return (os_refuses_MkdirAll os dir)"

text \<open>\<open>os.Create\<close> truncates an existing file.\<close>

definition os_Create :: "operating_system \<Rightarrow> string \<Rightarrow> go_error option fs" where
  "os_Create os p = State (\<lambda>s.
     case os_refuses_Create os p of
       Some e \<Rightarrow> (Some e, s)
     | None \<Rightarrow> (None, s\<lparr>fs_files := (fs_files s)(p \<mapsto> ''''), fs_handles := p # fs_handles s\<rparr>))"

definition file_Write :: "operating_system \<Rightarrow> string \<Rightarrow> string \<Rightarrow> go_error option fs" where
  "file_Write os p contents = State (\<lambda>s.
     let old = (case fs_files s p of None \<Rightarrow> '''' | Some bs \<Rightarrow> bs) in
     case os_refuses_Write os p contents of
       Some (n, e) \<Rightarrow> (Some e, s\<lparr>fs_files := (fs_files s)(p \<mapsto> old @ take n contents)\<rparr>)
     | None \<Rightarrow> (None, s\<lparr>fs_files := (fs_files s)(p \<mapsto> old @ contents)\<rparr>))"

definition file_Sync :: "operating_system \<Rightarrow> string \<Rightarrow> go_error option fs" where
  "file_Sync os p = State_Monad.return (os_refuses_Sync os p)"

text \<open>A handle is gone after \<open>Close\<close>, also when \<open>Close\<close> reports an error.\<close>

definition file_Close :: "operating_system \<Rightarrow> string \<Rightarrow> go_error option fs" where
  "file_Close os p = State (\<lambda>s. (os_refuses_Close os p, s\<lparr>fs_handles := remove1 p (fs_handles s)\<rparr>))"

definition os_Open :: "operating_system \<Rightarrow> string \<Rightarrow> (go_error + reader) fs" where
  "os_Open os p = State (\<lambda>s.
     case os_refuses_Open os p of
       Some e \<Rightarrow> (Inl e, s)
     | None \<Rightarrow>
         (case fs_files s p of
            None \<Rightarrow> (Inl (GoError (''open '' @ p @ '': no such file or directory'')), s)
          | Some bs \<Rightarrow>
              (Inr (case os_refuses_Read os p of
                  None \<Rightarrow> \<lparr>rd_bytes = bs, rd_error = None\<rparr>
                | Some (n, e) \<Rightarrow> \<lparr>rd_bytes = take n bs, rd_error = Some e\<rparr>),
               s\<lparr>fs_handles := p # fs_handles s\<rparr>)))"

lemmas os_defs [go_defs] = os_MkdirAll_def os_Create_def file_Write_def file_Sync_def file_Close_def os_Open_def

section \<open>Facts about paths and lines\<close>

lemma Split_append: "Split (a @ sep # b) sep = Split a sep @ Split b sep"
  by (induction a) (auto split: list.splits)

lemma Join_snoc: "Join (ws @ [w]) sep = (if ws = [] then w else Join ws sep @ sep @ w)"
  by (induction ws sep rule: Join.induct) auto

text \<open>Components on the way are never empty or a dot, and have no slash.\<close>

definition component :: "string \<Rightarrow> bool" where
  "component c \<longleftrightarrow> c \<noteq> '''' \<and> c \<noteq> ''.'' \<and> CHR ''/'' \<notin> set c"

lemma clean_step_components:
  "list_all component out \<Longrightarrow> CHR ''/'' \<notin> set c \<Longrightarrow> list_all component (clean_step rooted out c)"
  by (auto simp: clean_step_def list_all_iff component_def dest: in_set_butlastD)

lemma clean_components:
  "list_all component out \<Longrightarrow> \<forall>c\<in>set cs. CHR ''/'' \<notin> set c \<Longrightarrow>
    list_all component (foldl (clean_step rooted) out cs)"
  by (induction cs arbitrary: out) (simp_all add: clean_step_components)

lemma Join_components:
  assumes "list_all component out"
  shows "Join out ''/'' = '''' \<longleftrightarrow> out = []" and "Join out ''/'' \<noteq> ''.''" and "Join out ''/'' \<noteq> ''/''"
  using assms by (cases out; cases "tl out"; auto simp: component_def append_eq_Cons_conv)+

text \<open>A file name that is no dot and has no slash stays a file in the directory.\<close>

definition plain_file :: "string \<Rightarrow> bool" where
  "plain_file f \<longleftrightarrow> CHR ''/'' \<notin> set f \<and> f \<notin> {'''', ''.'', ''..''}"

definition dir_prefix :: "string \<Rightarrow> string" where
  "dir_prefix dir =
     (if dir = '''' \<or> path_Clean dir = ''.'' then ''''
      else if path_Clean dir = ''/'' then ''/'' else path_Clean dir @ ''/'')"

definition clean_out :: "string \<Rightarrow> string list" where
  "clean_out p = foldl (clean_step (take 1 p = ''/'')) [] (Split p CHR ''/'')"

lemma clean_out_components: "list_all component (clean_out p)"
  unfolding clean_out_def by (rule clean_components) (auto dest: Split_no_sep)

lemma path_Clean_out:
  "path_Clean p =
    (if take 1 p = ''/'' then ''/'' @ Join (clean_out p) ''/''
     else if clean_out p = [] then ''.'' else Join (clean_out p) ''/'')"
proof -
  have "path_Clean p =
      (let s = (if take 1 p = ''/'' then ''/'' else '''') @ Join (clean_out p) ''/''
       in if s = '''' then ''.'' else s)"
    unfolding path_Clean_def clean_out_def by (simp only: Let_def)
  then show ?thesis using Join_components(1) [OF clean_out_components, of p] by (simp add: Let_def)
qed

lemma clean_out_plain:
  assumes "plain_file f"
  shows "clean_out (dir @ ''/'' @ f) = (if dir = '''' then [f] else clean_out dir @ [f])"
    and "clean_out f = [f]"
proof -
  have f: "Split f CHR ''/'' = [f]" "\<And>r out. clean_step r out f = out @ [f]"
    using assms by (auto simp: plain_file_def clean_step_def)
  then show "clean_out f = [f]" by (simp add: clean_out_def)
  show "clean_out (dir @ ''/'' @ f) = (if dir = '''' then [f] else clean_out dir @ [f])"
    using f Split_append [of dir "CHR ''/''" f] by (cases dir) (simp_all add: clean_out_def clean_step_def)
qed

lemma path_Join_plain:
  assumes "plain_file f"
  shows "path_Join dir f = dir_prefix dir @ f"
proof (cases "dir = ''''")
  case True
  have "f \<noteq> ''''" "take 1 f \<noteq> ''/''" using assms by (cases f; auto simp: plain_file_def)+
  with True clean_out_plain(2) [OF assms] show ?thesis
    by (simp add: path_Join_def path_Clean_out dir_prefix_def)
next
  case False
  note comps = clean_out_components [of dir]
  have "path_Join dir f = path_Clean (dir @ ''/'' @ f)" using False by (simp add: path_Join_def)
  also have "\<dots> = (if take 1 dir = ''/'' then ''/'' else '''') @ Join (clean_out dir @ [f]) ''/''"
    using False unfolding path_Clean_out clean_out_plain(1) [OF assms] by (cases dir) simp_all
  also have "\<dots> = dir_prefix dir @ f"
    using False Join_components [OF comps]
    by (auto simp: dir_prefix_def path_Clean_out Join_snoc)
  finally show ?thesis .
qed

lemma ReadLine_line:
  assumes "rd_bytes r = a @ newline # b" and "newline \<notin> set a" and "length a < bufio_size"
  shows "ReadLine r = Inr (drop_cr a, False)"
proof -
  have "take bufio_size (rd_bytes r) = a @ newline # take (bufio_size - Suc (length a)) b"
    using assms(3) by (simp add: assms(1) take_Cons')
  moreover have "takeWhile (\<lambda>c. c \<noteq> newline) (a @ newline # xs) = a" for xs
    using assms(2) by (induction a) auto
  ultimately show ?thesis by (simp add: ReadLine_def)
qed

lemma ReadLine_unterminated:
  assumes "newline \<notin> set (rd_bytes r)" and "rd_bytes r \<noteq> []" and "length (rd_bytes r) < bufio_size"
  shows "ReadLine r = Inr (rd_bytes r, False)"
  using assms by (simp add: ReadLine_def Let_def)

lemma drop_cr_length: "length (drop_cr l) \<le> length l"
  by (simp add: drop_cr_def)

lemma drop_cr_set: "set (drop_cr l) \<subseteq> set l"
  by (auto simp: drop_cr_def dest: in_set_butlastD)

lemma ReadLine_bound:
  assumes "ReadLine r = Inr (l, p)"
  shows "length l \<le> bufio_size \<and> newline \<notin> set l"
proof -
  let ?buf = "take bufio_size (rd_bytes r)"
  let ?line = "takeWhile (\<lambda>c. c \<noteq> newline) ?buf"
  have buf: "length ?buf \<le> bufio_size" by simp
  have line: "length ?line \<le> bufio_size"
    using length_takeWhile_le [of "\<lambda>c. c \<noteq> newline" ?buf] buf by linarith
  have no_newline: "newline \<notin> set ?line" by (auto dest: set_takeWhileD)
  consider "l = drop_cr ?line" | "newline \<notin> set ?buf" "l = drop_cr ?buf" | "newline \<notin> set ?buf" "l = ?buf"
    using assms unfolding ReadLine_def Let_def by (auto split: if_splits option.splits)
  then show ?thesis
  proof cases
    case 1
    with line no_newline drop_cr_length [of ?line] drop_cr_set [of ?line] show ?thesis by auto
  next
    case 2
    with buf drop_cr_length [of ?buf] drop_cr_set [of ?buf] show ?thesis by auto
  next
    case 3
    with buf show ?thesis by simp
  qed
qed

end
