(* ===== verification/Driver_Spec.thy ===== *)
theory Driver_Spec
  imports Go_Files
begin

text \<open>
  \<^verbatim>\<open>driver_spec.go\<close>: writing the file that announces a driver, and reading it back. An early
  return of the code is a branch here; the entry and the \<open>Close\<close> that a \<^verbatim>\<open>defer\<close> adds come
  last on every path after it. What a deferred \<open>Close\<close> returns is dropped.
\<close>

definition WriteDriverSpec ::
  "operating_system \<Rightarrow> logger \<Rightarrow> string \<Rightarrow> string \<Rightarrow> string \<Rightarrow> string \<Rightarrow> go_error option fs" where
  "WriteDriverSpec os lg pluginsDirectory driver extension contents = do {
     err \<leftarrow> os_MkdirAll os pluginsDirectory;
     (case err of
        Some e \<Rightarrow> do {
          log_Error lg ''error-creating-directory'' (Some e);
          State_Monad.return (Some e)
        }
      | None \<Rightarrow> do {
          let f = path_Join pluginsDirectory (driver @ ''.'' @ extension);
          err \<leftarrow> os_Create os f;
          (case err of
             Some e \<Rightarrow> do {
               log_Error lg ''error-creating-file '' (Some e);
               State_Monad.return (Some e)
             }
           | None \<Rightarrow> do {
               err \<leftarrow> file_Write os f contents;
               result \<leftarrow>
                 (case err of
                    Some e \<Rightarrow> do {
                      log_Error lg ''error-writing-file '' (Some e);
                      State_Monad.return (Some e)
                    }
                  | None \<Rightarrow> do {
                      err \<leftarrow> file_Sync os f;
                      (case err of
                         Some e \<Rightarrow> do {
                           log_Error lg ''error-syncing-file '' (Some e);
                           State_Monad.return (Some e)
                         }
                       | None \<Rightarrow> State_Monad.return None)
                    });
               file_Close os f;
               State_Monad.return result
             })
        })
   }"

text \<open>The body of \<open>ReadDriverSpec\<close> between its two log entries. Only the second piece of the
  file name is looked at; without a dot the zero value is returned.\<close>

definition read_spec ::
  "operating_system \<Rightarrow> logger \<Rightarrow> string \<Rightarrow> string \<Rightarrow> string \<Rightarrow> (go_error + DriverSpec) fs" where
  "read_spec os lg specName driverPath specFile =
     (if Contains specFile CHR ''.'' then
        (let extension = Split specFile CHR ''.'' ! 1 in
         if extension = ''sock'' then
           State_Monad.return (Inr (zero_DriverSpec\<lparr>DriverSpec_Name := specName,
             DriverSpec_Address := path_Join driverPath specFile\<rparr>))
         else if extension = ''spec'' then do {
           configFile \<leftarrow> os_Open os (path_Join driverPath specFile);
           (case configFile of
              Inl err \<Rightarrow> do {
                log_Error lg ''error-opening-config'' (Some err);
                State_Monad.return (Inl err)
              }
            | Inr file \<Rightarrow>
                (case ReadLine file of
                   Inl err \<Rightarrow> do {
                     log_Error lg ''error-reading-driver-file'' (Some err);
                     State_Monad.return (Inl err)
                   }
                 | Inr (addressBytes, _) \<Rightarrow>
                     State_Monad.return (Inr (zero_DriverSpec\<lparr>DriverSpec_Name := specName,
                       DriverSpec_Address := addressBytes\<rparr>))))
         }
         else if extension = ''json'' then do {
           configFile \<leftarrow> os_Open os (path_Join driverPath specFile);
           (case configFile of
              Inl err \<Rightarrow> do {
                log_Error lg ''error-opening-config'' (Some err);
                State_Monad.return (Inl err)
              }
            | Inr file \<Rightarrow>
                (case Decode dec_DriverSpec zero_DriverSpec file of
                   Inl err \<Rightarrow> do {
                     log_Error lg ''parsing-config-file-error'' (Some err);
                     State_Monad.return (Inl err)
                   }
                 | Inr driverJsonSpec \<Rightarrow>
                     State_Monad.return (Inr \<lparr>DriverSpec_Name = specName,
                       DriverSpec_Address = DriverSpec_Address driverJsonSpec,
                       DriverSpec_TLSConfig = DriverSpec_TLSConfig driverJsonSpec,
                       DriverSpec_UniqueVolumeIds = DriverSpec_UniqueVolumeIds driverJsonSpec\<rparr>)))
         }
         else do {
           let err = GoError (''unknown-driver-extension: '' @ extension);
           log_Error lg ''driver'' (Some err);
           State_Monad.return (Inl err)
         })
      else State_Monad.return (Inr zero_DriverSpec))"

definition ReadDriverSpec ::
  "operating_system \<Rightarrow> logger \<Rightarrow> string \<Rightarrow> string \<Rightarrow> string \<Rightarrow> (go_error + DriverSpec) fs" where
  "ReadDriverSpec os lg0 specName driverPath specFile = do {
     let lg = Session lg0 ''read-driver-spec'';
     log_Info lg ''start'';
     result \<leftarrow> read_spec os lg specName driverPath specFile;
     log_Info lg ''end'';
     State_Monad.return result
   }"

interpretation wire_DriverSpec: wire_type DriverSpec_json dec_DriverSpec zero_DriverSpec
  by unfold_locales
    (auto simp: DriverSpec_json_def dec_DriverSpec_def zero_DriverSpec_def wire_simps dec_pointer_def
      TLSConfig_json_def dec_TLSConfig_def zero_TLSConfig_def split: option.split)

section \<open>Writing\<close>

text \<open>
  What a call of \<open>WriteDriverSpec\<close> amounts to: the first refusal with its log action, and the
  contents it leaves in the file (\<open>None\<close> when the file is not touched).
\<close>

definition write_outcome ::
  "operating_system \<Rightarrow> string \<Rightarrow> string \<Rightarrow> string \<Rightarrow> (string \<times> go_error) option \<times> string option" where
  "write_outcome os dir p contents =
     (case os_refuses_MkdirAll os dir of
        Some e \<Rightarrow> (Some (''error-creating-directory'', e), None)
      | None \<Rightarrow>
          (case os_refuses_Create os p of
             Some e \<Rightarrow> (Some (''error-creating-file '', e), None)
           | None \<Rightarrow>
               (case os_refuses_Write os p contents of
                  Some (n, e) \<Rightarrow> (Some (''error-writing-file '', e), Some (take n contents))
                | None \<Rightarrow>
                    (map_option (\<lambda>e. (''error-syncing-file '', e)) (os_refuses_Sync os p), Some contents))))"

definition apply_write :: "logger \<Rightarrow> string \<Rightarrow> (string \<times> go_error) option \<times> string option \<Rightarrow> file_system \<Rightarrow> file_system" where
  "apply_write lg p outcome s =
     s\<lparr>log := log s @ (case fst outcome of None \<Rightarrow> []
          | Some (action, e) \<Rightarrow> [LogEntry ERROR (lg @ ''.'' @ action) (Some (Error e))]),
       fs_files := (case snd outcome of None \<Rightarrow> fs_files s | Some c \<Rightarrow> (fs_files s)(p \<mapsto> c))\<rparr>"

lemma WriteDriverSpec_outcome:
  assumes "p = path_Join dir (driver @ ''.'' @ ext)"
  shows "run_state (WriteDriverSpec os lg dir driver ext contents) s =
    (map_option snd (fst (write_outcome os dir p contents)),
     apply_write lg p (write_outcome os dir p contents) s)"
  by (simp add: WriteDriverSpec_def write_outcome_def apply_write_def assms os_defs log_defs Let_def
      split: option.split prod.split)

lemma apply_write_fields [simp]:
  "fs_handles (apply_write lg p outcome s) = fs_handles s"
  "q \<noteq> p \<Longrightarrow> fs_files (apply_write lg p outcome s) q = fs_files s q"
  by (simp_all add: apply_write_def split: option.split)

lemma write_outcome_success:
  "fst (write_outcome os dir p contents) = None \<Longrightarrow> snd (write_outcome os dir p contents) = Some contents"
  by (auto simp: write_outcome_def split: option.splits prod.splits)

lemma write_outcome_prefix:
  "snd (write_outcome os dir p contents) = Some c \<Longrightarrow> \<exists>n. c = take n contents"
  by (auto simp: write_outcome_def split: option.splits prod.splits intro: exI [of _ "length contents"])

section \<open>Reading\<close>

text \<open>What the body reads: the result and the path whose handle stays open, if any.\<close>

definition opened :: "operating_system \<Rightarrow> string \<Rightarrow> file_system \<Rightarrow> go_error + reader" where
  "opened os p s = fst (run_state (os_Open os p) s)"

lemma opened_log [simp]: "opened os p (s\<lparr>log := l\<rparr>) = opened os p s"
  by (simp add: opened_def os_Open_def split: option.split)

lemma run_os_Open:
  "run_state (os_Open os p) s =
    (opened os p s, case opened os p s of Inl _ \<Rightarrow> s | Inr _ \<Rightarrow> s\<lparr>fs_handles := p # fs_handles s\<rparr>)"
  by (simp add: opened_def os_Open_def split: option.split)

lemma opened_healthy:
  "os_refuses_Open os p = None \<Longrightarrow> os_refuses_Read os p = None \<Longrightarrow> fs_files s p = Some bs \<Longrightarrow>
    opened os p s = Inr \<lparr>rd_bytes = bs, rd_error = None\<rparr>"
  by (simp add: opened_def os_Open_def)

datatype spec_kind = Sock | SpecFile | JsonFile | UnknownKind string | NoKind

definition kind_of :: "string \<Rightarrow> spec_kind" where
  "kind_of specFile =
     (if CHR ''.'' \<notin> set specFile then NoKind
      else let e = Split specFile CHR ''.'' ! 1 in
        if e = ''sock'' then Sock else if e = ''spec'' then SpecFile
        else if e = ''json'' then JsonFile else UnknownKind e)"

text \<open>A failure with the log action it is reported under.\<close>

definition with_action :: "string \<Rightarrow> go_error + 'a \<Rightarrow> (string \<times> go_error) + 'a" where
  "with_action action m = (case m of Inl e \<Rightarrow> Inl (action, e) | Inr x \<Rightarrow> Inr x)"

definition line_spec :: "string \<Rightarrow> reader \<Rightarrow> (string \<times> go_error) + DriverSpec" where
  "line_spec specName r =
     bind_ok (with_action ''error-reading-driver-file'' (ReadLine r)) (\<lambda>(l, _).
       Inr (zero_DriverSpec\<lparr>DriverSpec_Name := specName, DriverSpec_Address := l\<rparr>))"

definition json_spec :: "string \<Rightarrow> reader \<Rightarrow> (string \<times> go_error) + DriverSpec" where
  "json_spec specName r =
     bind_ok (with_action ''parsing-config-file-error'' (Decode dec_DriverSpec zero_DriverSpec r))
       (\<lambda>d. Inr (d\<lparr>DriverSpec_Name := specName\<rparr>))"

definition read_result ::
  "operating_system \<Rightarrow> string \<Rightarrow> string \<Rightarrow> string \<Rightarrow> file_system \<Rightarrow> (string \<times> go_error) + DriverSpec" where
  "read_result os specName dir specFile s =
     (let p = path_Join dir specFile;
          file = with_action ''error-opening-config'' (opened os p s) in
      case kind_of specFile of
        NoKind \<Rightarrow> Inr zero_DriverSpec
      | Sock \<Rightarrow> Inr (zero_DriverSpec\<lparr>DriverSpec_Name := specName, DriverSpec_Address := p\<rparr>)
      | SpecFile \<Rightarrow> bind_ok file (line_spec specName)
      | JsonFile \<Rightarrow> bind_ok file (json_spec specName)
      | UnknownKind e \<Rightarrow> Inl (''driver'', GoError (''unknown-driver-extension: '' @ e)))"

definition failure_entries :: "logger \<Rightarrow> (string \<times> go_error) + 'a \<Rightarrow> log_entry list" where
  "failure_entries lg m =
     (case m of Inl (action, e) \<Rightarrow> [LogEntry ERROR (lg @ ''.'' @ action) (Some (Error e))] | Inr _ \<Rightarrow> [])"

definition leaked_handles :: "operating_system \<Rightarrow> string \<Rightarrow> string \<Rightarrow> file_system \<Rightarrow> string list" where
  "leaked_handles os dir specFile s =
     (let p = path_Join dir specFile in
      if kind_of specFile \<in> {SpecFile, JsonFile} \<and> (\<exists>r. opened os p s = Inr r) then [p] else [])"

lemmas read_simps = read_spec_def read_result_def leaked_handles_def kind_of_def Contains_def Let_def
  log_defs run_os_Open line_spec_def json_spec_def with_action_def failure_entries_def

lemma kind_of_cases:
  assumes "kind_of specFile = k"
  shows "k = NoKind \<longleftrightarrow> CHR ''.'' \<notin> set specFile"
    and "k = Sock \<Longrightarrow> Split specFile CHR ''.'' ! 1 = ''sock''"
    and "k = SpecFile \<Longrightarrow> Split specFile CHR ''.'' ! 1 = ''spec''"
    and "k = JsonFile \<Longrightarrow> Split specFile CHR ''.'' ! 1 = ''json''"
  using assms by (auto simp: kind_of_def Let_def split: if_splits)

lemma read_spec_outcome:
  "run_state (read_spec os lg specName dir specFile) s =
     (map_sum snd (\<lambda>d. d) (read_result os specName dir specFile s),
      s\<lparr>log := log s @ failure_entries lg (read_result os specName dir specFile s),
        fs_handles := leaked_handles os dir specFile s @ fs_handles s\<rparr>)"
proof (cases "kind_of specFile \<in> {SpecFile, JsonFile}")
  case False
  then show ?thesis
    by (auto simp: read_simps split: if_splits)
next
  case True
  let ?p = "path_Join dir specFile"
  show ?thesis
  proof (cases "kind_of specFile = SpecFile")
    case True
    from kind_of_cases [OF True] True
    have kind: "kind_of specFile = SpecFile" "CHR ''.'' \<in> set specFile" "Split specFile CHR ''.'' ! 1 = ''spec''"
      by auto
    show ?thesis
      by (cases "opened os ?p s"; cases "ReadLine (projr (opened os ?p s))")
        (auto simp: read_spec_def read_result_def leaked_handles_def kind Contains_def Let_def
          log_defs run_os_Open line_spec_def with_action_def failure_entries_def simp del: One_nat_def)
  next
    case False
    with \<open>kind_of specFile \<in> _\<close> have json: "kind_of specFile = JsonFile" by simp
    from kind_of_cases [OF json] json
    have kind: "kind_of specFile = JsonFile" "CHR ''.'' \<in> set specFile" "Split specFile CHR ''.'' ! 1 = ''json''"
      by auto
    show ?thesis
      by (cases "opened os ?p s";
          cases "Decode dec_DriverSpec zero_DriverSpec (projr (opened os ?p s))")
        (auto simp: read_spec_def read_result_def leaked_handles_def kind Contains_def Let_def
          log_defs run_os_Open json_spec_def with_action_def failure_entries_def simp del: One_nat_def)
  qed
qed

lemma ReadDriverSpec_outcome:
  "run_state (ReadDriverSpec os lg specName dir specFile) s =
     (map_sum snd (\<lambda>d. d) (read_result os specName dir specFile s),
      s\<lparr>log := log s @ [LogEntry INFO (Session lg ''read-driver-spec'' @ ''.start'') None] @
          failure_entries (Session lg ''read-driver-spec'') (read_result os specName dir specFile s) @
          [LogEntry INFO (Session lg ''read-driver-spec'' @ ''.end'') None],
        fs_handles := leaked_handles os dir specFile s @ fs_handles s\<rparr>)"
proof -
  have "read_result os specName dir specFile (s\<lparr>log := l\<rparr>) = read_result os specName dir specFile s"
    and "leaked_handles os dir specFile (s\<lparr>log := l\<rparr>) = leaked_handles os dir specFile s" for l
    by (simp_all add: read_result_def leaked_handles_def)
  then show ?thesis by (simp add: ReadDriverSpec_def read_spec_outcome log_defs Let_def)
qed

text \<open>The second piece of a file name built from a dotless driver name is the extension.\<close>

lemma Split_driver_ext:
  "CHR ''.'' \<notin> set driver \<Longrightarrow> CHR ''.'' \<notin> set ext \<Longrightarrow>
    Split (driver @ ''.'' @ ext) CHR ''.'' = [driver, ext]"
  using Split_append_sep [of "CHR ''.''" driver ext] by simp

lemma Split_dotted_length: "sep \<in> set s \<Longrightarrow> 1 < length (Split s sep)"
proof -
  assume "sep \<in> set s"
  then obtain a b where s: "s = a @ sep # b" using split_list by fast
  have "Split a sep \<noteq> []" "Split b sep \<noteq> []" by (rule Split_not_Nil)+
  then show ?thesis unfolding s Split_append by (cases "Split a sep"; cases "Split b sep") simp_all
qed

lemma kind_of_driver_ext:
  assumes "CHR ''.'' \<notin> set driver" and "CHR ''.'' \<notin> set ext"
  shows "kind_of (driver @ ''.'' @ ext) =
    (if ext = ''sock'' then Sock else if ext = ''spec'' then SpecFile
     else if ext = ''json'' then JsonFile else UnknownKind ext)"
  unfolding kind_of_def Split_driver_ext [OF assms] by simp

lemma opened_after_write:
  assumes "fst (run_state (WriteDriverSpec os lg dir driver ext contents) s) = None"
    and "p = path_Join dir (driver @ ''.'' @ ext)"
    and "os_refuses_Open os p = None" and "os_refuses_Read os p = None"
  shows "opened os p (snd (run_state (WriteDriverSpec os lg dir driver ext contents) s)) =
    Inr \<lparr>rd_bytes = contents, rd_error = None\<rparr>"
proof -
  have "fst (write_outcome os dir p contents) = None"
    using assms(1) by (simp add: WriteDriverSpec_outcome [OF assms(2)])
  then show ?thesis
    by (intro opened_healthy assms)
      (simp add: WriteDriverSpec_outcome [OF assms(2)] apply_write_def write_outcome_success)
qed

section \<open>Properties\<close>

text \<open>Property C18. For a driver whose name has no dot, a spec whose strings are in UTF-8 and that was
  written as JSON without an error is read back, from a file that can be opened and read, with its
  address, TLS configuration and flag, under the name asked for. A dot would hide the extension, and
  \<open>encoding/json\<close> repairs strings that are not UTF-8.\<close>

theorem spec_json_roundtrip:
  assumes "CHR ''.'' \<notin> set driver"
    and "strings_valid (DriverSpec_json d)"
    and "run_state (WriteDriverSpec os lg dir driver ''json'' (print_json (DriverSpec_json d))) s = (None, s')"
    and "os_refuses_Open os (path_Join dir (driver @ ''.json'')) = None"
    and "os_refuses_Read os (path_Join dir (driver @ ''.json'')) = None"
  shows "fst (run_state (ReadDriverSpec os lg specName dir (driver @ ''.json'')) s') =
    Inr (d\<lparr>DriverSpec_Name := specName\<rparr>)"
proof -
  let ?r = "\<lparr>rd_bytes = print_json (DriverSpec_json d), rd_error = None\<rparr>"
  have "opened os (path_Join dir (driver @ ''.json'')) s' = Inr ?r"
    using opened_after_write [of os lg dir driver "''json''" "print_json (DriverSpec_json d)" s] assms(3-5)
    by simp
  moreover have "Decode dec_DriverSpec zero_DriverSpec ?r = Inr d"
    by (rule Decode_Unmarshal) (simp_all add: wire_DriverSpec.unmarshal_marshal assms(2))
  ultimately show ?thesis
    using kind_of_driver_ext [OF assms(1), of "''json''"]
    by (simp add: ReadDriverSpec_outcome read_result_def with_action_def json_spec_def)
qed

text \<open>Property C37. For a driver whose name has no dot, writing a first line that has no line feed, does not
  end in a carriage return and is shorter than the read buffer of 4096 bytes, and reading the
  \<^verbatim>\<open>.spec\<close> file back when it can be opened and read, gives that line as the address, whatever
  follows it. A carriage return at the end would be stripped.\<close>

theorem spec_line_roundtrip:
  assumes "CHR ''.'' \<notin> set driver"
    and "newline \<notin> set addr" and "addr = [] \<or> last addr \<noteq> CHR 0x0D" and "length addr < bufio_size"
    and "run_state (WriteDriverSpec os lg dir driver ''spec'' (addr @ newline # rest)) s = (None, s')"
    and "os_refuses_Open os (path_Join dir (driver @ ''.spec'')) = None"
    and "os_refuses_Read os (path_Join dir (driver @ ''.spec'')) = None"
  shows "fst (run_state (ReadDriverSpec os lg specName dir (driver @ ''.spec'')) s') =
    Inr \<lparr>DriverSpec_Name = specName, DriverSpec_Address = addr, DriverSpec_TLSConfig = None,
         DriverSpec_UniqueVolumeIds = False\<rparr>"
proof -
  let ?r = "\<lparr>rd_bytes = addr @ newline # rest, rd_error = None\<rparr>"
  have "opened os (path_Join dir (driver @ ''.spec'')) s' = Inr ?r"
    using opened_after_write [of os lg dir driver "''spec''" "addr @ newline # rest" s] assms(5-7) by simp
  moreover have "ReadLine ?r = Inr (addr, False)"
    using ReadLine_line [of ?r addr rest] assms(2-4) by (auto simp: drop_cr_def)
  ultimately show ?thesis
    using kind_of_driver_ext [OF assms(1), of "''spec''"]
    by (simp add: ReadDriverSpec_outcome read_result_def with_action_def line_spec_def zero_DriverSpec_def)
qed

text \<open>Property C19. Whatever the operating system refuses, \<open>WriteDriverSpec\<close> touches one file only,
  leaves no handle open and never puts anything but a prefix of the contents into that file. It
  returns the first error of creating the directory and of creating, writing and syncing the file,
  and none exactly when these four succeeded; then the file holds the contents. What \<open>Close\<close> reports
  makes no difference, since its \<^verbatim>\<open>defer\<close> drops it.\<close>

theorem write_effect:
  "let p = path_Join dir (driver @ ''.'' @ ext);
       (err, s') = run_state (WriteDriverSpec os lg dir driver ext contents) s
   in fs_handles s' = fs_handles s \<and>
     err = (case os_refuses_MkdirAll os dir of Some e \<Rightarrow> Some e | None \<Rightarrow>
            (case os_refuses_Create os p of Some e \<Rightarrow> Some e | None \<Rightarrow>
            (case os_refuses_Write os p contents of Some (n, e) \<Rightarrow> Some e | None \<Rightarrow> os_refuses_Sync os p))) \<and>
     (case err of
        None \<Rightarrow> fs_files s' = (fs_files s)(p \<mapsto> contents)
      | Some _ \<Rightarrow> fs_files s' = fs_files s \<or> (\<exists>n. fs_files s' = (fs_files s)(p \<mapsto> take n contents))) \<and>
     run_state (WriteDriverSpec (os\<lparr>os_refuses_Close := closing\<rparr>) lg dir driver ext contents) s = (err, s')"
proof -
  let ?p = "path_Join dir (driver @ ''.'' @ ext)"
  show ?thesis
    unfolding WriteDriverSpec_outcome [OF refl]
    by (auto simp: Let_def apply_write_def write_outcome_def split: option.splits prod.splits
        intro: exI [of _ "length contents"])
qed

text \<open>\<open>ReadDriverSpec\<close> changes no file, frames its log, and leaves one handle open exactly
  when it opened a \<^verbatim>\<open>.spec\<close> or \<^verbatim>\<open>.json\<close> file: it never closes what it opens.\<close>

theorem read_effect:
  "\<exists>mid. run_state (ReadDriverSpec os lg specName dir specFile) s =
    (map_sum snd (\<lambda>d. d) (read_result os specName dir specFile s),
     s\<lparr>log := log s @ [LogEntry INFO (Session lg ''read-driver-spec'' @ ''.start'') None] @ mid @
         [LogEntry INFO (Session lg ''read-driver-spec'' @ ''.end'') None],
       fs_handles := leaked_handles os dir specFile s @ fs_handles s\<rparr>)"
  unfolding ReadDriverSpec_outcome by blast

text \<open>Property C40. The extension of a driver whose name has a dot is looked for in the wrong place: whatever
  the extension of its spec file, reading it fails on the piece of the name between its first dot
  and the next, unless that piece is itself one of the three extensions.\<close>

theorem read_dotted_name:
  assumes "CHR ''.'' \<in> set driver" and "b = Split driver CHR ''.'' ! 1" and "b \<notin> {''sock'', ''spec'', ''json''}"
  shows "fst (run_state (ReadDriverSpec os lg specName dir (driver @ ''.'' @ ext)) s) =
    Inl (GoError (''unknown-driver-extension: '' @ b))"
proof -
  have "1 < length (Split driver CHR ''.'')" using assms(1) by (rule Split_dotted_length)
  then have "Split (driver @ ''.'' @ ext) CHR ''.'' ! 1 = b"
    using assms(2) Split_append [of driver "CHR ''.''" ext] by (simp add: nth_append)
  then have "kind_of (driver @ ''.'' @ ext) = UnknownKind b"
    using assms(3) by (simp add: kind_of_def Let_def)
  then show ?thesis by (simp add: ReadDriverSpec_outcome read_result_def)
qed

text \<open>A file name without a dot is no error: the result is the empty spec, without even
  the name.\<close>

theorem read_no_extension:
  assumes "CHR ''.'' \<notin> set specFile"
  shows "fst (run_state (ReadDriverSpec os lg specName dir specFile) s) = Inr zero_DriverSpec"
  using assms by (simp add: ReadDriverSpec_outcome read_result_def kind_of_def)

text \<open>Property C38. The address read from a \<^verbatim>\<open>.spec\<close> file is at most one read buffer long and has no
  line feed, however long the first line of the file is.\<close>

theorem spec_address_bounded:
  assumes "kind_of specFile = SpecFile"
    and "fst (run_state (ReadDriverSpec os lg specName dir specFile) s) = Inr d"
  shows "length (DriverSpec_Address d) \<le> 4096 \<and> newline \<notin> set (DriverSpec_Address d)"
proof -
  from assms obtain r l p where "ReadLine r = Inr (l, p)" "DriverSpec_Address d = l"
    by (auto simp: ReadDriverSpec_outcome read_result_def with_action_def line_spec_def Let_def
        split: sum.splits)
  then show ?thesis using ReadLine_bound [of r l p] by (simp add: bufio_size_def)
qed

text \<open>A driver name without a slash is written inside the plug-in directory, and different
  names go to different files.\<close>

theorem write_inside:
  assumes "CHR ''/'' \<notin> set driver" and "CHR ''/'' \<notin> set driver'" and "ext \<in> {''sock'', ''spec'', ''json''}"
  shows "path_Join dir (driver @ ''.'' @ ext) = dir_prefix dir @ driver @ ''.'' @ ext \<and>
    (path_Join dir (driver @ ''.'' @ ext) = path_Join dir (driver' @ ''.'' @ ext) \<longleftrightarrow> driver = driver')"
proof -
  have "plain_file (d @ ''.'' @ ext)" if "CHR ''/'' \<notin> set d" for d
    using that assms(3) by (auto simp: plain_file_def Cons_eq_append_conv append_eq_Cons_conv)
  then show ?thesis using assms(1,2) by (simp add: path_Join_plain)
qed

section \<open>Instances\<close>

definition empty_fs :: file_system where
  "empty_fs = \<lparr>log = [], fs_files = Map.empty, fs_handles = []\<rparr>"

definition fs_with :: "string \<Rightarrow> string \<Rightarrow> file_system" where
  "fs_with p contents = \<lparr>log = [], fs_files = [p \<mapsto> contents], fs_handles = []\<rparr>"

abbreviation sample_spec :: DriverSpec where
  "sample_spec \<equiv> \<lparr>DriverSpec_Name = ''nfs'', DriverSpec_Address = ''http://0.0.0.0:8080'',
     DriverSpec_TLSConfig = Some \<lparr>InsecureSkipVerify = True, CAFile = ''ca'', CertFile = ''cert'', KeyFile = ''key''\<rparr>,
     DriverSpec_UniqueVolumeIds = True\<rparr>"

lemma strings_valid_sample: "strings_valid (DriverSpec_json sample_spec)"
  by (simp add: DriverSpec_json_def TLSConfig_json_def nilable_json_def valid_utf8_ascii)

lemma healthy_write:
  "run_state (WriteDriverSpec healthy lg dir driver ext contents) s =
    (None, s\<lparr>fs_files := (fs_files s)(path_Join dir (driver @ ''.'' @ ext) \<mapsto> contents)\<rparr>)"
  by (simp add: WriteDriverSpec_outcome [OF refl] write_outcome_def apply_write_def healthy_def)

theorem spec_json_roundtrip_witness:
  "fst (run_state (ReadDriverSpec healthy ''t'' ''other'' ''/plugins'' ''nfs.json'')
      (empty_fs\<lparr>fs_files := [path_Join ''/plugins'' ''nfs.json'' \<mapsto> print_json (DriverSpec_json sample_spec)]\<rparr>)) =
    Inr (sample_spec\<lparr>DriverSpec_Name := ''other''\<rparr>)"
  using spec_json_roundtrip [where driver = "''nfs''" and d = sample_spec and os = healthy and dir = "''/plugins''"
      and lg = "''t''" and specName = "''other''" and s = empty_fs, OF _ strings_valid_sample healthy_write]
  by (simp add: healthy_def empty_fs_def)

theorem spec_line_roundtrip_witness:
  "fst (run_state (ReadDriverSpec healthy ''t'' ''nfs'' ''/plugins'' ''nfs.spec'')
      (empty_fs\<lparr>fs_files := [path_Join ''/plugins'' ''nfs.spec'' \<mapsto> ''http://a'' @ newline # ''rest'']\<rparr>)) =
    Inr \<lparr>DriverSpec_Name = ''nfs'', DriverSpec_Address = ''http://a'', DriverSpec_TLSConfig = None,
         DriverSpec_UniqueVolumeIds = False\<rparr>"
  using spec_line_roundtrip [where driver = "''nfs''" and addr = "''http://a''" and rest = "''rest''"
      and os = healthy and dir = "''/plugins''" and lg = "''t''" and specName = "''nfs''" and s = empty_fs,
      OF _ _ _ _ healthy_write]
  by (simp add: healthy_def empty_fs_def newline_def bufio_size_def)

theorem read_dotted_name_witness:
  "fst (run_state (ReadDriverSpec healthy ''t'' ''my.nfs.driver'' ''/plugins'' ''my.nfs.driver.json'') empty_fs) =
    Inl (GoError ''unknown-driver-extension: nfs'')"
  using read_dotted_name [of "''my.nfs.driver''" "''nfs''" healthy "''t''" "''my.nfs.driver''" "''/plugins''" "''json''" empty_fs] by simp

theorem read_no_extension_witness:
  "fst (run_state (ReadDriverSpec healthy ''t'' ''nfs'' ''/plugins'' ''nfs'') empty_fs) = Inr zero_DriverSpec"
  using read_no_extension [of "''nfs''" healthy "''t''" "''nfs''" "''/plugins''" empty_fs] by simp

theorem spec_address_bounded_witness:
  "length ''http://a'' \<le> 4096 \<and> newline \<notin> set ''http://a''"
proof -
  let ?s = "fs_with (path_Join ''/p'' ''n.spec'') ''http://a''"
  have kind: "kind_of ''n.spec'' = SpecFile" by (simp add: kind_of_def)
  have "fst (run_state (ReadDriverSpec healthy ''t'' ''n'' ''/p'' ''n.spec'') ?s) =
      Inr (zero_DriverSpec\<lparr>DriverSpec_Name := ''n'', DriverSpec_Address := ''http://a''\<rparr>)"
    by (simp add: ReadDriverSpec_outcome read_result_def kind fs_with_def healthy_def opened_def os_Open_def
        with_action_def line_spec_def ReadLine_def bufio_size_def newline_def Let_def)
  from spec_address_bounded [OF kind this] show ?thesis by simp
qed

theorem write_inside_witness:
  "path_Join ''/plugins/'' ''nfs.spec'' = ''/plugins/nfs.spec'' \<and>
    path_Join ''/plugins/'' ''smb.spec'' \<noteq> ''/plugins/nfs.spec''"
  using write_inside [of "''nfs''" "''smb''" "''spec''" "''/plugins/''"]
  by (auto simp: dir_prefix_def path_Clean_def clean_step_def Let_def)

end
