(* ===== verification/Integration_Config.thy ===== *)
theory Integration_Config
  imports Driver_Spec
begin

text \<open>
  \<^verbatim>\<open>integration/config.go\<close>: the configuration of the certification tests, a JSON file named by
  the environment variable \<^verbatim>\<open>CONFIG\<close>. The environment (\<open>os.LookupEnv\<close>) is a function from names
  to values; the file system is that of \<open>Go_Files\<close>, where \<open>os.ReadFile\<close> finds the file by the
  name it is given.
\<close>

section \<open>The configuration\<close>

record 'f Config =
  Config_CreateConfig :: "'f CreateRequest"
  Config_Driver :: string
  Config_DriverName :: string
  Config_DriverAddress :: string
  Config_DriverArgs :: "string list nilable"
  Config_TLSConfig :: "TLSConfig nilable"

definition zero_Config :: "'f Config" where
  "zero_Config =
     \<lparr>Config_CreateConfig = zero_CreateRequest, Config_Driver = '''', Config_DriverName = '''',
      Config_DriverAddress = '''', Config_DriverArgs = None, Config_TLSConfig = None\<rparr>"

text \<open>The fields under their tags, as \<open>json.Unmarshal\<close> fills them and \<open>json.Marshal\<close> writes them; a
  nil TLS configuration is omitted (\<open>omitempty\<close>).\<close>

definition dec_Config :: "'f strconv \<Rightarrow> 'f Config decoder" where
  "dec_Config fl =
     dec_struct_of ''integration'' ''Config''
       [struct_field ''create_config'' Config_CreateConfig Config_CreateConfig_update (dec_CreateRequest fl),
        struct_field ''driver'' Config_Driver Config_Driver_update dec_string,
        struct_field ''driver_name'' Config_DriverName Config_DriverName_update dec_string,
        struct_field ''driver_address'' Config_DriverAddress Config_DriverAddress_update dec_string,
        struct_field ''driver_args'' Config_DriverArgs Config_DriverArgs_update (dec_slice dec_string '''' ''[]string''),
        struct_field ''tls_config'' Config_TLSConfig Config_TLSConfig_update (dec_pointer dec_TLSConfig zero_TLSConfig)]"

definition Config_json :: "'f strconv \<Rightarrow> 'f Config \<Rightarrow> go_error + json" where
  "Config_json fl c =
     bind_ok (CreateRequest_json fl (Config_CreateConfig c)) (\<lambda>create_config.
       Inr (JObj ([(''create_config'', create_config),
                   (''driver'', JStr (Config_Driver c)),
                   (''driver_name'', JStr (Config_DriverName c)),
                   (''driver_address'', JStr (Config_DriverAddress c)),
                   (''driver_args'', nilable_json (\<lambda>ss. JArr (map JStr ss)) (Config_DriverArgs c))] @
                  (case Config_TLSConfig c of None \<Rightarrow> [] | Some t \<Rightarrow> [(''tls_config'', TLSConfig_json t)]))))"

lemma to_upper_underscore [simp]: "to_upper CHR ''_'' = CHR ''_''"
  by (simp add: to_upper_def)

lemma fold_config_names [simp]:
  "fold_name ''create_config'' = ''CREATE_CONFIG''"
  "fold_name ''driver'' = ''DRIVER''"
  "fold_name ''driver_name'' = ''DRIVER_NAME''"
  "fold_name ''driver_address'' = ''DRIVER_ADDRESS''"
  "fold_name ''driver_args'' = ''DRIVER_ARGS''"
  "fold_name ''tls_config'' = ''TLS_CONFIG''"
  by (simp_all add: fold_name.simps)

section \<open>Loading it\<close>

text \<open>\<open>os.ReadFile\<close> closes the file it opened on every path; the \<^verbatim>\<open>defer\<close> drops what \<open>Close\<close> reports.\<close>

definition os_ReadFile :: "operating_system \<Rightarrow> string \<Rightarrow> (go_error + string) fs" where
  "os_ReadFile os name = do {
     file \<leftarrow> os_Open os name;
     (case file of
        Inl err \<Rightarrow> State_Monad.return (Inl err)
      | Inr r \<Rightarrow> do {
          file_Close os name;
          State_Monad.return (case ReadAll r of (bytes, None) \<Rightarrow> Inr bytes | (_, Some err) \<Rightarrow> Inl err)
        })
   }"

datatype 'a outcome = Panic string | Return 'a

definition LoadConfig ::
  "'f strconv \<Rightarrow> operating_system \<Rightarrow> (string \<Rightarrow> string option) \<Rightarrow> (go_error + 'f Config) outcome fs" where
  "LoadConfig fl os LookupEnv =
     (case LookupEnv ''CONFIG'' of
        None \<Rightarrow> State_Monad.return (Panic ''CONFIG not set'')
      | Some fileName \<Rightarrow> do {
          bytes \<leftarrow> os_ReadFile os fileName;
          (case bytes of
             Inl err \<Rightarrow> State_Monad.return (Return (Inl err))
           | Inr bytes \<Rightarrow>
               (case Unmarshal (dec_Config fl) zero_Config bytes of
                  Inl err \<Rightarrow> State_Monad.return (Return (Inl err))
                | Inr c \<Rightarrow> State_Monad.return (Return (Inr c))))
        })"

text \<open>What a file can be read as.\<close>

definition file_contents :: "operating_system \<Rightarrow> string \<Rightarrow> file_system \<Rightarrow> go_error + string" where
  "file_contents os name s =
     (case os_refuses_Open os name of
        Some e \<Rightarrow> Inl e
      | None \<Rightarrow>
          (case fs_files s name of
             None \<Rightarrow> Inl (GoError (''open '' @ name @ '': no such file or directory''))
           | Some bs \<Rightarrow> (case os_refuses_Read os name of None \<Rightarrow> Inr bs | Some (_, e) \<Rightarrow> Inl e)))"

lemma run_ReadFile [simp]: "run_state (os_ReadFile os name) s = (file_contents os name s, s)"
  by (simp add: os_ReadFile_def file_contents_def go_defs ReadAll_def split: option.split)

lemma run_LoadConfig:
  "run_state (LoadConfig fl os LookupEnv) s =
    (case LookupEnv ''CONFIG'' of
       None \<Rightarrow> Panic ''CONFIG not set''
     | Some name \<Rightarrow> Return (bind_ok (file_contents os name s) (Unmarshal (dec_Config fl) zero_Config)), s)"
  by (simp add: LoadConfig_def bind_ok_case split: option.split sum.split)

text \<open>Decoding what was encoded, whatever the options, arguments and TLS configuration.\<close>

lemma decode_Config:
  assumes "strconv_exact fl" and "Config_json fl c = Inr j" and "request_maps_ok (Config_CreateConfig c)"
  shows "dec_Config fl ctx j zero_Config = Inr c" and "numbers_ok j"
proof -
  from assms(2) obtain q where q: "CreateRequest_json fl (Config_CreateConfig c) = Inr q"
    and j: "j = JObj ([(''create_config'', q), (''driver'', JStr (Config_Driver c)),
        (''driver_name'', JStr (Config_DriverName c)), (''driver_address'', JStr (Config_DriverAddress c)),
        (''driver_args'', nilable_json (\<lambda>ss. JArr (map JStr ss)) (Config_DriverArgs c))] @
      (case Config_TLSConfig c of None \<Rightarrow> [] | Some t \<Rightarrow> [(''tls_config'', TLSConfig_json t)]))"
    by (auto simp: Config_json_def bind_ok_Inr_iff)
  note create = decode_CreateRequest [OF assms(1) q assms(3)]
  have args: "dec_slice dec_string '''' ''[]string'' cx
      (nilable_json (\<lambda>ss. JArr (map JStr ss)) (Config_DriverArgs c)) None = Inr (Config_DriverArgs c)" for cx
    by (cases "Config_DriverArgs c") (simp_all add: dec_slice_def nilable_json_def dec_elems_map)
  have tls: "dec_pointer dec_TLSConfig zero_TLSConfig cx (TLSConfig_json t) None = Inr (Some t)" for cx t
    using wire_TLSConfig.decode [of cx t] by (simp add: dec_pointer_def TLSConfig_json_def)
  show "dec_Config fl ctx j zero_Config = Inr c"
    unfolding j dec_Config_def dec_struct_of_def zero_Config_def
    by (cases "Config_TLSConfig c") (simp_all add: create args tls)
  show "numbers_ok j"
    unfolding j by (cases "Config_TLSConfig c"; cases "Config_DriverArgs c")
      (simp_all add: create nilable_json_def list_all_iff TLSConfig_json_def)
qed

section \<open>Properties\<close>

text \<open>Property C30. A configuration written as JSON under its tags, with strings in UTF-8, is loaded as it was
  when the file can be opened and read: the options of the volume to create, nil and empty argument
  lists, a TLS configuration or none. Options are what JSON can carry, nested no deeper than the
  parser allows, and floating-point numbers are read back as they were printed.\<close>

theorem load_config_roundtrip:
  assumes "strconv_exact fl" and "Config_json fl c = Inr j" and "request_maps_ok (Config_CreateConfig c)"
    and "strings_valid j" and "json_depth j \<le> maxNestingDepth"
    and "LookupEnv ''CONFIG'' = Some name" and "fs_files s name = Some (print_json j)"
    and "os_refuses_Open os name = None" and "os_refuses_Read os name = None"
  shows "run_state (LoadConfig fl os LookupEnv) s = (Return (Inr c), s)"
proof -
  have "parse_json (print_json j) = Inr j"
    using decode_Config(2) [OF assms(1-3)] assms(4,5) by (simp add: parse_print_valid)
  then have "Unmarshal (dec_Config fl) zero_Config (print_json j) = Inr c"
    using decode_Config(1) [OF assms(1-3)] by (simp add: Unmarshal_def)
  with assms(6-9) show ?thesis by (simp add: run_LoadConfig file_contents_def)
qed

text \<open>Loading leaves the file system as it was, every handle closed. It panics exactly when
  \<^verbatim>\<open>CONFIG\<close> is not set; otherwise the first error decides, of opening or reading the file or of its
  contents, and a configuration comes back only for contents that decode to it.\<close>

theorem load_config_outcomes:
  "case run_state (LoadConfig fl os LookupEnv) s of (r, s') \<Rightarrow> s' = s \<and>
    (case r of
       Panic msg \<Rightarrow> msg = ''CONFIG not set'' \<and> LookupEnv ''CONFIG'' = None
     | Return (Inl err) \<Rightarrow> (\<exists>name. LookupEnv ''CONFIG'' = Some name \<and>
         (file_contents os name s = Inl err \<or>
          (\<exists>bs. file_contents os name s = Inr bs \<and> Unmarshal (dec_Config fl) zero_Config bs = Inl err)))
     | Return (Inr c) \<Rightarrow> (\<exists>name bs. LookupEnv ''CONFIG'' = Some name \<and>
         file_contents os name s = Inr bs \<and> Unmarshal (dec_Config fl) zero_Config bs = Inr c))"
  by (auto simp: run_LoadConfig bind_ok_case split: option.split sum.split)

definition sample_config :: "unit Config" where
  "sample_config =
     \<lparr>Config_CreateConfig = \<lparr>CreateRequest_Name = ''vol'', CreateRequest_Opts = Some [(''share'', VString ''nfs://h''), (''uid'', VBool True)]\<rparr>,
      Config_Driver = ''/bin/driver'', Config_DriverName = ''nfs'', Config_DriverAddress = ''http://127.0.0.1:7589'',
      Config_DriverArgs = Some [''-debug''],
      Config_TLSConfig = Some \<lparr>InsecureSkipVerify = True, CAFile = ''ca'', CertFile = ''c'', KeyFile = ''k''\<rparr>\<rparr>"

definition exact_floats :: "unit strconv" where
  "exact_floats = \<lparr>ParseFloat = (\<lambda>_. None), FormatFloat = (\<lambda>_. Inl (GoError ''json: unsupported value: NaN''))\<rparr>"

theorem load_config_roundtrip_witness:
  "\<exists>j. Config_json exact_floats sample_config = Inr j \<and>
    fst (run_state (LoadConfig exact_floats healthy [''CONFIG'' \<mapsto> ''c.json''])
      \<lparr>log = [], fs_files = [''c.json'' \<mapsto> print_json j], fs_handles = []\<rparr>) = Return (Inr sample_config)"
proof -
  have floats: "strconv_exact exact_floats" by (simp add: strconv_exact_def exact_floats_def)
  obtain j where j: "Config_json exact_floats sample_config = Inr j" and valid: "strings_valid j"
    and depth: "json_depth j \<le> maxNestingDepth"
    by (auto simp: sample_config_def Config_json_def CreateRequest_json_def nilable_json_def TLSConfig_json_def
        valid_utf8_ascii maxNestingDepth_def)
  have maps: "request_maps_ok (Config_CreateConfig sample_config)"
    by (simp add: request_maps_ok_def sample_config_def is_gomap_def)
  show ?thesis
    using load_config_roundtrip [OF floats j maps valid depth, of "[''CONFIG'' \<mapsto> ''c.json'']" "''c.json''"
        "\<lparr>log = [], fs_files = [''c.json'' \<mapsto> print_json j], fs_handles = []\<rparr>" healthy] j
    by (simp add: healthy_def)
qed

end
