(* ===== verification/Lager.thy ===== *)
theory Lager
  imports Env
begin

text \<open>
  The loggers behind the environments (vendored \<^verbatim>\<open>code.cloudfoundry.org/lager/v3/logger.go\<close>), for
  the methods the repository calls. Loggers are objects: \<open>Session\<close> counts in the logger it is called
  on, which requests share. Each method is one step on the heap of loggers, since the counter is
  atomic and nothing else of a logger changes once it is in use. Elsewhere a logger is its task
  alone (\<open>Env\<close>); here that view is shown to be what a sink sees, and the ids that lager gives its
  sessions to tell them apart. Sinks are numbers; time stamps are left out.
\<close>

section \<open>Loggers\<close>

text \<open>\<open>lager.Data\<close>: lager itself puts strings in, callers any value.\<close>

datatype 'v data_value = TextValue string | OtherValue 'v

type_synonym 'v log_data = "string \<rightharpoonup> 'v data_value"

record 'v lager =
  lg_component :: string
  lg_task :: string
  lg_sinks :: "nat list"
  lg_sessionID :: string
  lg_nextSession :: "32 word"
  lg_data :: "'v log_data"

record 'v LogFormat =
  lf_Source :: string
  lf_Message :: string
  lf_LogLevel :: log_level
  lf_Data :: "'v log_data"
  lf_Error :: "go_error option"

text \<open>Loggers by address, and what was handed to each sink, in order.\<close>

record 'v lager_state =
  loggers :: "'v lager list"
  sunk :: "(nat \<times> 'v LogFormat) list"

definition NewLogger :: "string \<Rightarrow> 'v lager_state \<Rightarrow> nat \<times> 'v lager_state" where
  "NewLogger component s =
     (length (loggers s),
      s\<lparr>loggers := loggers s @ [\<lparr>lg_component = component, lg_task = component, lg_sinks = [], lg_sessionID = '''',
        lg_nextSession = 0, lg_data = Map.empty\<rparr>]\<rparr>)"

definition RegisterSink :: "nat \<Rightarrow> nat \<Rightarrow> 'v lager_state \<Rightarrow> 'v lager_state" where
  "RegisterSink l sink s =
     s\<lparr>loggers := (loggers s)[l := (loggers s ! l)\<lparr>lg_sinks := lg_sinks (loggers s ! l) @ [sink]\<rparr>]\<rparr>"

text \<open>Later data wins, and the session id over all.\<close>

definition baseData :: "'v lager \<Rightarrow> 'v log_data list \<Rightarrow> 'v log_data" where
  "baseData l givenData =
     (let data = fold (\<lambda>dataArg data. data ++ dataArg) givenData (lg_data l)
      in if lg_sessionID l \<noteq> '''' then data(''session'' \<mapsto> TextValue (lg_sessionID l)) else data)"

definition lager_Session :: "nat \<Rightarrow> string \<Rightarrow> 'v log_data list \<Rightarrow> 'v lager_state \<Rightarrow> nat \<times> 'v lager_state" where
  "lager_Session l task data s =
     (let this = loggers s ! l;
          sid = lg_nextSession this + 1;
          sessionIDstr = (if lg_sessionID this \<noteq> '''' then lg_sessionID this @ ''.'' @ nat_dec (unat sid)
                          else nat_dec (unat sid));
          child = \<lparr>lg_component = lg_component this, lg_task = lg_task this @ ''.'' @ task, lg_sinks = lg_sinks this,
                   lg_sessionID = sessionIDstr, lg_nextSession = 0, lg_data = baseData this data\<rparr>
      in (length (loggers s), s\<lparr>loggers := (loggers s)[l := this\<lparr>lg_nextSession := sid\<rparr>] @ [child]\<rparr>))"

definition sink_all :: "nat list \<Rightarrow> 'v LogFormat \<Rightarrow> 'v lager_state \<Rightarrow> 'v lager_state" where
  "sink_all sinks lf s = s\<lparr>sunk := sunk s @ map (\<lambda>sink. (sink, lf)) sinks\<rparr>"

definition lager_Debug :: "nat \<Rightarrow> string \<Rightarrow> 'v log_data list \<Rightarrow> 'v lager_state \<Rightarrow> 'v lager_state" where
  "lager_Debug l action data s =
     (let this = loggers s ! l
      in sink_all (lg_sinks this)
           \<lparr>lf_Source = lg_component this, lf_Message = lg_task this @ ''.'' @ action, lf_LogLevel = DEBUG,
            lf_Data = baseData this data, lf_Error = None\<rparr> s)"

definition lager_Info :: "nat \<Rightarrow> string \<Rightarrow> 'v log_data list \<Rightarrow> 'v lager_state \<Rightarrow> 'v lager_state" where
  "lager_Info l action data s =
     (let this = loggers s ! l
      in sink_all (lg_sinks this)
           \<lparr>lf_Source = lg_component this, lf_Message = lg_task this @ ''.'' @ action, lf_LogLevel = INFO,
            lf_Data = baseData this data, lf_Error = None\<rparr> s)"

definition lager_Error :: "nat \<Rightarrow> string \<Rightarrow> go_error option \<Rightarrow> 'v log_data list \<Rightarrow> 'v lager_state \<Rightarrow> 'v lager_state" where
  "lager_Error l action err data s =
     (let this = loggers s ! l;
          logData = (case err of None \<Rightarrow> baseData this data
                     | Some e \<Rightarrow> (baseData this data)(''error'' \<mapsto> TextValue (Error e)))
      in sink_all (lg_sinks this)
           \<lparr>lf_Source = lg_component this, lf_Message = lg_task this @ ''.'' @ action, lf_LogLevel = ERROR,
            lf_Data = logData, lf_Error = err\<rparr> s)"

section \<open>Uses of a logger\<close>

text \<open>The methods the repository calls, on a logger by its address; the new logger of \<open>OpSession\<close> is
  the next address.\<close>

datatype 'v log_op =
    OpSession nat string "'v log_data list"
  | OpDebug nat string "'v log_data list"
  | OpInfo nat string "'v log_data list"
  | OpError nat string "go_error option" "'v log_data list"

fun op_logger :: "'v log_op \<Rightarrow> nat" where
  "op_logger (OpSession l task data) = l"
| "op_logger (OpDebug l action data) = l"
| "op_logger (OpInfo l action data) = l"
| "op_logger (OpError l action err data) = l"

text \<open>The uses that make an entry, and what they say.\<close>

fun makes_entry :: "'v log_op \<Rightarrow> bool" where
  "makes_entry (OpSession l task data) \<longleftrightarrow> False"
| "makes_entry _ \<longleftrightarrow> True"

fun op_action :: "'v log_op \<Rightarrow> string" where
  "op_action (OpSession l task data) = task"
| "op_action (OpDebug l action data) = action"
| "op_action (OpInfo l action data) = action"
| "op_action (OpError l action err data) = action"

fun lager_do :: "'v log_op \<Rightarrow> 'v lager_state \<Rightarrow> 'v lager_state" where
  "lager_do (OpSession l task data) s = snd (lager_Session l task data s)"
| "lager_do (OpDebug l action data) s = lager_Debug l action data s"
| "lager_do (OpInfo l action data) s = lager_Info l action data s"
| "lager_do (OpError l action err data) s = lager_Error l action err data s"

text \<open>A sequence of uses, each of a logger that exists by then: any interleaving of what goroutines
  do with loggers they share.\<close>

inductive lager_run :: "'v lager_state \<Rightarrow> 'v log_op list \<Rightarrow> 'v lager_state \<Rightarrow> bool" where
  lager_nil: "lager_run s [] s"
| lager_snoc: "lager_run s ops s' \<Longrightarrow> op_logger a < length (loggers s') \<Longrightarrow> lager_run s (ops @ [a]) (lager_do a s')"

text \<open>A root logger with one sink.\<close>

definition lager_start :: "string \<Rightarrow> 'v lager_state" where
  "lager_start component = RegisterSink 0 0 (snd (NewLogger component \<lparr>loggers = [], sunk = []\<rparr>))"

lemma lager_start_simps [simp]:
  "loggers (lager_start c) = [\<lparr>lg_component = c, lg_task = c, lg_sinks = [0], lg_sessionID = '''', lg_nextSession = 0, lg_data = Map.empty\<rparr>]"
  "sunk (lager_start c) = []"
  by (simp_all add: lager_start_def RegisterSink_def NewLogger_def)

section \<open>The loggers of the environments\<close>

text \<open>The same uses on loggers that are tasks, with the entries of \<open>Env\<close>.\<close>

record task_state = log_state +
  tasks :: "logger list"

fun env_do :: "'v log_op \<Rightarrow> task_state \<Rightarrow> task_state" where
  "env_do (OpSession l task data) s = s\<lparr>tasks := tasks s @ [Session (tasks s ! l) task]\<rparr>"
| "env_do (OpDebug l action data) s = snd (run_state (log_Debug (tasks s ! l) action) s)"
| "env_do (OpInfo l action data) s = snd (run_state (log_Info (tasks s ! l) action) s)"
| "env_do (OpError l action err data) s = snd (run_state (log_Error (tasks s ! l) action err) s)"

definition entry_of :: "'v LogFormat \<Rightarrow> log_entry" where
  "entry_of f = LogEntry (lf_LogLevel f) (lf_Message f) (map_option Error (lf_Error f))"

definition as_tasks :: "'v lager_state \<Rightarrow> task_state" where
  "as_tasks s = \<lparr>log = map (\<lambda>(sink, f). entry_of f) (sunk s), tasks = map lg_task (loggers s)\<rparr>"

definition one_sink :: "'v lager_state \<Rightarrow> bool" where
  "one_sink s \<longleftrightarrow> list_all (\<lambda>l. length (lg_sinks l) = 1) (loggers s)"

lemmas lager_defs = lager_Session_def lager_Debug_def lager_Info_def lager_Error_def sink_all_def Let_def

lemma one_sink_at: "one_sink s \<Longrightarrow> l < length (loggers s) \<Longrightarrow> \<exists>k. lg_sinks (loggers s ! l) = [k]"
  by (auto simp: one_sink_def list_all_length length_Suc_conv)

lemma lager_do_tasks:
  assumes "one_sink s" and "op_logger a < length (loggers s)"
  shows "as_tasks (lager_do a s) = env_do a (as_tasks s)" and "one_sink (lager_do a s)"
proof -
  obtain k where k: "lg_sinks (loggers s ! op_logger a) = [k]" using one_sink_at [OF assms] by blast
  have upd: "map lg_task (xs[i := (xs ! i)\<lparr>lg_nextSession := n\<rparr>]) = map lg_task xs" if "i < length xs" for xs i n
    using that by (simp add: map_update list_update_same_conv)
  show "as_tasks (lager_do a s) = env_do a (as_tasks s)"
    using assms(2) k by (cases a) (simp_all add: lager_defs as_tasks_def upd Session_def log_defs entry_of_def)
  show "one_sink (lager_do a s)"
    using assms k by (cases a) (auto simp: lager_defs one_sink_def list_all_length nth_append nth_list_update)
qed

lemma lager_run_tasks:
  "lager_run s ops s' \<Longrightarrow> one_sink s \<Longrightarrow> as_tasks s' = fold env_do ops (as_tasks s) \<and> one_sink s'"
  by (induction rule: lager_run.induct) (simp_all add: lager_do_tasks)

section \<open>Session ids\<close>

text \<open>A session id is the path of counters from the root, in decimal with dots.\<close>

fun dotted :: "nat list \<Rightarrow> string" where
  "dotted [] = ''''"
| "dotted [n] = nat_dec n"
| "dotted (n # m # ns) = nat_dec n @ ''.'' @ dotted (m # ns)"

lemma nat_dec_inject: "nat_dec m = nat_dec n \<longleftrightarrow> m = n"
  by (metis dec_value_nat_dec option.inject)

lemma nat_dec_no_dot: "CHR ''.'' \<notin> set (nat_dec n)"
  using nat_dec_digits [of n] by (force simp: list_all_iff is_digit_def)

lemma nat_dec_not_Nil [simp]: "nat_dec n \<noteq> []"
  using nat_dec_first [of n] by auto

lemma dotted_snoc: "dotted (ns @ [k]) = (if ns = [] then nat_dec k else dotted ns @ ''.'' @ nat_dec k)"
  by (induction ns rule: dotted.induct) simp_all

lemma dotted_Nil [simp]: "dotted ns = [] \<longleftrightarrow> ns = []"
  by (cases ns rule: dotted.cases) simp_all

lemma Split_dotted: "ns \<noteq> [] \<Longrightarrow> Split (dotted ns) CHR ''.'' = map nat_dec ns"
  by (induction ns rule: dotted.induct) (simp_all add: nat_dec_no_dot Split_append_sep)

lemma dotted_inject: "dotted ms = dotted ns \<longleftrightarrow> ms = ns"
proof (cases "ms = [] \<or> ns = []")
  case True
  then show ?thesis by (metis dotted_Nil)
next
  case False
  have "inj nat_dec" by (simp add: inj_def nat_dec_inject)
  with False show ?thesis by (metis Split_dotted inj_map_eq_map)
qed

text \<open>Where the loggers stand: logger \<open>i\<close> at \<open>p ! i\<close>, and a counter has passed every child.\<close>

definition placed_at :: "nat list list \<Rightarrow> 'v lager list \<Rightarrow> bool" where
  "placed_at p ls \<longleftrightarrow>
     length p = length ls \<and> distinct p \<and> (\<forall>ns k. ns @ [k] \<in> set p \<longrightarrow> ns \<in> set p) \<and>
     (\<forall>i < length ls. lg_sessionID (ls ! i) = dotted (p ! i) \<and> unat (lg_nextSession (ls ! i)) < length ls) \<and>
     (\<forall>i < length ls. \<forall>k. p ! i @ [k] \<in> set p \<longrightarrow> k \<le> unat (lg_nextSession (ls ! i)))"

lemma placed_at_session:
  assumes p: "placed_at p (loggers s)" and l: "l < length (loggers s)" and few: "length (loggers s) < 2 ^ 32"
  shows "\<exists>q. placed_at (p @ [q]) (loggers (snd (lager_Session l task data s)))"
proof -
  let ?ls = "loggers s" and ?n = "lg_nextSession (loggers s ! l)"
  let ?q = "p ! l @ [unat (?n + 1)]" and ?ls' = "loggers (snd (lager_Session l task data s))"
  from p have len: "length p = length ?ls" and dist: "distinct p"
    and closed: "\<And>ns k. ns @ [k] \<in> set p \<Longrightarrow> ns \<in> set p"
    and id: "\<And>i. i < length ?ls \<Longrightarrow> lg_sessionID (?ls ! i) = dotted (p ! i) \<and> unat (lg_nextSession (?ls ! i)) < length ?ls"
    and counted: "\<And>i k. i < length ?ls \<Longrightarrow> p ! i @ [k] \<in> set p \<Longrightarrow> k \<le> unat (lg_nextSession (?ls ! i))"
    by (auto simp: placed_at_def)
  have next_id: "unat (?n + 1) = unat ?n + 1"
    using id [OF l] few by (simp add: unat_word_ariths)
  have new: "?q \<notin> set p"
    using counted [OF l, of "unat (?n + 1)"] next_id by auto
  have child: "?ls' ! length ?ls = \<lparr>lg_component = lg_component (?ls ! l), lg_task = lg_task (?ls ! l) @ ''.'' @ task,
      lg_sinks = lg_sinks (?ls ! l), lg_sessionID = dotted ?q, lg_nextSession = 0, lg_data = baseData (?ls ! l) data\<rparr>"
    using id [OF l] by (simp add: lager_Session_def Let_def nth_append dotted_snoc)
  have old: "?ls' ! i = (if i = l then (?ls ! l)\<lparr>lg_nextSession := ?n + 1\<rparr> else ?ls ! i)" if "i < length ?ls" for i
    using that by (simp add: lager_Session_def Let_def nth_append)
  have len': "length ?ls' = Suc (length ?ls)" by (simp add: lager_Session_def Let_def)
  have at_end: "(p @ [?q]) ! length ?ls = ?q" by (simp add: len [symmetric])
  have ids: "lg_sessionID (?ls' ! i) = dotted ((p @ [?q]) ! i) \<and> unat (lg_nextSession (?ls' ! i)) < length ?ls'"
    if "i < length ?ls'" for i
  proof (cases "i < length ?ls")
    case True
    with id [OF True] id [OF l] next_id show ?thesis by (simp add: old len' len nth_append less_SucI)
  next
    case False
    with that have "i = length ?ls" by (simp add: len')
    then show ?thesis by (simp add: child at_end len')
  qed
  have counts: "k \<le> unat (lg_nextSession (?ls' ! i))"
    if "i < length ?ls'" and k: "(p @ [?q]) ! i @ [k] \<in> set (p @ [?q])" for i k
  proof (cases "i < length ?ls")
    case True
    consider "p ! i @ [k] \<in> set p" | "p ! i = p ! l" "k = unat (?n + 1)"
      using k True len by (auto simp: nth_append)
    then show ?thesis
    proof cases
      case 1
      from counted [OF True 1] show ?thesis using True next_id by (auto simp: old)
    next
      case 2
      then have "i = l" using dist len True l by (simp add: nth_eq_iff_index_eq)
      then show ?thesis using 2(2) l by (simp add: old)
    qed
  next
    case False
    with that(1) have "i = length ?ls" by (simp add: len')
    with k have "?q @ [k] \<in> set p" by (auto simp: at_end)
    with closed new show ?thesis by blast
  qed
  have "placed_at (p @ [?q]) ?ls'"
    unfolding placed_at_def using len len' dist new closed l ids counts by (auto simp del: append_assoc)
  then show ?thesis ..
qed

text \<open>What the sink got for a use: the message of its logger, and the session of its logger unless that
  is the root.\<close>

definition attributed :: "'v lager_state \<Rightarrow> 'v log_op \<Rightarrow> nat \<times> 'v LogFormat \<Rightarrow> bool" where
  "attributed s a r \<longleftrightarrow>
     op_logger a < length (loggers s) \<and>
     lf_Message (snd r) = lg_task (loggers s ! op_logger a) @ ''.'' @ op_action a \<and>
     (op_logger a \<noteq> 0 \<longrightarrow> lf_Data (snd r) ''session'' = Some (TextValue (lg_sessionID (loggers s ! op_logger a))))"

definition lager_inv :: "'v log_op list \<Rightarrow> 'v lager_state \<Rightarrow> bool" where
  "lager_inv ops s \<longleftrightarrow>
     (\<exists>p. placed_at p (loggers s) \<and> p ! 0 = []) \<and> loggers s \<noteq> [] \<and> one_sink s \<and>
     list_all2 (attributed s) (filter makes_entry ops) (sunk s)"

text \<open>Loggers keep their task and their session.\<close>

lemma loggers_Session:
  "\<exists>child. loggers (lager_do (OpSession l task data) s) =
    (loggers s)[l := (loggers s ! l)\<lparr>lg_nextSession := lg_nextSession (loggers s ! l) + 1\<rparr>] @ [child]"
  by (simp add: lager_Session_def Let_def)

lemma loggers_entries [simp]:
  "loggers (lager_Debug l action data s) = loggers s"
  "loggers (lager_Info l action data s) = loggers s"
  "loggers (lager_Error l action err data s) = loggers s"
  by (simp_all add: lager_defs)

lemma lager_do_keeps:
  assumes "i < length (loggers s)"
  shows "i < length (loggers (lager_do a s)) \<and> lg_task (loggers (lager_do a s) ! i) = lg_task (loggers s ! i) \<and>
    lg_sessionID (loggers (lager_do a s) ! i) = lg_sessionID (loggers s ! i)"
proof (cases a)
  case (OpSession l task data)
  obtain child where c: "loggers (lager_do a s) =
      (loggers s)[l := (loggers s ! l)\<lparr>lg_nextSession := lg_nextSession (loggers s ! l) + 1\<rparr>] @ [child]"
    using loggers_Session [of l task data s] unfolding OpSession by blast
  show ?thesis unfolding c using assms by (cases "l = i") (simp_all add: nth_append)
qed (use assms in simp_all)

lemma attributed_kept:
  assumes "attributed s b r"
  shows "attributed (lager_do a s) b r"
  using lager_do_keeps [of "op_logger b" s a] assms by (simp add: attributed_def)

lemma baseData_session: "lg_sessionID l \<noteq> '''' \<Longrightarrow> baseData l data ''session'' = Some (TextValue (lg_sessionID l))"
  by (simp add: baseData_def Let_def)

lemma lager_inv_start: "lager_inv [] (lager_start c)"
  by (auto simp: lager_inv_def placed_at_def one_sink_def intro!: exI [of _ "[[]]"])

lemma placed_at_same:
  assumes "placed_at p ls" and "length ls' = length ls"
    and "\<And>i. i < length ls \<Longrightarrow> lg_sessionID (ls' ! i) = lg_sessionID (ls ! i) \<and> lg_nextSession (ls' ! i) = lg_nextSession (ls ! i)"
  shows "placed_at p ls'"
  using assms by (simp add: placed_at_def)

text \<open>A use that is no \<open>Session\<close> adds one entry to the one sink of its logger.\<close>

lemma lager_do_entry:
  assumes "makes_entry a" and "one_sink s" and "op_logger a < length (loggers s)"
    and named: "op_logger a \<noteq> 0 \<Longrightarrow> lg_sessionID (loggers s ! op_logger a) \<noteq> []"
  shows "loggers (lager_do a s) = loggers s \<and> (\<exists>r. sunk (lager_do a s) = sunk s @ [r] \<and> attributed s a r)"
proof -
  obtain k where k: "lg_sinks (loggers s ! op_logger a) = [k]" using one_sink_at [OF assms(2,3)] by blast
  show ?thesis
    using assms(1,3) k named
    by (cases a) (auto simp: lager_defs attributed_def baseData_session split: option.split)
qed

lemma lager_inv_entry:
  assumes inv: "lager_inv ops s" and l: "op_logger a < length (loggers s)" and entry: "makes_entry a"
  shows "lager_inv (ops @ [a]) (lager_do a s)"
proof -
  from inv obtain p where p: "placed_at p (loggers s)" "p ! 0 = []" and ne: "loggers s \<noteq> []" and sink: "one_sink s"
    and old: "list_all2 (attributed s) (filter makes_entry ops) (sunk s)" by (auto simp: lager_inv_def)
  have named: "lg_sessionID (loggers s ! op_logger a) \<noteq> []" if "op_logger a \<noteq> 0"
  proof -
    from p(1) l have "distinct p" "op_logger a < length p" by (simp_all add: placed_at_def)
    then have "p ! op_logger a \<noteq> p ! 0" using that nth_eq_iff_index_eq [of p "op_logger a" 0] by fastforce
    then show ?thesis using p l by (simp add: placed_at_def)
  qed
  obtain r where r: "loggers (lager_do a s) = loggers s" "sunk (lager_do a s) = sunk s @ [r]" "attributed s a r"
    using lager_do_entry [OF entry sink l named] by blast
  have "attributed (lager_do a s) = attributed s" by (simp add: attributed_def r(1) fun_eq_iff)
  moreover have "one_sink (lager_do a s)" by (rule lager_do_tasks(2) [OF sink l])
  ultimately show ?thesis
    using p ne old r entry by (auto simp: lager_inv_def intro: list_all2_appendI)
qed

lemma lager_inv_session:
  assumes inv: "lager_inv ops s" and l: "op_logger a < length (loggers s)" and few: "length (loggers s) < 2 ^ 32"
    and session: "\<not> makes_entry a"
  shows "lager_inv (ops @ [a]) (lager_do a s)"
proof -
  obtain l' task data where a: "a = OpSession l' task data" using session by (cases a) simp_all
  from inv obtain p where p: "placed_at p (loggers s)" "p ! 0 = []" and ne: "loggers s \<noteq> []" and sink: "one_sink s"
    and old: "list_all2 (attributed s) (filter makes_entry ops) (sunk s)" by (auto simp: lager_inv_def)
  obtain q where q: "placed_at (p @ [q]) (loggers (lager_do a s))"
    using placed_at_session [OF p(1) _ few, of l'] l a by auto
  have "p \<noteq> []" using p(1) ne by (auto simp: placed_at_def)
  then have "(p @ [q]) ! 0 = []" using p(2) by (simp add: nth_append)
  moreover have "loggers (lager_do a s) \<noteq> []" using loggers_Session [of l' task data s] a by auto
  moreover have "sunk (lager_do a s) = sunk s" by (simp add: a lager_defs)
  moreover have "list_all2 (attributed (lager_do a s)) (filter makes_entry ops) (sunk s)"
    by (rule list_all2_mono [OF old]) (rule attributed_kept)
  moreover have "one_sink (lager_do a s)" by (rule lager_do_tasks(2) [OF sink l])
  ultimately show ?thesis using q session unfolding lager_inv_def by auto
qed

lemma loggers_grow: "length (loggers s) \<le> length (loggers (lager_do a s))"
  by (cases a) (simp_all add: lager_Session_def Let_def)

lemma lager_inv_run:
  "lager_run s ops s' \<Longrightarrow> lager_inv [] s \<Longrightarrow> length (loggers s') \<le> 2 ^ 32 \<Longrightarrow> lager_inv ops s'"
proof (induction rule: lager_run.induct)
  case (lager_snoc s ops s' a)
  have "length (loggers s') \<le> 2 ^ 32" using lager_snoc.prems(2) loggers_grow [of s' a] by linarith
  with lager_snoc have inv: "lager_inv ops s'" by blast
  show ?case
  proof (cases "makes_entry a")
    case True
    then show ?thesis by (rule lager_inv_entry [OF inv lager_snoc.hyps(2)])
  next
    case False
    then have "length (loggers (lager_do a s')) = Suc (length (loggers s'))"
      by (cases a) (simp_all add: lager_Session_def Let_def)
    then have "length (loggers s') < 2 ^ 32" using lager_snoc.prems(2) by linarith
    then show ?thesis by (rule lager_inv_session [OF inv lager_snoc.hyps(2) _ False])
  qed
qed

section \<open>Properties\<close>

text \<open>Property C33. For any interleaving of what goroutines do with the loggers they share, what lager hands to
  the sink is what the loggers of the environments log: same levels, messages and errors, in the
  same order, and the same tasks.\<close>

theorem lager_refines:
  assumes "lager_run (lager_start c) ops s"
  shows "as_tasks s = fold env_do ops \<lparr>log = [], tasks = [c]\<rparr>"
  using lager_run_tasks [OF assms] by (simp add: one_sink_def as_tasks_def)

text \<open>Property C34. As long as no more than \<open>2 ^ 32\<close> loggers were made, however goroutines interleave, no two loggers
  have the same session id; and the sink gets one entry for each \<open>Debug\<close>, \<open>Info\<close> and \<open>Error\<close>, in
  their order, each with the message of the logger it was called on and, if that is not the root,
  with the id of that logger as its session, whatever data were given: entries of requests served
  side by side can be told apart.\<close>

theorem session_ids:
  assumes "lager_run (lager_start c) ops s" and "length (loggers s) \<le> 2 ^ 32"
  shows "distinct (map lg_sessionID (loggers s)) \<and>
    list_all2 (\<lambda>a (sink, f). op_logger a < length (loggers s) \<and>
        lf_Message f = lg_task (loggers s ! op_logger a) @ ''.'' @ op_action a \<and>
        (op_logger a \<noteq> 0 \<longrightarrow> lf_Data f ''session'' = Some (TextValue (lg_sessionID (loggers s ! op_logger a)))))
      (filter makes_entry ops) (sunk s)"
proof -
  have inv: "lager_inv ops s" by (rule lager_inv_run [OF assms(1) lager_inv_start assms(2)])
  then obtain p where p: "placed_at p (loggers s)" by (auto simp: lager_inv_def)
  then have "map lg_sessionID (loggers s) = map dotted p" by (intro nth_equalityI) (simp_all add: placed_at_def)
  then have "distinct (map lg_sessionID (loggers s))"
    using p by (simp add: distinct_map inj_on_def dotted_inject placed_at_def)
  with inv show ?thesis by (simp add: lager_inv_def attributed_def [abs_def] case_prod_beta')
qed

text \<open>The counter of a logger wraps: after \<open>2 ^ 32\<close> sessions the next has the id of the first.\<close>

lemma session_counter_wraps:
  assumes "lg_nextSession (loggers s ! l) = 0" and "length (loggers s') = length (loggers s)"
    and "loggers s' ! l = (loggers s ! l)\<lparr>lg_nextSession := of_nat (2 ^ 32)\<rparr>"
  shows "lg_sessionID (last (loggers (snd (lager_Session l task data s')))) =
    lg_sessionID (last (loggers (snd (lager_Session l task data s))))"
  using assms by (simp add: lager_Session_def Let_def)

section \<open>Instances\<close>

text \<open>Two requests, their entries interleaved.\<close>

abbreviation demo_log_ops :: "unit log_op list" where
  "demo_log_ops \<equiv>
     [OpSession 0 ''server'' [], OpSession 1 ''handle-mount'' [], OpSession 1 ''handle-mount'' [],
      OpInfo 3 ''start'' [], OpInfo 2 ''start'' [], OpError 3 ''failed'' (Some (GoError ''busy'')) [[''volume'' \<mapsto> OtherValue ()]]]"

fun lager_fold :: "'v log_op list \<Rightarrow> 'v lager_state \<Rightarrow> 'v lager_state option" where
  "lager_fold [] s = Some s"
| "lager_fold (a # ops) s = (if op_logger a < length (loggers s) then lager_fold ops (lager_do a s) else None)"

lemma lager_run_prefix: "lager_run s ops s' \<Longrightarrow> op_logger a < length (loggers r) \<Longrightarrow> s = lager_do a r \<Longrightarrow> lager_run r (a # ops) s'"
proof (induction rule: lager_run.induct)
  case (lager_nil s)
  from lager_run.lager_snoc [OF lager_run.lager_nil lager_nil(1)] show ?case by (simp add: lager_nil(2))
next
  case (lager_snoc s ops s' b)
  from lager_run.lager_snoc [OF lager_snoc.IH [OF lager_snoc.prems] lager_snoc.hyps(2)] show ?case by simp
qed

lemma lager_fold_run: "lager_fold ops s = Some s' \<Longrightarrow> lager_run s ops s'"
  by (induction ops arbitrary: s) (auto intro: lager_nil lager_run_prefix split: if_splits)

lemma demo_log_fold:
  "map_option (\<lambda>s. (length (loggers s), length (sunk s))) (lager_fold demo_log_ops (lager_start ''srv'')) = Some (4, 3)"
  by code_simp

lemma demo_log:
  "\<exists>s. lager_run (lager_start ''srv'') demo_log_ops s \<and> length (loggers s) = 4 \<and> length (sunk s) = 3"
  using demo_log_fold lager_fold_run [of demo_log_ops] unfolding map_option_eq_Some prod.inject by blast

theorem lager_refines_witness:
  "\<exists>s :: unit lager_state. as_tasks s = fold env_do demo_log_ops \<lparr>log = [], tasks = [''srv'']\<rparr> \<and> length (sunk s) = 3"
  using demo_log lager_refines by blast

theorem session_ids_witness:
  "\<exists>s. lager_run (lager_start ''srv'') demo_log_ops s \<and> distinct (map lg_sessionID (loggers s)) \<and>
    map (\<lambda>(sink, f). lf_Data f ''session'') (sunk s) =
      map (\<lambda>l. Some (TextValue (lg_sessionID (loggers s ! l)))) [3, 2, 3]"
proof -
  obtain s where s: "lager_run (lager_start ''srv'') demo_log_ops s" "length (loggers s) = 4" "length (sunk s) = 3"
    using demo_log by blast
  have "length (loggers s) \<le> 2 ^ 32" by (simp add: s(2))
  note ids = session_ids [OF s(1) this]
  from conjunct2 [OF ids] have "map (\<lambda>(sink, f). lf_Data f ''session'') (sunk s) =
      map (\<lambda>l. Some (TextValue (lg_sessionID (loggers s ! l)))) [3, 2, 3]"
    by (auto simp: list_all2_Cons1)
  with ids s(1) show ?thesis by blast
qed

end
