(* ===== verification/Pat.thy ===== *)
theory Pat
  imports Env
begin

text \<open>
  The URL multiplexer under the server (vendored \<^verbatim>\<open>github.com/bmizerany/pat/mux.go\<close>): the
  pattern matcher with its two indices, registration, and the choice \<open>ServeHTTP\<close> makes.
  \<open>url.Values\<close> is the list of pairs in the order they are added. The map of handlers is an
  association list in registration order; the order of the methods in an \<open>Allow\<close> header, a
  map iteration in Go, is that order here.
\<close>

section \<open>Matching\<close>

definition isAlpha :: "char \<Rightarrow> bool" where
  "isAlpha ch \<longleftrightarrow> (0x61 \<le> byte ch \<and> byte ch \<le> 0x7A) \<or> (0x41 \<le> byte ch \<and> byte ch \<le> 0x5A) \<or> ch = CHR ''_''"

definition isAlnum :: "char \<Rightarrow> bool" where
  "isAlnum ch \<longleftrightarrow> isAlpha ch \<or> is_digit ch"

definition matchPart :: "char \<Rightarrow> char \<Rightarrow> bool" where
  "matchPart b c \<longleftrightarrow> c \<noteq> b \<and> c \<noteq> CHR ''/''"

function match_end :: "string \<Rightarrow> (char \<Rightarrow> bool) \<Rightarrow> nat \<Rightarrow> nat" where
  "match_end s f j = (if j < length s \<and> f (s ! j) then match_end s f (Suc j) else j)"
  by pat_completeness auto
termination
  by (relation "measure (\<lambda>(s, f, j). length s - j)") auto

declare match_end.simps [simp del]

definition match_run :: "string \<Rightarrow> (char \<Rightarrow> bool) \<Rightarrow> nat \<Rightarrow> string \<times> char \<times> nat" where
  "match_run s f i =
     (let j = match_end s f i
      in (take (j - i) (drop i s), if j < length s then s ! j else CHR 0x00, j))"

lemma match_end_ge: "i \<le> match_end s f i"
proof (induction s f i rule: match_end.induct)
  case (1 s f j)
  then show ?case by (cases "j < length s \<and> f (s ! j)") (auto simp: match_end.simps [of s f j])
qed

text \<open>\<open>url.QueryUnescape\<close>; \<open>None\<close> on a malformed escape.\<close>

fun QueryUnescape :: "string \<Rightarrow> string option" where
  "QueryUnescape [] = Some []"
| "QueryUnescape (c # cs) =
     (if c = CHR ''%'' then
        (case cs of
           a # b # r \<Rightarrow>
             (case (hex_value a, hex_value b) of
                (Some x, Some y) \<Rightarrow> map_option (\<lambda>t. char_of (16 * x + y) # t) (QueryUnescape r)
              | _ \<Rightarrow> None)
         | _ \<Rightarrow> None)
      else if c = CHR ''+'' then map_option (\<lambda>t. CHR '' '' # t) (QueryUnescape cs)
      else map_option (\<lambda>t. c # t) (QueryUnescape cs))"

type_synonym url_values = "(string \<times> string) list"

text \<open>\<open>patHandler.try\<close>: \<open>i\<close> runs over the path and \<open>j\<close> over the pattern.\<close>

function try_loop :: "string \<Rightarrow> string \<Rightarrow> url_values \<Rightarrow> nat \<Rightarrow> nat \<Rightarrow> url_values option" where
  "try_loop pt path p i j =
     (if i < length path then
        if length pt \<le> j then
          (if pt \<noteq> ''/'' \<and> 0 < length pt \<and> pt ! (length pt - 1) = CHR ''/'' then Some p else None)
        else if pt ! j = CHR '':'' then
          (let (name, nextc, j') = match_run pt isAlnum (Suc j);
               (val, _, i') = match_run path (matchPart nextc) i
           in case QueryUnescape val of
                None \<Rightarrow> None
              | Some escval \<Rightarrow> try_loop pt path (p @ [(CHR '':'' # name, escval)]) i' j')
        else if path ! i = pt ! j then try_loop pt path p (Suc i) (Suc j)
        else None
      else if j \<noteq> length pt then None
      else Some p)"
  by pat_completeness auto
termination
proof (relation "measure (\<lambda>(pt, path, p, i, j). length pt - j)")
  fix pt path :: string and p :: url_values and i j :: nat and x xa y xb ya z xc yb xd escval
  assume j: "\<not> length pt \<le> j"
    and x: "x = match_run pt isAlnum (Suc j)" "(xa, y) = x" "(xb, ya) = y"
  then have "Suc j \<le> ya" using match_end_ge [of "Suc j" pt isAlnum] by (simp add: match_run_def Let_def)
  with j show "((pt, path, p @ [(CHR '':'' # xa, escval)], yb, ya), pt, path, p, i, j)
      \<in> measure (\<lambda>(pt, path, p, i, j). length pt - j)"
    by simp
qed auto

declare try_loop.simps [simp del]

definition try_pattern :: "string \<Rightarrow> string \<Rightarrow> url_values option" where
  "try_pattern pt path = try_loop pt path [] 0 0"

section \<open>The multiplexer\<close>

datatype 'h mux_handler = UserHandler 'h | AddSlashRedirect

record 'h patHandler =
  ph_pat :: string
  ph_handler :: "'h mux_handler"
  ph_redirect :: bool

type_synonym 'h mux = "(string \<times> 'h patHandler list) list"

definition mux_handlers :: "'h mux \<Rightarrow> string \<Rightarrow> 'h patHandler list" where
  "mux_handlers m meth = (case map_of m meth of None \<Rightarrow> [] | Some hs \<Rightarrow> hs)"

definition mux_set :: "'h mux \<Rightarrow> string \<Rightarrow> 'h patHandler list \<Rightarrow> 'h mux" where
  "mux_set m meth hs =
     (if map_of m meth = None then m @ [(meth, hs)]
      else map (\<lambda>e. if fst e = meth then (meth, hs) else e) m)"

text \<open>\<open>PatternServeMux.add\<close>: a pattern already registered is kept; a pattern ending in a slash
  also registers a redirect for itself without the slash.\<close>

fun mux_add :: "string \<Rightarrow> string \<Rightarrow> 'h mux_handler \<Rightarrow> bool \<Rightarrow> 'h mux \<Rightarrow> 'h mux" where
  "mux_add meth pt h redirect m =
     (let hs = mux_handlers m meth in
      if \<exists>p1\<in>set hs. ph_pat p1 = pt then m
      else
        let m' = mux_set m meth (hs @ [\<lparr>ph_pat = pt, ph_handler = h, ph_redirect = redirect\<rparr>]) in
        if 0 < length pt \<and> pt ! (length pt - 1) = CHR ''/''
        then mux_add meth (take (length pt - 1) pt) AddSlashRedirect True m'
        else m')"

declare mux_add.simps [simp del]

definition mux_Add :: "string \<Rightarrow> string \<Rightarrow> 'h \<Rightarrow> 'h mux \<Rightarrow> 'h mux" where
  "mux_Add meth pt h m = mux_add meth pt (UserHandler h) False m"

text \<open>What \<open>ServeHTTP\<close> does with a request: run a handler with the captured values, or answer
  404, or 405 with the methods that would match. \<open>NotFound\<close> is never set by the router.\<close>

datatype 'h mux_choice =
    Dispatch 'h url_values
  | Redirect
  | NotFound
  | MethodNotAllowed "string list"

fun first_match :: "'h patHandler list \<Rightarrow> string \<Rightarrow> ('h patHandler \<times> url_values) option" where
  "first_match [] path = None"
| "first_match (ph # phs) path =
     (case try_pattern (ph_pat ph) path of
        Some ps \<Rightarrow> Some (ph, ps)
      | None \<Rightarrow> first_match phs path)"

definition allowed_methods :: "'h mux \<Rightarrow> string \<Rightarrow> string \<Rightarrow> string list" where
  "allowed_methods m meth path =
     concat (map (\<lambda>e. if fst e = meth then []
                      else map (\<lambda>_. fst e) (filter (\<lambda>ph. try_pattern (ph_pat ph) path \<noteq> None) (snd e))) m)"

definition mux_choose :: "'h mux \<Rightarrow> string \<Rightarrow> string \<Rightarrow> 'h mux_choice" where
  "mux_choose m meth path =
     (case first_match (mux_handlers m meth) path of
        Some (ph, ps) \<Rightarrow>
          (case ph_handler ph of UserHandler h \<Rightarrow> Dispatch h ps | AddSlashRedirect \<Rightarrow> Redirect)
      | None \<Rightarrow>
          (let allowed = allowed_methods m meth path
           in if allowed = [] then NotFound else MethodNotAllowed allowed))"

section \<open>Literal patterns\<close>

text \<open>A pattern with no capture and no trailing slash matches itself only.\<close>

definition literal_pattern :: "string \<Rightarrow> bool" where
  "literal_pattern pt \<longleftrightarrow> CHR '':'' \<notin> set pt \<and> (pt = [] \<or> last pt \<noteq> CHR ''/'')"

lemma try_loop_literal:
  assumes "literal_pattern pt" and "j \<le> length pt" and "i \<le> length path"
  shows "try_loop pt path p i j = (if drop i path = drop j pt then Some p else None)"
  using assms(2,3)
proof (induction "length pt - j" arbitrary: i j)
  case 0
  then have j: "j = length pt" by simp
  show ?case unfolding j
    by (subst try_loop.simps) (use assms(1) in \<open>auto simp: literal_pattern_def last_conv_nth\<close>)
next
  case (Suc n)
  then have j: "j < length pt" by simp
  then have "pt ! j \<in> set pt" by (rule nth_mem)
  with assms(1) have "pt ! j \<noteq> CHR '':''" unfolding literal_pattern_def by metis
  with j Suc(1) [of "Suc j" "Suc i"] Suc(2-) show ?case
    by (auto simp: try_loop.simps [of pt path p i j] Cons_nth_drop_Suc [symmetric]
        dest: arg_cong [where f = length])
qed

lemma try_pattern_literal:
  "literal_pattern pt \<Longrightarrow> try_pattern pt path = (if path = pt then Some [] else None)"
  by (simp add: try_pattern_def try_loop_literal)

lemma first_match_literal:
  assumes "\<forall>ph\<in>set phs. literal_pattern (ph_pat ph)"
  shows "first_match phs path =
    map_option (\<lambda>ph. (ph, [])) (find (\<lambda>ph. ph_pat ph = path) phs)"
  using assms by (induction phs) (auto simp: try_pattern_literal)

end
