(* ===== verification/Rata.thy ===== *)
theory Rata
  imports Pat
begin

text \<open>
  Routes, router and request generator (vendored \<^verbatim>\<open>github.com/tedsuo/rata\<close>): the server builds
  its multiplexer from the route table and the handlers, the client its requests from the
  same table. The two calls into \<open>net/url\<close> and \<open>net/http\<close> that this code makes, \<open>url.Parse\<close>
  followed by \<open>String\<close> and \<open>http.NewRequest\<close>, are the fields of \<open>url_lib\<close>.
\<close>

record http_request =
  http_Method :: string
  http_URL :: string
  http_Header :: "(string \<times> string list) list"
  http_Body :: string
  http_Context :: "ctx option"

record url_lib =
  url_Parse_String :: "string \<Rightarrow> go_error + string"
  http_NewRequest :: "string \<Rightarrow> string \<Rightarrow> string \<Rightarrow> go_error + http_request"

section \<open>Routes\<close>

fun FindRouteByName :: "Route list \<Rightarrow> string \<Rightarrow> Route option" where
  "FindRouteByName [] name = None"
| "FindRouteByName (route # r) name =
     (if Route_Name route = name then Some route else FindRouteByName r name)"

type_synonym params = "(string \<times> string) list"

definition path_component :: "params \<Rightarrow> string \<Rightarrow> go_error + string" where
  "path_component ps c =
     (case c of
        [] \<Rightarrow> Inr c
      | x # key \<Rightarrow>
          if x = CHR '':'' then
            (case map_of ps key of
               Some val \<Rightarrow> Inr val
             | None \<Rightarrow> Inl (GoError (''missing param '' @ c)))
          else Inr c)"

definition CreatePath :: "'z url_lib_scheme \<Rightarrow> Route \<Rightarrow> params \<Rightarrow> go_error + string" where
  "CreatePath lib r ps =
     bind_ok (mapM_ok (path_component ps) (Split (Route_Path r) CHR ''/''))
       (\<lambda>components. url_Parse_String lib (Join components ''/''))"

section \<open>Router\<close>

definition http_methods :: "string list" where
  "http_methods = [''GET'', ''HEAD'', ''POST'', ''PUT'', ''PATCH'', ''DELETE'', ''CONNECT'', ''OPTIONS'', ''TRACE'']"

fun router_loop :: "Route list \<Rightarrow> (string \<times> 'h) list \<Rightarrow> 'h mux \<Rightarrow> go_error + 'h mux" where
  "router_loop [] handlers p = Inr p"
| "router_loop (route # routes) handlers p =
     (case map_of handlers (Route_Name route) of
        None \<Rightarrow> Inl (GoError (''missing handler '' @ Route_Name route))
      | Some handler \<Rightarrow>
          (let verb = map to_upper (Route_Method route) in
           if verb \<in> set http_methods
           then router_loop routes handlers (mux_Add verb (Route_Path route) handler p)
           else Inl (GoError (''invalid verb: '' @ Route_Method route))))"

definition NewRouter :: "Route list \<Rightarrow> (string \<times> 'h) list \<Rightarrow> go_error + 'h mux" where
  "NewRouter routes handlers = router_loop routes handlers []"

section \<open>Request generator\<close>

record RequestGenerator =
  gen_Header :: "(string \<times> string list) list"
  gen_host :: string
  gen_routes :: "Route list"

definition NewRequestGenerator :: "string \<Rightarrow> Route list \<Rightarrow> RequestGenerator" where
  "NewRequestGenerator host routes = \<lparr>gen_Header = [], gen_host = host, gen_routes = routes\<rparr>"

definition put_header :: "(string \<times> string list) list \<Rightarrow> string \<times> string list \<Rightarrow> (string \<times> string list) list" where
  "put_header hs h = h # filter (\<lambda>e. fst e \<noteq> fst h) hs"

definition gen_CreateRequest :: "'z url_lib_scheme \<Rightarrow> RequestGenerator \<Rightarrow> string \<Rightarrow> params \<Rightarrow> string \<Rightarrow> go_error + http_request" where
  "gen_CreateRequest lib r name ps body =
     (case FindRouteByName (gen_routes r) name of
        None \<Rightarrow> Inl (GoError (''No route exists with the name '' @ name))
      | Some route \<Rightarrow>
          bind_ok (CreatePath lib route ps) (\<lambda>path.
            let url = gen_host r @ ''/'' @ TrimLeft path CHR ''/'' in
            bind_ok (http_NewRequest lib (Route_Method route) url body) (\<lambda>req.
              Inr (req\<lparr>http_Header := foldl put_header (http_Header req) (gen_Header r)\<rparr>))))"

section \<open>The nine routes\<close>

lemma FindRouteByName_Routes:
  "r \<in> set Routes \<Longrightarrow> FindRouteByName Routes (Route_Name r) = Some r"
proof -
  have "\<forall>r\<in>set Routes. FindRouteByName Routes (Route_Name r) = Some r"
    by (simp add: Routes_def post_route_def route_name_defs)
  then show "r \<in> set Routes \<Longrightarrow> FindRouteByName Routes (Route_Name r) = Some r" by blast
qed

lemma Routes_method: "r \<in> set Routes \<Longrightarrow> Route_Method r = ''POST''"
  by (auto simp: Routes_def post_route_def)

lemma Routes_literal: "r \<in> set Routes \<Longrightarrow> literal_pattern (Route_Path r)"
  by (auto simp: Routes_def post_route_def literal_pattern_def)

lemma Routes_no_capture:
  assumes "r \<in> set Routes"
  shows "mapM_ok (path_component ps) (Split (Route_Path r) CHR ''/'') = Inr (Split (Route_Path r) CHR ''/'')"
proof -
  have "mapM_ok (path_component ps) (Split (Route_Path r) CHR ''/'') =
      Inr (map id (Split (Route_Path r) CHR ''/''))"
  proof (rule mapM_ok_Inr)
    fix c assume "c \<in> set (Split (Route_Path r) CHR ''/'')"
    with assms show "path_component ps c = Inr (id c)"
      by (auto simp: Routes_def post_route_def path_component_def)
  qed
  then show ?thesis by simp
qed

lemma CreatePath_Routes:
  "r \<in> set Routes \<Longrightarrow> CreatePath lib r ps = url_Parse_String lib (Route_Path r)"
  by (simp add: CreatePath_def Routes_no_capture Join_Split)

text \<open>A multiplexer filled by the router with literal routes, all under one method.\<close>

definition route_handlers :: "Route list \<Rightarrow> (string \<times> 'h) list \<Rightarrow> 'h patHandler list" where
  "route_handlers routes handlers =
     map (\<lambda>r. \<lparr>ph_pat = Route_Path r, ph_handler = UserHandler (the (map_of handlers (Route_Name r))),
               ph_redirect = False\<rparr>) routes"

lemma mux_add_literal:
  assumes "literal_pattern pt" and "pt \<notin> ph_pat ` set hs" and "m = (if hs = [] then [] else [(''POST'', hs)])"
  shows "mux_Add ''POST'' pt h m =
    [(''POST'', hs @ [\<lparr>ph_pat = pt, ph_handler = UserHandler h, ph_redirect = False\<rparr>])]"
proof -
  have "(0 < length pt \<and> pt ! (length pt - 1) = CHR ''/'') = False"
    using assms(1) by (auto simp: literal_pattern_def last_conv_nth)
  moreover have "mux_handlers m ''POST'' = hs" using assms(3) by (simp add: mux_handlers_def)
  moreover have "\<not> (\<exists>p1\<in>set hs. ph_pat p1 = pt)" using assms(2) by auto
  moreover have "mux_set m ''POST'' (hs @ xs) = [(''POST'', hs @ xs)]" for xs
    using assms(3) by (simp add: mux_set_def)
  ultimately show ?thesis
    unfolding mux_Add_def by (subst mux_add.simps) (simp only: Let_def if_False)
qed

lemma router_loop_literal:
  assumes "\<forall>r\<in>set routes. literal_pattern (Route_Path r) \<and> Route_Method r = ''POST'' \<and>
      map_of handlers (Route_Name r) \<noteq> None"
    and "distinct (map ph_pat hs @ map Route_Path routes)"
    and "m = (if hs = [] then [] else [(''POST'', hs)])"
    and "hs @ route_handlers routes handlers \<noteq> []"
  shows "router_loop routes handlers m = Inr [(''POST'', hs @ route_handlers routes handlers)]"
  using assms
proof (induction routes arbitrary: hs m)
  case (Cons r rs)
  let ?h = "the (map_of handlers (Route_Name r))"
  let ?ph = "\<lparr>ph_pat = Route_Path r, ph_handler = UserHandler ?h, ph_redirect = False\<rparr>"
  have add: "mux_Add ''POST'' (Route_Path r) ?h m = [(''POST'', hs @ [?ph])]"
    using Cons.prems by (intro mux_add_literal) auto
  have "router_loop rs handlers [(''POST'', hs @ [?ph])] =
      Inr [(''POST'', (hs @ [?ph]) @ route_handlers rs handlers)]"
    using Cons.prems by (intro Cons.IH) auto
  with add Cons.prems(1) show ?case
    by (auto simp: route_handlers_def http_methods_def Let_def)
qed (simp add: route_handlers_def)

lemma NewRouter_Routes:
  assumes "\<forall>r\<in>set Routes. map_of handlers (Route_Name r) \<noteq> None"
  shows "NewRouter Routes handlers = Inr [(''POST'', route_handlers Routes handlers)]"
proof -
  have "distinct (map Route_Path Routes)" by (simp add: Routes_def post_route_def)
  moreover have "route_handlers Routes handlers \<noteq> []" by (simp add: route_handlers_def Routes_def)
  ultimately show ?thesis
    using router_loop_literal [of Routes handlers "[]"] assms
    by (simp add: NewRouter_def Routes_literal Routes_method)
qed

lemma filter_distinct_find:
  "distinct (map f xs) \<Longrightarrow>
    filter (\<lambda>x. f x = y) xs = (case find (\<lambda>x. f x = y) xs of None \<Rightarrow> [] | Some x \<Rightarrow> [x])"
proof (induction xs)
  case (Cons x xs)
  show ?case
  proof (cases "f x = y")
    case True
    from Cons.prems have "f x \<notin> f ` set xs" by simp
    with True have "\<forall>z\<in>set xs. f z \<noteq> y" by (metis imageI)
    then have "filter (\<lambda>x. f x = y) xs = []" by (simp add: filter_empty_conv)
    with True show ?thesis by simp
  qed (use Cons in simp)
qed simp

lemma find_route_handlers:
  "find (\<lambda>ph. ph_pat ph = path) (route_handlers routes handlers) =
    map_option (\<lambda>r. \<lparr>ph_pat = Route_Path r, ph_handler = UserHandler (the (map_of handlers (Route_Name r))),
        ph_redirect = False\<rparr>) (find (\<lambda>r. Route_Path r = path) routes)"
  by (induction routes) (auto simp: route_handlers_def)

lemma find_Routes_path:
  assumes "r \<in> set Routes"
  shows "find (\<lambda>r'. Route_Path r' = Route_Path r) Routes = Some r"
proof -
  have "\<forall>r\<in>set Routes. find (\<lambda>r'. Route_Path r' = Route_Path r) Routes = Some r"
    by (simp add: Routes_def post_route_def)
  with assms show ?thesis by blast
qed

lemma mux_choose_Routes:
  "mux_choose [(''POST'', route_handlers Routes handlers)] meth path =
    (case find (\<lambda>r. Route_Path r = path) Routes of
       None \<Rightarrow> NotFound
     | Some r \<Rightarrow>
         if meth = ''POST'' then Dispatch (the (map_of handlers (Route_Name r))) []
         else MethodNotAllowed [''POST''])"
proof -
  let ?hs = "route_handlers Routes handlers"
  have lit: "\<forall>ph\<in>set ?hs. literal_pattern (ph_pat ph)"
    by (auto simp: route_handlers_def Routes_literal)
  have dist: "distinct (map ph_pat ?hs)"
    by (simp add: route_handlers_def Routes_def post_route_def)
  have "filter (\<lambda>ph. try_pattern (ph_pat ph) path \<noteq> None) ?hs = filter (\<lambda>ph. ph_pat ph = path) ?hs"
    using lit by (intro filter_cong refl) (simp add: try_pattern_literal)
  then have filt: "filter (\<lambda>ph. try_pattern (ph_pat ph) path \<noteq> None) ?hs =
      (case find (\<lambda>ph. ph_pat ph = path) ?hs of None \<Rightarrow> [] | Some x \<Rightarrow> [x])"
    using filter_distinct_find [OF dist] by simp
  note filt = filt [unfolded not_None_eq]
  show ?thesis
    by (simp add: mux_choose_def mux_handlers_def allowed_methods_def filt
        first_match_literal [OF lit] find_route_handlers split: option.split)
qed

end
