(* ===== verification/Handlers.thy ===== *)
theory Handlers
  imports Rata Go_Files
begin

text \<open>
  \<^verbatim>\<open>driverhttp/handlers.go\<close>: the HTTP handler of each of the nine operations and \<open>NewHandler\<close>,
  which routes requests to them. A handler is a computation on \<open>server_state\<close>, written in
  the order of the code with every log entry; the entry a \<^verbatim>\<open>defer\<close> adds comes last on every
  path. \<open>WriteJSONResponse\<close> is vendored \<^verbatim>\<open>cfhttp/v2/handlers\<close>.
\<close>

section \<open>Requests\<close>

record server_request =
  req_Method :: string
  req_Path :: string
  req_Body :: reader
  req_Context :: ctx

section \<open>Responses\<close>

text \<open>Both constants are \<open>http.StatusOK\<close>: Docker reads errors from the body only.\<close>

definition StatusInternalServerError :: nat where
  "StatusInternalServerError = 200"

definition StatusOK :: nat where
  "StatusOK = 200"

definition Marshal :: "json \<Rightarrow> go_error + string" where
  "Marshal j = Inr (print_json j)"

definition WriteJSONResponse :: "nat \<Rightarrow> go_error + string \<Rightarrow> ('s server_state, unit) state" where
  "WriteJSONResponse statusCode marshalled =
     (case marshalled of
        Inl err \<Rightarrow> on_rw (\<lambda>w. w\<lparr>rw_panic := Some (''Unable to encode JSON: '' @ Error err)\<rparr>)
      | Inr jsonBytes \<Rightarrow> do {
          on_rw (set_header ''Content-Length'' (itoa (int (length jsonBytes))));
          on_rw (set_header ''Content-Type'' ''application/json'');
          on_rw (write_header statusCode);
          on_rw (write_body jsonBytes)
        })"

text \<open>The response a handler leaves when it writes one JSON value.\<close>

definition json_response :: "json \<Rightarrow> response_writer \<Rightarrow> response_writer" where
  "json_response j w =
     write_body (print_json j) (write_header 200
       (set_header ''Content-Type'' ''application/json''
         (set_header ''Content-Length'' (itoa (int (length (print_json j)))) w)))"

lemma run_WriteJSONResponse [simp]:
  "run_state (WriteJSONResponse StatusOK (Marshal j)) s = ((), s\<lparr>srv_rw := json_response j (srv_rw s)\<rparr>)"
  "run_state (WriteJSONResponse StatusInternalServerError (Marshal j)) s =
    ((), s\<lparr>srv_rw := json_response j (srv_rw s)\<rparr>)"
  by (simp_all add: WriteJSONResponse_def Marshal_def StatusOK_def StatusInternalServerError_def
      json_response_def)

section \<open>The handlers\<close>

type_synonym ('f, 's) handler =
  "logger \<Rightarrow> ('f, 's) Driver \<Rightarrow> server_request \<Rightarrow> ('s server_state, unit) state"

definition newActivateHandler :: "('f, 's) handler" where
  "newActivateHandler lg0 client req = do {
     let lg = Session lg0 ''handle-activate'';
     log_Debug lg ''start'';
     env \<leftarrow> EnvWithMonitor lg (req_Context req);
     activateResponse \<leftarrow> on_driver (Driver_Activate client env);
     (if ActivateResponse_Err activateResponse \<noteq> '''' then do {
        log_Error lg ''failed-activating-driver'' (Some (GoError (ActivateResponse_Err activateResponse)));
        WriteJSONResponse StatusInternalServerError (Marshal (ActivateResponse_json activateResponse))
      } else do {
        log_Debug lg ''activate-response'';
        WriteJSONResponse StatusOK (Marshal (ActivateResponse_json activateResponse))
      });
     log_Debug lg ''end''
   }"

definition newListHandler :: "('f, 's) handler" where
  "newListHandler lg0 client req = do {
     let lg = Session lg0 ''handle-list'';
     log_Info lg ''start'';
     env \<leftarrow> EnvWithMonitor lg (req_Context req);
     listResponse \<leftarrow> on_driver (Driver_List client env);
     (if ListResponse_Err listResponse \<noteq> '''' then do {
        log_Error lg ''failed-listing-volumes'' (Some (GoError (ListResponse_Err listResponse)));
        WriteJSONResponse StatusInternalServerError (Marshal (ListResponse_json listResponse))
      } else
        WriteJSONResponse StatusOK (Marshal (ListResponse_json listResponse)));
     log_Info lg ''end''
   }"

definition newCapabilitiesHandler :: "('f, 's) handler" where
  "newCapabilitiesHandler lg0 client req = do {
     let lg = Session lg0 ''handle-capabilities'';
     log_Info lg ''start'';
     env \<leftarrow> EnvWithMonitor lg (req_Context req);
     capabilitiesResponse \<leftarrow> on_driver (Driver_Capabilities client env);
     log_Debug lg ''capabilities-response'';
     WriteJSONResponse StatusOK (Marshal (CapabilitiesResponse_json capabilitiesResponse));
     log_Info lg ''end''
   }"

text \<open>On a failure of the driver this handler logs \<open>err\<close>, the result of the successful
  unmarshalling, which is \<open>nil\<close>.\<close>

definition newGetHandler :: "('f, 's) handler" where
  "newGetHandler lg0 client req = do {
     let lg = Session lg0 ''handle-get'';
     log_Info lg ''start'';
     (case ReadAll (req_Body req) of
        (body, Some err) \<Rightarrow> do {
          log_Error lg ''failed-reading-get-request-body'' (Some err);
          WriteJSONResponse StatusInternalServerError
            (Marshal (MountResponse_json \<lparr>MountResponse_Err = Error err, MountResponse_Mountpoint = ''''\<rparr>))
        }
      | (body, None) \<Rightarrow>
          (case Unmarshal dec_GetRequest zero_GetRequest body of
             Inl err \<Rightarrow> do {
               log_Error lg ''failed-unmarshalling-get-request-body'' (Some err);
               WriteJSONResponse StatusInternalServerError
                 (Marshal (GetResponse_json (zero_GetResponse\<lparr>GetResponse_Err := Error err\<rparr>)))
             }
           | Inr getRequest \<Rightarrow> do {
               env \<leftarrow> EnvWithMonitor lg (req_Context req);
               getResponse \<leftarrow> on_driver (Driver_Get client env getRequest);
               (if GetResponse_Err getResponse \<noteq> '''' then do {
                  log_Error lg ''failed-getting-volume'' None;
                  WriteJSONResponse StatusInternalServerError (Marshal (GetResponse_json getResponse))
                } else
                  WriteJSONResponse StatusOK (Marshal (GetResponse_json getResponse)))
             }));
     log_Info lg ''end''
   }"

definition newPathHandler :: "('f, 's) handler" where
  "newPathHandler lg0 client req = do {
     let lg = Session lg0 ''handle-path'';
     log_Info lg ''start'';
     (case ReadAll (req_Body req) of
        (body, Some err) \<Rightarrow> do {
          log_Error lg ''failed-reading-path-request-body'' (Some err);
          WriteJSONResponse StatusInternalServerError
            (Marshal (MountResponse_json \<lparr>MountResponse_Err = Error err, MountResponse_Mountpoint = ''''\<rparr>))
        }
      | (body, None) \<Rightarrow>
          (case Unmarshal dec_PathRequest zero_PathRequest body of
             Inl err \<Rightarrow> do {
               log_Error lg ''failed-unmarshalling-path-request-body'' (Some err);
               WriteJSONResponse StatusInternalServerError
                 (Marshal (GetResponse_json (zero_GetResponse\<lparr>GetResponse_Err := Error err\<rparr>)))
             }
           | Inr pathRequest \<Rightarrow> do {
               env \<leftarrow> EnvWithMonitor lg (req_Context req);
               pathResponse \<leftarrow> on_driver (Driver_Path client env pathRequest);
               (if PathResponse_Err pathResponse \<noteq> '''' then do {
                  log_Error lg ''failed-activating-driver'' (Some (GoError (PathResponse_Err pathResponse)));
                  WriteJSONResponse StatusInternalServerError (Marshal (PathResponse_json pathResponse))
                } else
                  WriteJSONResponse StatusOK (Marshal (PathResponse_json pathResponse)))
             }));
     log_Info lg ''end''
   }"

definition newCreateHandler :: "'f strconv \<Rightarrow> ('f, 's) handler" where
  "newCreateHandler fl lg0 client req = do {
     let lg = Session lg0 ''handle-create'';
     log_Info lg ''start'';
     (case ReadAll (req_Body req) of
        (body, Some err) \<Rightarrow> do {
          log_Error lg ''failed-reading-create-request-body'' (Some err);
          WriteJSONResponse StatusInternalServerError
            (Marshal (ErrorResponse_json \<lparr>ErrorResponse_Err = Error err\<rparr>))
        }
      | (body, None) \<Rightarrow>
          (case Unmarshal (dec_CreateRequest fl) zero_CreateRequest body of
             Inl err \<Rightarrow> do {
               log_Error lg ''failed-unmarshalling-create-request-body'' (Some err);
               WriteJSONResponse StatusInternalServerError
                 (Marshal (ErrorResponse_json \<lparr>ErrorResponse_Err = Error err\<rparr>))
             }
           | Inr createRequest \<Rightarrow> do {
               env \<leftarrow> EnvWithMonitor lg (req_Context req);
               createResponse \<leftarrow> on_driver (Driver_Create client env createRequest);
               (if ErrorResponse_Err createResponse \<noteq> '''' then do {
                  log_Error lg ''failed-creating-volume'' (Some (GoError (ErrorResponse_Err createResponse)));
                  WriteJSONResponse StatusInternalServerError (Marshal (ErrorResponse_json createResponse))
                } else
                  WriteJSONResponse StatusOK (Marshal (ErrorResponse_json createResponse)))
             }));
     log_Info lg ''end''
   }"

definition newMountHandler :: "('f, 's) handler" where
  "newMountHandler lg0 client req = do {
     let lg = Session lg0 ''handle-mount'';
     log_Info lg ''start'';
     (case ReadAll (req_Body req) of
        (body, Some err) \<Rightarrow> do {
          log_Error lg ''failed-reading-mount-request-body'' (Some err);
          WriteJSONResponse StatusInternalServerError
            (Marshal (MountResponse_json \<lparr>MountResponse_Err = Error err, MountResponse_Mountpoint = ''''\<rparr>))
        }
      | (body, None) \<Rightarrow>
          (case Unmarshal dec_MountRequest zero_MountRequest body of
             Inl err \<Rightarrow> do {
               log_Error lg ''failed-unmarshalling-mount-request-body'' (Some err);
               WriteJSONResponse StatusInternalServerError
                 (Marshal (MountResponse_json \<lparr>MountResponse_Err = Error err, MountResponse_Mountpoint = ''''\<rparr>))
             }
           | Inr mountRequest \<Rightarrow> do {
               env \<leftarrow> EnvWithMonitor lg (req_Context req);
               mountResponse \<leftarrow> on_driver (Driver_Mount client env mountRequest);
               (if MountResponse_Err mountResponse \<noteq> '''' then do {
                  log_Error lg ''failed-mounting-volume'' (Some (GoError (MountResponse_Err mountResponse)));
                  WriteJSONResponse StatusInternalServerError (Marshal (MountResponse_json mountResponse))
                } else
                  WriteJSONResponse StatusOK (Marshal (MountResponse_json mountResponse)))
             }));
     log_Info lg ''end''
   }"

definition newUnmountHandler :: "('f, 's) handler" where
  "newUnmountHandler lg0 client req = do {
     let lg = Session lg0 ''handle-unmount'';
     log_Info lg ''start'';
     (case ReadAll (req_Body req) of
        (body, Some err) \<Rightarrow> do {
          log_Error lg ''failed-reading-unmount-request-body'' (Some err);
          WriteJSONResponse StatusInternalServerError
            (Marshal (ErrorResponse_json \<lparr>ErrorResponse_Err = Error err\<rparr>))
        }
      | (body, None) \<Rightarrow>
          (case Unmarshal dec_UnmountRequest zero_UnmountRequest body of
             Inl err \<Rightarrow> do {
               log_Error lg ''failed-unmarshalling-unmount-request-body'' (Some err);
               WriteJSONResponse StatusInternalServerError
                 (Marshal (ErrorResponse_json \<lparr>ErrorResponse_Err = Error err\<rparr>))
             }
           | Inr unmountRequest \<Rightarrow> do {
               env \<leftarrow> EnvWithMonitor lg (req_Context req);
               unmountResponse \<leftarrow> on_driver (Driver_Unmount client env unmountRequest);
               (if ErrorResponse_Err unmountResponse \<noteq> '''' then do {
                  log_Error lg ''failed-unmount-volume'' (Some (GoError (ErrorResponse_Err unmountResponse)));
                  WriteJSONResponse StatusInternalServerError (Marshal (ErrorResponse_json unmountResponse))
                } else
                  WriteJSONResponse StatusOK (Marshal (ErrorResponse_json unmountResponse)))
             }));
     log_Info lg ''end''
   }"

definition newRemoveHandler :: "('f, 's) handler" where
  "newRemoveHandler lg0 client req = do {
     let lg = Session lg0 ''handle-remove'';
     log_Info lg ''start'';
     (case ReadAll (req_Body req) of
        (body, Some err) \<Rightarrow> do {
          log_Error lg ''failed-reading-remove-request-body'' (Some err);
          WriteJSONResponse StatusInternalServerError
            (Marshal (ErrorResponse_json \<lparr>ErrorResponse_Err = Error err\<rparr>))
        }
      | (body, None) \<Rightarrow>
          (case Unmarshal dec_RemoveRequest zero_RemoveRequest body of
             Inl err \<Rightarrow> do {
               log_Error lg ''failed-unmarshalling-unmount-request-body'' (Some err);
               WriteJSONResponse StatusInternalServerError
                 (Marshal (ErrorResponse_json \<lparr>ErrorResponse_Err = Error err\<rparr>))
             }
           | Inr removeRequest \<Rightarrow> do {
               env \<leftarrow> EnvWithMonitor lg (req_Context req);
               removeResponse \<leftarrow> on_driver (Driver_Remove client env removeRequest);
               (if ErrorResponse_Err removeResponse \<noteq> '''' then do {
                  log_Error lg ''failed-remove-volume'' (Some (GoError (ErrorResponse_Err removeResponse)));
                  WriteJSONResponse StatusInternalServerError (Marshal (ErrorResponse_json removeResponse))
                } else
                  WriteJSONResponse StatusOK (Marshal (ErrorResponse_json removeResponse)))
             }));
     log_Info lg ''end''
   }"

section \<open>The server\<close>

definition server_handlers ::
  "'f strconv \<Rightarrow> logger \<Rightarrow> ('f, 's) Driver \<Rightarrow> (string \<times> (server_request \<Rightarrow> ('s server_state, unit) state)) list" where
  "server_handlers fl lg client =
     [(ActivateRoute, newActivateHandler lg client),
      (GetRoute, newGetHandler lg client),
      (ListRoute, newListHandler lg client),
      (PathRoute, newPathHandler lg client),
      (CreateRoute, newCreateHandler fl lg client),
      (MountRoute, newMountHandler lg client),
      (UnmountRoute, newUnmountHandler lg client),
      (RemoveRoute, newRemoveHandler lg client),
      (CapabilitiesRoute, newCapabilitiesHandler lg client)]"

definition NewHandler ::
  "'f strconv \<Rightarrow> logger \<Rightarrow> ('f, 's) Driver \<Rightarrow>
    ('z log_state_scheme, go_error + (server_request \<Rightarrow> ('s server_state, unit) state) mux) state" where
  "NewHandler fl lg0 client = do {
     let lg = Session lg0 ''server'';
     log_Info lg ''start'';
     let handlers = server_handlers fl lg client;
     let router = NewRouter Routes handlers;
     log_Info lg ''end'';
     State_Monad.return router
   }"

text \<open>\<open>http.Error\<close>, and what the multiplexer writes when no handler runs. The HTML body of a
  redirect (written for GET and HEAD only) is left out.\<close>

definition http_Error :: "string \<Rightarrow> nat \<Rightarrow> ('s server_state, unit) state" where
  "http_Error msg code = do {
     on_rw (del_header ''Content-Length'');
     on_rw (set_header ''Content-Type'' ''text/plain; charset=utf-8'');
     on_rw (set_header ''X-Content-Type-Options'' ''nosniff'');
     on_rw (write_header code);
     on_rw (write_body (msg @ [CHR 0x0A]))
   }"

definition ServeHTTP ::
  "(server_request \<Rightarrow> ('s server_state, unit) state) mux \<Rightarrow> server_request \<Rightarrow> ('s server_state, unit) state" where
  "ServeHTTP m r =
     (case mux_choose m (req_Method r) (req_Path r) of
        Dispatch h ps \<Rightarrow> h r
      | Redirect \<Rightarrow> do {
          on_rw (set_header ''Location'' (req_Path r @ ''/''));
          on_rw (write_header 301)
        }
      | NotFound \<Rightarrow> http_Error ''404 page not found'' 404
      | MethodNotAllowed allowed \<Rightarrow> do {
          on_rw (set_header ''Allow'' (Join allowed '', ''));
          http_Error ''Method Not Allowed'' 405
        })"

end
