(* ===== verification/Handler_Spec.thy ===== *)
theory Handler_Spec
  imports Handlers
begin

text \<open>
  What every handler of the server promises. \<open>serve\<close> is the abstract handler: look at the
  request, and either reject it with a logged error and a JSON error body, leaving the
  driver alone, or call the driver once in a monitored environment and write its answer.
  The locale \<open>json_handler\<close> is the contract; each of the nine handlers of \<^verbatim>\<open>handlers.go\<close>
  interprets it, which is the refinement of \<open>serve\<close> by the code.
\<close>

text \<open>A rejected request: the log action, the error and the JSON body of the answer.\<close>

type_synonym reject = "string \<times> go_error \<times> json"

definition serve ::
  "log_level \<Rightarrow> logger \<Rightarrow> (reader \<Rightarrow> reject + 'q) \<Rightarrow> (Env \<Rightarrow> 'q \<Rightarrow> ('s, 'r) state) \<Rightarrow>
    ('r \<Rightarrow> json) \<Rightarrow> ('r \<Rightarrow> log_entry list) \<Rightarrow> server_request \<Rightarrow> 's server_state \<Rightarrow> 's server_state" where
  "serve lvl lg accept op enc entries req s =
     (let s1 = s\<lparr>log := log s @ [LogEntry lvl (lg @ ''.start'') None]\<rparr>;
          fin = LogEntry lvl (lg @ ''.end'') None
      in case accept (req_Body req) of
           Inl (action, err, j) \<Rightarrow>
             s1\<lparr>log := log s1 @ [LogEntry ERROR (lg @ ''.'' @ action) (Some (Error err)), fin],
                srv_rw := json_response j (srv_rw s1)\<rparr>
         | Inr q \<Rightarrow>
             (let s2 = after_monitor lg (req_Context req) s1;
                  (r, d) = run_state (op (monitor_env lg (req_Context req)) q) (srv_driver s)
              in s2\<lparr>log := log s2 @ entries r @ [fin],
                    srv_driver := d,
                    srv_rw := json_response (enc r) (srv_rw s)\<rparr>))"

definition accept_any :: "reader \<Rightarrow> reject + unit" where
  "accept_any _ = Inr ()"

definition accept_json ::
  "'q decoder \<Rightarrow> 'q \<Rightarrow> string \<Rightarrow> (go_error \<Rightarrow> json) \<Rightarrow> string \<Rightarrow> (go_error \<Rightarrow> json) \<Rightarrow> reader \<Rightarrow> reject + 'q" where
  "accept_json dec zero read_action read_body parse_action parse_body b =
     (case rd_error b of
        Some err \<Rightarrow> Inl (read_action, err, read_body err)
      | None \<Rightarrow>
          (case Unmarshal dec zero (rd_bytes b) of
             Inl err \<Rightarrow> Inl (parse_action, err, parse_body err)
           | Inr q \<Rightarrow> Inr q))"

definition error_note :: "logger \<Rightarrow> string \<Rightarrow> string \<Rightarrow> log_entry list" where
  "error_note lg action err =
     (if err \<noteq> '''' then [LogEntry ERROR (lg @ ''.'' @ action) (Some err)] else [])"

section \<open>The contract\<close>

text \<open>What every handler of the table does to the response, as one predicate on a handler: it writes
  one JSON value, out of those it may answer.\<close>

definition answers_in :: "json set \<Rightarrow> (server_request \<Rightarrow> ('s server_state, unit) state) \<Rightarrow> bool" where
  "answers_in A h \<longleftrightarrow> (\<forall>req s. \<exists>j\<in>A. srv_rw (snd (run_state (h req) s)) = json_response j (srv_rw s))"

lemma answers_inD:
  assumes "answers_in A h"
  shows "\<exists>j\<in>A. srv_rw (snd (run_state (h req) (s\<lparr>srv_rw := w\<rparr>))) = json_response j w"
proof -
  from assms obtain j where "j \<in> A"
    "srv_rw (snd (run_state (h req) (s\<lparr>srv_rw := w\<rparr>))) = json_response j (srv_rw (s\<lparr>srv_rw := w\<rparr>))"
    unfolding answers_in_def by blast
  then show ?thesis by auto
qed

definition frames_log :: "(server_request \<Rightarrow> ('s server_state, unit) state) \<Rightarrow> bool" where
  "frames_log h \<longleftrightarrow>
     (\<exists>lvl lg. \<forall>req s. \<exists>mid. log (snd (run_state (h req) s)) = log s @
        [LogEntry lvl (lg @ ''.start'') None] @ mid @ [LogEntry lvl (lg @ ''.end'') None])"

locale json_handler =
  fixes h :: "server_request \<Rightarrow> ('s server_state, unit) state"
    and lvl :: log_level and lg :: logger
    and accept :: "reader \<Rightarrow> reject + 'q"
    and op :: "Env \<Rightarrow> 'q \<Rightarrow> ('s, 'r) state"
    and enc :: "'r \<Rightarrow> json" and entries :: "'r \<Rightarrow> log_entry list"
  assumes refines: "run_state (h req) s = ((), serve lvl lg accept op enc entries req s)"
begin

text \<open>An answer is a response of the driver or the body of a rejection.\<close>

lemma answers_in:
  assumes "\<And>r. enc r \<in> A" and "\<And>b action err j. accept b = Inl (action, err, j) \<Longrightarrow> j \<in> A"
  shows "answers_in A h"
  unfolding answers_in_def
proof (intro allI)
  fix req s
  show "\<exists>j\<in>A. srv_rw (snd (run_state (h req) s)) = json_response j (srv_rw s)"
  proof (cases "accept (req_Body req)")
    case (Inl e)
    then obtain action err j where "accept (req_Body req) = Inl (action, err, j)" by (cases e) simp
    with assms(2) show ?thesis by (auto simp: refines serve_def)
  next
    case (Inr q)
    with assms(1) show ?thesis by (auto simp: refines serve_def Let_def split: prod.split)
  qed
qed

text \<open>A rejected request leaves the driver and its goroutines alone.\<close>

lemma rejects:
  assumes "accept (req_Body req) = Inl (action, err, j)"
  shows "srv_driver (snd (run_state (h req) s)) = srv_driver s"
    and "srv_monitors (snd (run_state (h req) s)) = srv_monitors s"
    and "srv_rw (snd (run_state (h req) s)) = json_response j (srv_rw s)"
    and "log (snd (run_state (h req) s)) = log s @
      [LogEntry lvl (lg @ ''.start'') None, LogEntry ERROR (lg @ ''.'' @ action) (Some (Error err)),
       LogEntry lvl (lg @ ''.end'') None]"
  by (simp_all add: refines serve_def assms)

text \<open>An accepted request is one driver call in the monitored environment.\<close>

lemma accepts:
  assumes "accept (req_Body req) = Inr q"
    and "run_state (op (monitor_env lg (req_Context req)) q) (srv_driver s) = (r, d)"
  shows "srv_driver (snd (run_state (h req) s)) = d"
    and "srv_rw (snd (run_state (h req) s)) = json_response (enc r) (srv_rw s)"
    and "srv_monitors (snd (run_state (h req) s)) = srv_monitors s @
      (if rw_close_notifier (srv_rw s) then [(req_Context req, CancelCtx (req_Context req))] else [])"
  by (simp_all add: refines serve_def assms Let_def after_monitor_def)

text \<open>The log only grows, by entries framed by the start and the end of the request.\<close>

lemma log_framed:
  "\<exists>mid. log (snd (run_state (h req) s)) = log s @
    [LogEntry lvl (lg @ ''.start'') None] @ mid @ [LogEntry lvl (lg @ ''.end'') None]"
proof (cases "accept (req_Body req)")
  case (Inl e)
  obtain action err j where "e = (action, err, j)" by (cases e)
  with Inl show ?thesis using rejects(4) [of req action err j s] by auto
next
  case (Inr q)
  then show ?thesis
    by (simp add: refines serve_def Let_def after_monitor_def split: prod.split)
qed

lemma frames: "frames_log h"
  unfolding frames_log_def using log_framed by blast

end

section \<open>The handlers meet it\<close>

lemmas handler_simps = serve_def Let_def log_defs ReadAll_def after_monitor_def error_note_def
  accept_any_def accept_json_def


interpretation serve_activate: json_handler "newActivateHandler lg client" DEBUG "Session lg ''handle-activate''"
  accept_any "\<lambda>env _. Driver_Activate client env" ActivateResponse_json
  "\<lambda>r. if ActivateResponse_Err r \<noteq> ''''
       then error_note (Session lg ''handle-activate'') ''failed-activating-driver'' (ActivateResponse_Err r)
       else [LogEntry DEBUG (Session lg ''handle-activate'' @ ''.activate-response'') None]"
  by unfold_locales (simp add: newActivateHandler_def handler_simps split: prod.split)

interpretation serve_list: json_handler "newListHandler lg client" INFO "Session lg ''handle-list''"
  accept_any "\<lambda>env _. Driver_List client env" ListResponse_json
  "\<lambda>r. error_note (Session lg ''handle-list'') ''failed-listing-volumes'' (ListResponse_Err r)"
  by unfold_locales (simp add: newListHandler_def handler_simps split: prod.split)

interpretation serve_capabilities: json_handler "newCapabilitiesHandler lg client" INFO
  "Session lg ''handle-capabilities''"
  accept_any "\<lambda>env _. Driver_Capabilities client env" CapabilitiesResponse_json
  "\<lambda>r. [LogEntry DEBUG (Session lg ''handle-capabilities'' @ ''.capabilities-response'') None]"
  by unfold_locales (simp add: newCapabilitiesHandler_def handler_simps split: prod.split)

text \<open>The request readers of the six handlers that read a body.\<close>

definition accept_get :: "reader \<Rightarrow> reject + GetRequest" where
  "accept_get =
     accept_json dec_GetRequest zero_GetRequest
       ''failed-reading-get-request-body''
       (\<lambda>err. MountResponse_json \<lparr>MountResponse_Err = Error err, MountResponse_Mountpoint = ''''\<rparr>)
       ''failed-unmarshalling-get-request-body''
       (\<lambda>err. GetResponse_json (zero_GetResponse\<lparr>GetResponse_Err := Error err\<rparr>))"

definition accept_path :: "reader \<Rightarrow> reject + PathRequest" where
  "accept_path =
     accept_json dec_PathRequest zero_PathRequest
       ''failed-reading-path-request-body''
       (\<lambda>err. MountResponse_json \<lparr>MountResponse_Err = Error err, MountResponse_Mountpoint = ''''\<rparr>)
       ''failed-unmarshalling-path-request-body''
       (\<lambda>err. GetResponse_json (zero_GetResponse\<lparr>GetResponse_Err := Error err\<rparr>))"

definition accept_create :: "'f strconv \<Rightarrow> reader \<Rightarrow> reject + 'f CreateRequest" where
  "accept_create fl =
     accept_json (dec_CreateRequest fl) zero_CreateRequest
       ''failed-reading-create-request-body''
       (\<lambda>err. ErrorResponse_json \<lparr>ErrorResponse_Err = Error err\<rparr>)
       ''failed-unmarshalling-create-request-body''
       (\<lambda>err. ErrorResponse_json \<lparr>ErrorResponse_Err = Error err\<rparr>)"

definition accept_mount :: "reader \<Rightarrow> reject + MountRequest" where
  "accept_mount =
     accept_json dec_MountRequest zero_MountRequest
       ''failed-reading-mount-request-body''
       (\<lambda>err. MountResponse_json \<lparr>MountResponse_Err = Error err, MountResponse_Mountpoint = ''''\<rparr>)
       ''failed-unmarshalling-mount-request-body''
       (\<lambda>err. MountResponse_json \<lparr>MountResponse_Err = Error err, MountResponse_Mountpoint = ''''\<rparr>)"

definition accept_unmount :: "reader \<Rightarrow> reject + UnmountRequest" where
  "accept_unmount =
     accept_json dec_UnmountRequest zero_UnmountRequest
       ''failed-reading-unmount-request-body''
       (\<lambda>err. ErrorResponse_json \<lparr>ErrorResponse_Err = Error err\<rparr>)
       ''failed-unmarshalling-unmount-request-body''
       (\<lambda>err. ErrorResponse_json \<lparr>ErrorResponse_Err = Error err\<rparr>)"

definition accept_remove :: "reader \<Rightarrow> reject + RemoveRequest" where
  "accept_remove =
     accept_json dec_RemoveRequest zero_RemoveRequest
       ''failed-reading-remove-request-body''
       (\<lambda>err. ErrorResponse_json \<lparr>ErrorResponse_Err = Error err\<rparr>)
       ''failed-unmarshalling-unmount-request-body''
       (\<lambda>err. ErrorResponse_json \<lparr>ErrorResponse_Err = Error err\<rparr>)"

interpretation serve_get: json_handler "newGetHandler lg client" INFO
  "Session lg ''handle-get''" accept_get "Driver_Get client" GetResponse_json
  "\<lambda>r. if GetResponse_Err r \<noteq> '''' then [LogEntry ERROR (Session lg ''handle-get'' @ ''.failed-getting-volume'') None] else []"
  by unfold_locales
    (simp add: newGetHandler_def accept_get_def handler_simps split: option.split sum.split prod.split)

interpretation serve_path: json_handler "newPathHandler lg client" INFO
  "Session lg ''handle-path''" accept_path "Driver_Path client" PathResponse_json
  "\<lambda>r. error_note (Session lg ''handle-path'') ''failed-activating-driver'' (PathResponse_Err r)"
  by unfold_locales
    (simp add: newPathHandler_def accept_path_def handler_simps split: option.split sum.split prod.split)

interpretation serve_create: json_handler "newCreateHandler fl lg client" INFO
  "Session lg ''handle-create''" "accept_create fl" "Driver_Create client" ErrorResponse_json
  "\<lambda>r. error_note (Session lg ''handle-create'') ''failed-creating-volume'' (ErrorResponse_Err r)"
  by unfold_locales
    (simp add: newCreateHandler_def accept_create_def handler_simps split: option.split sum.split prod.split)

interpretation serve_mount: json_handler "newMountHandler lg client" INFO
  "Session lg ''handle-mount''" accept_mount "Driver_Mount client" MountResponse_json
  "\<lambda>r. error_note (Session lg ''handle-mount'') ''failed-mounting-volume'' (MountResponse_Err r)"
  by unfold_locales
    (simp add: newMountHandler_def accept_mount_def handler_simps split: option.split sum.split prod.split)

interpretation serve_unmount: json_handler "newUnmountHandler lg client" INFO
  "Session lg ''handle-unmount''" accept_unmount "Driver_Unmount client" ErrorResponse_json
  "\<lambda>r. error_note (Session lg ''handle-unmount'') ''failed-unmount-volume'' (ErrorResponse_Err r)"
  by unfold_locales
    (simp add: newUnmountHandler_def accept_unmount_def handler_simps split: option.split sum.split prod.split)

interpretation serve_remove: json_handler "newRemoveHandler lg client" INFO
  "Session lg ''handle-remove''" accept_remove "Driver_Remove client" ErrorResponse_json
  "\<lambda>r. error_note (Session lg ''handle-remove'') ''failed-remove-volume'' (ErrorResponse_Err r)"
  by unfold_locales
    (simp add: newRemoveHandler_def accept_remove_def handler_simps split: option.split sum.split prod.split)

section \<open>Properties\<close>

text \<open>What the handler of a route may answer: the JSON form of a response of its type; the handlers
  of \<open>Get\<close> and \<open>Path\<close> report a request they cannot read, or cannot decode, in a response of another type.\<close>

definition route_answers :: "string \<Rightarrow> json set" where
  "route_answers name =
     (if name = ActivateRoute then range ActivateResponse_json
      else if name = GetRoute then range GetResponse_json \<union> range MountResponse_json
      else if name = ListRoute then range ListResponse_json
      else if name = PathRoute then range PathResponse_json \<union> range MountResponse_json \<union> range GetResponse_json
      else if name = MountRoute then range MountResponse_json
      else if name = CapabilitiesRoute then range CapabilitiesResponse_json
      else range ErrorResponse_json)"

lemma route_answers_parse: "j \<in> route_answers name \<Longrightarrow> parse_json (print_json j) = Inr (sanitize j)"
  by (auto simp: route_answers_def wire_ActivateResponse.marshal_parses wire_GetResponse.marshal_parses
      wire_ListResponse.marshal_parses wire_PathResponse.marshal_parses wire_MountResponse.marshal_parses
      wire_CapabilitiesResponse.marshal_parses wire_ErrorResponse.marshal_parses split: if_splits)

lemma accept_json_rejects:
  assumes "accept_json dec zero ra rb pa pb b = Inl (action, err, j)"
  shows "j = rb err \<or> j = pb err"
  using assms by (auto simp: accept_json_def split: option.splits sum.splits)

lemma handlers_answer_in: "list_all (\<lambda>(name, h). answers_in (route_answers name) h) (server_handlers fl lg client)"
  unfolding server_handlers_def list.pred_inject prod.case
  by (intro conjI TrueI serve_activate.answers_in serve_get.answers_in serve_list.answers_in serve_path.answers_in
      serve_create.answers_in serve_mount.answers_in serve_unmount.answers_in serve_remove.answers_in
      serve_capabilities.answers_in)
    (auto simp: route_answers_def route_name_defs accept_any_def accept_get_def accept_path_def accept_create_def
      accept_mount_def accept_unmount_def accept_remove_def dest: accept_json_rejects)


text \<open>Every handler only adds to the log, and what it adds starts with its start entry and
  ends with its end entry, on the error paths too.\<close>

theorem handlers_frame_log:
  "list_all (\<lambda>(name, h). frames_log h) (server_handlers fl lg client)"
  by (simp add: server_handlers_def serve_activate.frames serve_get.frames serve_list.frames
      serve_path.frames serve_create.frames serve_mount.frames serve_unmount.frames
      serve_remove.frames serve_capabilities.frames)

text \<open>A mount request whose body cannot be read is answered with that error, logged, and never
  reaches the driver; no goroutine is started for it.\<close>

theorem mount_rejects:
  assumes "rd_error (req_Body req) = Some err"
    and "s' = snd (run_state (newMountHandler lg client req) s)"
  shows "srv_driver s' = srv_driver s \<and> srv_monitors s' = srv_monitors s \<and>
    srv_rw s' = json_response (MountResponse_json \<lparr>MountResponse_Err = Error err, MountResponse_Mountpoint = ''''\<rparr>) (srv_rw s) \<and>
    LogEntry ERROR (Session lg ''handle-mount'' @ ''.failed-reading-mount-request-body'') (Some (Error err)) \<in> set (log s')"
proof -
  have "accept_mount (req_Body req) = Inl (''failed-reading-mount-request-body'', err,
      MountResponse_json \<lparr>MountResponse_Err = Error err, MountResponse_Mountpoint = ''''\<rparr>)"
    using assms(1) by (simp add: accept_mount_def accept_json_def)
  from serve_mount.rejects [OF this, of lg client s] show ?thesis by (simp add: assms(2))
qed

text \<open>A create request whose body is not a JSON value of the right shape is answered with the
  decoder's error and never reaches the driver.\<close>

theorem create_rejects:
  assumes "rd_error (req_Body req) = None"
    and "Unmarshal (dec_CreateRequest fl) zero_CreateRequest (rd_bytes (req_Body req)) = Inl err"
    and "s' = snd (run_state (newCreateHandler fl lg client req) s)"
  shows "srv_driver s' = srv_driver s \<and> srv_monitors s' = srv_monitors s \<and>
    srv_rw s' = json_response (ErrorResponse_json \<lparr>ErrorResponse_Err = Error err\<rparr>) (srv_rw s)"
proof -
  have "accept_create fl (req_Body req) = Inl (''failed-unmarshalling-create-request-body'', err,
      ErrorResponse_json \<lparr>ErrorResponse_Err = Error err\<rparr>)"
    using assms(1,2) by (simp add: accept_create_def accept_json_def)
  from serve_create.rejects [OF this, of lg client s] show ?thesis by (simp add: assms(3))
qed

text \<open>Property C13. A mount request that decodes is one call of the driver with the decoded request, in
  an environment whose context is a child of the request's; its answer, error or not, is the
  JSON answer.\<close>

theorem mount_calls_driver:
  assumes "rd_error (req_Body req) = None"
    and "Unmarshal dec_MountRequest zero_MountRequest (rd_bytes (req_Body req)) = Inr q"
    and "run_state (Driver_Mount client
        \<lparr>Env_Logger = lg @ ''.handle-mount.with-cancel'', Env_Context = CancelCtx (req_Context req)\<rparr> q)
        (srv_driver s) = (r, d)"
    and "s' = snd (run_state (newMountHandler lg client req) s)"
  shows "srv_driver s' = d \<and> srv_rw s' = json_response (MountResponse_json r) (srv_rw s)"
proof -
  have "accept_mount (req_Body req) = Inr q"
    using assms(1,2) by (simp add: accept_mount_def accept_json_def)
  moreover have "monitor_env (Session lg ''handle-mount'') (req_Context req) =
      \<lparr>Env_Logger = lg @ ''.handle-mount.with-cancel'', Env_Context = CancelCtx (req_Context req)\<rparr>"
    by (simp add: monitor_env_def Session_def)
  ultimately show ?thesis
    using serve_mount.accepts(1,2) [of req q client lg s r d] assms(3,4) by simp
qed

text \<open>Property C39. When the driver fails to get a volume the handler answers with the driver's error but
  logs an error entry without any error text: it passes the nil result of the decoding.\<close>

theorem get_logs_no_error:
  assumes "accept_get (req_Body req) = Inr q"
    and "run_state (Driver_Get client (monitor_env (Session lg ''handle-get'') (req_Context req)) q) (srv_driver s) = (r, d)"
    and "GetResponse_Err r \<noteq> ''''"
    and "s' = snd (run_state (newGetHandler lg client req) s)"
  shows "srv_rw s' = json_response (GetResponse_json r) (srv_rw s) \<and>
    (\<exists>mid. log s' = log s @ mid @
      [LogEntry ERROR (Session lg ''handle-get'' @ ''.failed-getting-volume'') None,
       LogEntry INFO (Session lg ''handle-get'' @ ''.end'') None])"
  using assms by (simp add: serve_get.refines serve_def Let_def after_monitor_def)

end
