(* ===== verification/Tls_Config.thy ===== *)
theory Tls_Config
  imports Prelude
begin

text \<open>
  What \<open>NewRemoteClient\<close> builds its HTTP client from: vendored \<^verbatim>\<open>code.cloudfoundry.org/tlsconfig\<close>
  (\<^verbatim>\<open>config.go\<close>, \<^verbatim>\<open>authority.go\<close>, \<^verbatim>\<open>verify.go\<close>) and \<^verbatim>\<open>cfhttp/v2/client.go\<close>, as far as it calls
  them. An option is a function on the configuration it is applied to, which may fail; a failed
  build returns no configuration, so what an option changed before failing is not kept. Parsing of
  certificates, keys and PEM, the clock and \<open>os.ReadFile\<close> are fields of \<open>tls_lib\<close>.
\<close>

section \<open>Library\<close>

text \<open>\<open>tls.LoadX509KeyPair\<close> reports an error unless it finds a certificate, so the chain it returns
  has a first element.\<close>

record certificate =
  cert_leaf :: string
  cert_chain :: "string list"
  cert_key :: string

record x509_certificate =
  x509_Raw :: string
  NotBefore :: int
  NotAfter :: int

record pem_block =
  pem_Type :: string
  pem_Headers :: "(string \<times> string) list"
  pem_Bytes :: string

text \<open>\<open>pem_Decode\<close> gives the next block and the number of bytes, less one, up to its end: what is
  left of the input is shorter. \<open>fmt_q\<close> and \<open>fmt_v\<close> print a string under \<^verbatim>\<open>%q\<close> and headers under
  \<^verbatim>\<open>%v\<close>.\<close>

record tls_lib =
  LoadX509KeyPair :: "string \<Rightarrow> string \<Rightarrow> go_error + certificate"
  ParseCertificate :: "string \<Rightarrow> go_error + x509_certificate"
  pem_Decode :: "string \<Rightarrow> (pem_block \<times> nat) option"
  read_file :: "string \<Rightarrow> go_error + string"
  time_Now :: int
  time_Format :: "int \<Rightarrow> string"
  fmt_q :: "string \<Rightarrow> string"
  fmt_v :: "(string \<times> string) list \<Rightarrow> string"

text \<open>\<open>fmt.Errorf\<close> around an error.\<close>

definition wrap_error :: "string \<Rightarrow> string \<Rightarrow> go_error + 'a \<Rightarrow> go_error + 'a" where
  "wrap_error before_text after_text m =
     (case m of Inl e \<Rightarrow> Inl (GoError (before_text @ Error e @ after_text)) | Inr x \<Rightarrow> Inr x)"

lemma wrap_error_Inr [simp]: "wrap_error a b m = Inr x \<longleftrightarrow> m = Inr x" "wrap_error a b (Inr x) = Inr x"
  by (simp_all add: wrap_error_def split: sum.split)

lemma wrap_error_Inl: "wrap_error a b m = Inl e \<longleftrightarrow> (\<exists>e'. m = Inl e' \<and> e = GoError (a @ Error e' @ b))"
  by (auto simp: wrap_error_def split: sum.split)

section \<open>Configurations\<close>

text \<open>The fields of \<open>tls.Config\<close> that these options set; the others keep their zero values.\<close>

record tls_config =
  tc_MinVersion :: "16 word"
  tc_MaxVersion :: "16 word"
  tc_CipherSuites :: "16 word list"
  tc_Certificates :: "certificate list"
  tc_RootCAs :: "x509_certificate list nilable"
  tc_InsecureSkipVerify :: bool

definition zero_tls_config :: tls_config where
  "zero_tls_config =
     \<lparr>tc_MinVersion = 0, tc_MaxVersion = 0, tc_CipherSuites = [], tc_Certificates = [], tc_RootCAs = None,
      tc_InsecureSkipVerify = False\<rparr>"

definition VersionTLS12 :: "16 word" where "VersionTLS12 = 0x0303"
definition VersionTLS13 :: "16 word" where "VersionTLS13 = 0x0304"
definition ECDHE_RSA_AES_256 :: "16 word" where "ECDHE_RSA_AES_256 = 0xc030"
definition ECDHE_RSA_AES_128 :: "16 word" where "ECDHE_RSA_AES_128 = 0xc02f"

type_synonym tls_option = "tls_config \<Rightarrow> go_error + tls_config"

text \<open>\<open>Build(opts...)\<close> keeps the options, \<open>Client(opts...)\<close> applies them and its own, in order.\<close>

definition tls_Build :: "tls_option list \<Rightarrow> tls_option list" where
  "tls_Build opts = opts"

definition tls_Client :: "tls_option list \<Rightarrow> tls_option list \<Rightarrow> go_error + tls_config" where
  "tls_Client c_opts opts =
     bind_ok (foldM_ok (\<lambda>opt. opt) c_opts zero_tls_config) (\<lambda>config. foldM_ok (\<lambda>opt. opt) opts config)"

definition WithInternalServiceDefaults :: tls_option where
  "WithInternalServiceDefaults c =
     Inr (c\<lparr>tc_MinVersion := VersionTLS12, tc_MaxVersion := VersionTLS13,
            tc_CipherSuites := [ECDHE_RSA_AES_256, ECDHE_RSA_AES_128]\<rparr>)"

section \<open>Identity\<close>

definition checkExpiration :: "'z tls_lib_scheme \<Rightarrow> x509_certificate \<Rightarrow> go_error + unit" where
  "checkExpiration lib cert =
     (let now = time_Now lib in
      if now < NotBefore cert then
        Inl (GoError (''certificate is not yet valid: validity starts at '' @ time_Format lib (NotBefore cert) @
          '' but current time is '' @ time_Format lib now))
      else if NotAfter cert < now then
        Inl (GoError (''certificate has expired: validity ended at '' @ time_Format lib (NotAfter cert) @
          '' but current time is '' @ time_Format lib now))
      else Inr ())"

definition WithIdentity :: "'z tls_lib_scheme \<Rightarrow> certificate \<Rightarrow> tls_option" where
  "WithIdentity lib cert c =
     bind_ok (wrap_error ''failed to load keypair: '' '''' (ParseCertificate lib (cert_leaf cert))) (\<lambda>x509Cert.
       bind_ok (wrap_error ''failed to load keypair: '' '''' (checkExpiration lib x509Cert)) (\<lambda>_.
         Inr (c\<lparr>tc_Certificates := [cert]\<rparr>)))"

definition WithIdentityFromFile :: "'z tls_lib_scheme \<Rightarrow> string \<Rightarrow> string \<Rightarrow> tls_option" where
  "WithIdentityFromFile lib certPath keyPath c =
     bind_ok (wrap_error ''failed to load keypair: '' '''' (LoadX509KeyPair lib certPath keyPath)) (\<lambda>cert.
       WithIdentity lib cert c)"

section \<open>Authority\<close>

text \<open>A certificate pool is the list of its certificates; \<open>AddCert\<close> adds none twice.\<close>

type_synonym cert_pool = "x509_certificate list"

type_synonym pool_option = "cert_pool \<Rightarrow> go_error + cert_pool"

definition AddCert :: "x509_certificate \<Rightarrow> cert_pool \<Rightarrow> cert_pool" where
  "AddCert cert pool = (if cert \<in> set pool then pool else pool @ [cert])"

definition WithCert :: "x509_certificate \<Rightarrow> pool_option" where
  "WithCert cert pool = Inr (AddCert cert pool)"

text \<open>The loop of \<open>WithCertsFromFile\<close>, on what is left of the file, the pool and \<open>certsRead\<close>.\<close>

function certs_loop :: "'z tls_lib_scheme \<Rightarrow> string \<Rightarrow> string \<Rightarrow> cert_pool \<Rightarrow> nat \<Rightarrow> go_error + (cert_pool \<times> nat)" where
  "certs_loop lib path pemCerts pool certsRead =
     (if pemCerts = [] then Inr (pool, certsRead)
      else case pem_Decode lib pemCerts of
        None \<Rightarrow> Inr (pool, certsRead)
      | Some (block, n) \<Rightarrow>
          if pem_Headers block \<noteq> [] then
            Inl (GoError (''unexpected headers in PEM block in file '' @ fmt_q lib path @ '': '' @ fmt_v lib (pem_Headers block)))
          else if pem_Type block \<noteq> ''CERTIFICATE'' then
            Inl (GoError (''unexpected PEM block type '' @ fmt_q lib (pem_Type block) @ '' in file '' @ fmt_q lib path))
          else
            bind_ok (wrap_error (''failed to parse certificate in '' @ fmt_q lib path @ '': '') ''''
                (ParseCertificate lib (pem_Bytes block))) (\<lambda>cert.
              bind_ok (wrap_error (''failed to add certificate in file '' @ fmt_q lib path @ '' to pool: '') ''''
                  (WithCert cert pool)) (\<lambda>pool'.
                certs_loop lib path (drop (Suc n) pemCerts) pool' (Suc certsRead))))"
  by pat_completeness auto
termination
  by (relation "measure (\<lambda>(lib, path, pemCerts, pool, certsRead). length pemCerts)") auto

declare certs_loop.simps [simp del]

definition WithCertsFromFile :: "'z tls_lib_scheme \<Rightarrow> string \<Rightarrow> pool_option" where
  "WithCertsFromFile lib path pool =
     bind_ok (wrap_error (''failed to read certificate(s) at path '' @ fmt_q lib path @ '': '') '''' (read_file lib path)) (\<lambda>pemCerts.
       bind_ok (certs_loop lib path pemCerts pool 0) (\<lambda>(pool', certsRead).
         if certsRead = 0 then Inl (GoError (''no valid certificates read from file '' @ fmt_q lib path))
         else Inr pool'))"

record PoolBuilder =
  pb_base :: cert_pool
  pb_opts :: "pool_option list"
  pb_err :: "go_error option"

definition FromEmptyPool :: "pool_option list \<Rightarrow> PoolBuilder" where
  "FromEmptyPool opts = \<lparr>pb_base = [], pb_opts = opts, pb_err = None\<rparr>"

definition pool_Build :: "PoolBuilder \<Rightarrow> go_error + cert_pool" where
  "pool_Build pb =
     (case pb_err pb of
        Some err \<Rightarrow> Inl err
      | None \<Rightarrow> foldM_ok (\<lambda>opt. opt) (pb_opts pb) (pb_base pb))"

definition WithAuthority :: "cert_pool \<Rightarrow> tls_option" where
  "WithAuthority authority c = Inr (c\<lparr>tc_RootCAs := Some authority\<rparr>)"

definition WithAuthorityBuilder :: "PoolBuilder \<Rightarrow> tls_option" where
  "WithAuthorityBuilder builder c = bind_ok (pool_Build builder) (\<lambda>pool. WithAuthority pool c)"

definition WithAuthorityFromFile :: "'z tls_lib_scheme \<Rightarrow> string \<Rightarrow> tls_option" where
  "WithAuthorityFromFile lib caPath c = WithAuthorityBuilder (FromEmptyPool [WithCertsFromFile lib caPath]) c"

section \<open>HTTP clients\<close>

text \<open>\<open>cfhttp.NewClient\<close>: durations are in nanoseconds.\<close>

record http_config =
  hc_requestTimeout :: int
  hc_dialTimeout :: int
  hc_tcpKeepAliveTimeout :: int
  hc_idleConnTimeout :: int
  hc_disableKeepAlives :: bool
  hc_maxIdleConnsPerHost :: int
  hc_tlsConfig :: "tls_config nilable"

definition Second :: int where "Second = 1000000000"

type_synonym http_option = "http_config \<Rightarrow> http_config"

definition WithTLSConfig :: "tls_config \<Rightarrow> http_option" where
  "WithTLSConfig t c = c\<lparr>hc_tlsConfig := Some t\<rparr>"

text \<open>\<open>http.Client\<close> with its transport and dialer.\<close>

record go_http_client =
  dialer_Timeout :: int
  dialer_KeepAlive :: int
  tr_IdleConnTimeout :: int
  tr_DisableKeepAlives :: bool
  tr_MaxIdleConnsPerHost :: int
  tr_TLSClientConfig :: "tls_config nilable"
  client_Timeout :: int

definition cfhttp_NewClient :: "http_option list \<Rightarrow> go_http_client" where
  "cfhttp_NewClient options =
     (let cfg = fold (\<lambda>v. v) options
            \<lparr>hc_requestTimeout = 0, hc_dialTimeout = 5 * Second, hc_tcpKeepAliveTimeout = 0,
             hc_idleConnTimeout = 90 * Second, hc_disableKeepAlives = False, hc_maxIdleConnsPerHost = 0,
             hc_tlsConfig = None\<rparr>
      in \<lparr>dialer_Timeout = hc_dialTimeout cfg, dialer_KeepAlive = hc_tcpKeepAliveTimeout cfg,
          tr_IdleConnTimeout = hc_idleConnTimeout cfg, tr_DisableKeepAlives = hc_disableKeepAlives cfg,
          tr_MaxIdleConnsPerHost = hc_maxIdleConnsPerHost cfg, tr_TLSClientConfig = hc_tlsConfig cfg,
          client_Timeout = hc_requestTimeout cfg\<rparr>)"

section \<open>What the options accept\<close>

text \<open>The blocks that the loop of \<open>WithCertsFromFile\<close> sees.\<close>

function pem_blocks :: "'z tls_lib_scheme \<Rightarrow> string \<Rightarrow> pem_block list" where
  "pem_blocks lib s =
     (if s = [] then []
      else case pem_Decode lib s of
        None \<Rightarrow> []
      | Some (block, n) \<Rightarrow> block # pem_blocks lib (drop (Suc n) s))"
  by pat_completeness auto
termination
  by (relation "measure (\<lambda>(lib, s). length s)") auto

declare pem_blocks.simps [simp del]

definition block_certificate :: "'z tls_lib_scheme \<Rightarrow> string \<Rightarrow> pem_block \<Rightarrow> go_error + x509_certificate" where
  "block_certificate lib path block =
     (if pem_Headers block \<noteq> [] then
        Inl (GoError (''unexpected headers in PEM block in file '' @ fmt_q lib path @ '': '' @ fmt_v lib (pem_Headers block)))
      else if pem_Type block \<noteq> ''CERTIFICATE'' then
        Inl (GoError (''unexpected PEM block type '' @ fmt_q lib (pem_Type block) @ '' in file '' @ fmt_q lib path))
      else wrap_error (''failed to parse certificate in '' @ fmt_q lib path @ '': '') '''' (ParseCertificate lib (pem_Bytes block)))"

lemma block_certificate_ok:
  "block_certificate lib path b = Inr x \<longleftrightarrow>
    pem_Headers b = [] \<and> pem_Type b = ''CERTIFICATE'' \<and> ParseCertificate lib (pem_Bytes b) = Inr x"
  by (simp add: block_certificate_def)

text \<open>The loop reads the certificate of every block, in order, or stops at the first that is none.\<close>

lemma certs_loop_blocks:
  "certs_loop lib path pemCerts pool n =
    bind_ok (mapM_ok (block_certificate lib path) (pem_blocks lib pemCerts))
      (\<lambda>certs. Inr (fold AddCert certs pool, n + length certs))"
proof (induction lib path pemCerts pool n rule: certs_loop.induct)
  case (1 lib path pemCerts pool n)
  show ?case
  proof (cases "pemCerts = [] \<or> pem_Decode lib pemCerts = None")
    case True
    then show ?thesis
      by (auto simp: certs_loop.simps [of lib path pemCerts] pem_blocks.simps [of lib pemCerts])
  next
    case False
    then obtain b k where b: "pemCerts \<noteq> []" "pem_Decode lib pemCerts = Some (b, k)" by auto
    note IH = 1 [OF b(1) b(2) refl]
    show ?thesis
      using b IH
      by (cases "ParseCertificate lib (pem_Bytes b)")
        (simp_all add: certs_loop.simps [of lib path pemCerts] pem_blocks.simps [of lib pemCerts]
          block_certificate_def WithCert_def wrap_error_def bind_ok_case split: sum.split)
  qed
qed

text \<open>The pool of a list of certificates has exactly these, each once.\<close>

lemma AddCert_fold: "distinct pool \<Longrightarrow> distinct (fold AddCert certs pool) \<and> set (fold AddCert certs pool) = set certs \<union> set pool"
  by (induction certs arbitrary: pool) (auto simp: AddCert_def)

definition certificates_of_file :: "'z tls_lib_scheme \<Rightarrow> string \<Rightarrow> go_error + x509_certificate list" where
  "certificates_of_file lib path =
     bind_ok (wrap_error (''failed to read certificate(s) at path '' @ fmt_q lib path @ '': '') '''' (read_file lib path)) (\<lambda>pemCerts.
       bind_ok (mapM_ok (block_certificate lib path) (pem_blocks lib pemCerts)) (\<lambda>certs.
         if certs = [] then Inl (GoError (''no valid certificates read from file '' @ fmt_q lib path)) else Inr certs))"

lemma WithAuthorityFromFile_spec:
  "WithAuthorityFromFile lib path c =
    bind_ok (certificates_of_file lib path) (\<lambda>certs. Inr (c\<lparr>tc_RootCAs := Some (fold AddCert certs [])\<rparr>))"
  by (simp add: WithAuthorityFromFile_def WithAuthorityBuilder_def FromEmptyPool_def pool_Build_def WithCertsFromFile_def
      certs_loop_blocks certificates_of_file_def WithAuthority_def bind_ok_case split: sum.split)

definition valid_now :: "'z tls_lib_scheme \<Rightarrow> x509_certificate \<Rightarrow> bool" where
  "valid_now lib cert \<longleftrightarrow> NotBefore cert \<le> time_Now lib \<and> time_Now lib \<le> NotAfter cert"

lemma checkExpiration_ok: "checkExpiration lib cert = Inr u \<longleftrightarrow> valid_now lib cert"
  by (auto simp: checkExpiration_def valid_now_def Let_def)

definition identity_of_files :: "'z tls_lib_scheme \<Rightarrow> string \<Rightarrow> string \<Rightarrow> go_error + certificate" where
  "identity_of_files lib certPath keyPath =
     wrap_error ''failed to load keypair: '' ''''
       (bind_ok (LoadX509KeyPair lib certPath keyPath) (\<lambda>cert.
          bind_ok (ParseCertificate lib (cert_leaf cert)) (\<lambda>x.
            bind_ok (checkExpiration lib x) (\<lambda>_. Inr cert))))"

lemma WithIdentityFromFile_spec:
  "WithIdentityFromFile lib certPath keyPath c =
    bind_ok (identity_of_files lib certPath keyPath) (\<lambda>cert. Inr (c\<lparr>tc_Certificates := [cert]\<rparr>))"
  by (simp add: WithIdentityFromFile_def WithIdentity_def identity_of_files_def wrap_error_def bind_ok_case split: sum.split)

lemma identity_of_files_ok:
  "identity_of_files lib certPath keyPath = Inr cert \<longleftrightarrow>
    LoadX509KeyPair lib certPath keyPath = Inr cert \<and> (\<exists>x. ParseCertificate lib (cert_leaf cert) = Inr x \<and> valid_now lib x)"
  by (auto simp: identity_of_files_def bind_ok_Inr_iff checkExpiration_ok)

lemma certificates_of_file_ok:
  "certificates_of_file lib path = Inr certs \<longleftrightarrow>
    certs \<noteq> [] \<and> (\<exists>pemCerts. read_file lib path = Inr pemCerts \<and>
      mapM_ok (block_certificate lib path) (pem_blocks lib pemCerts) = Inr certs)"
  by (auto simp: certificates_of_file_def bind_ok_Inr_iff split: if_splits)

lemma certificates_of_file_blocks:
  "certificates_of_file lib path = Inr certs \<longleftrightarrow>
    (\<exists>pem. read_file lib path = Inr pem \<and> pem_blocks lib pem \<noteq> [] \<and>
      list_all2 (\<lambda>b c. pem_Headers b = [] \<and> pem_Type b = ''CERTIFICATE'' \<and> ParseCertificate lib (pem_Bytes b) = Inr c)
        (pem_blocks lib pem) certs)"
  unfolding certificates_of_file_ok mapM_ok_Inr_iff block_certificate_ok by auto

text \<open>A client configuration from files: the identity first, then the authority.\<close>

definition client_tls :: "certificate \<Rightarrow> x509_certificate list \<Rightarrow> bool \<Rightarrow> tls_config" where
  "client_tls cert certs skip =
     \<lparr>tc_MinVersion = VersionTLS12, tc_MaxVersion = VersionTLS13, tc_CipherSuites = [ECDHE_RSA_AES_256, ECDHE_RSA_AES_128],
      tc_Certificates = [cert], tc_RootCAs = Some (fold AddCert certs []), tc_InsecureSkipVerify = skip\<rparr>"

lemma tls_Client_files:
  "tls_Client (tls_Build [WithInternalServiceDefaults, WithIdentityFromFile lib certPath keyPath]) [WithAuthorityFromFile lib caPath] =
    bind_ok (identity_of_files lib certPath keyPath) (\<lambda>cert.
      bind_ok (certificates_of_file lib caPath) (\<lambda>certs. Inr (client_tls cert certs False)))"
  by (simp add: tls_Client_def tls_Build_def WithInternalServiceDefaults_def WithIdentityFromFile_spec
      WithAuthorityFromFile_spec zero_tls_config_def client_tls_def bind_ok_case split: sum.split)

text \<open>Every client dials for at most five seconds and keeps idle connections for ninety; none limits
  the time of a whole request.\<close>

lemma cfhttp_NewClient_defaults:
  "cfhttp_NewClient [] =
    \<lparr>dialer_Timeout = 5000000000, dialer_KeepAlive = 0, tr_IdleConnTimeout = 90000000000, tr_DisableKeepAlives = False,
     tr_MaxIdleConnsPerHost = 0, tr_TLSClientConfig = None, client_Timeout = 0\<rparr>"
  "cfhttp_NewClient [WithTLSConfig c] = (cfhttp_NewClient [])\<lparr>tr_TLSClientConfig := Some c\<rparr>"
  by (simp_all add: cfhttp_NewClient_def WithTLSConfig_def Second_def)

end
