(* ===== verification/Remote_Client.thy ===== *)
theory Remote_Client
  imports Handler_Spec Tls_Config
begin

text \<open>
  \<^verbatim>\<open>driverhttp/remote_client.go\<close> and \<^verbatim>\<open>remote_client_factory.go\<close>: a \<open>Driver\<close> whose operations
  are HTTP requests. The HTTP client behind \<open>http_wrap.Client\<close>, the two \<open>net\<close> functions of
  \<open>url_lib\<close> and those of \<open>tls_lib\<close> are parameters; everything between the
  caller's arguments and \<open>Do\<close>, and between its result and the returned response, is here.
\<close>

section \<open>The client\<close>

record http_response =
  resp_Status :: string
  resp_Body :: reader

text \<open>The result of \<open>cfhttp.NewClient\<close>, or a client given by the caller.\<close>

datatype http_client = CfhttpClient go_http_client | GivenClient nat

datatype clock = RealClock | GivenClock nat

record 'n http_lib = url_lib +
  http_Do :: "http_client \<Rightarrow> http_request \<Rightarrow> ('n, go_error + http_response) state"

record 'n client_state = log_state +
  cl_net :: 'n

definition on_net :: "('n, 'a) state \<Rightarrow> ('n client_state, 'a) state" where
  "on_net m = State (\<lambda>s. let (r, n) = run_state m (cl_net s) in (r, s\<lparr>cl_net := n\<rparr>))"

lemma run_on_net [simp]:
  "run_state (on_net m) s =
    (fst (run_state m (cl_net s)), s\<lparr>cl_net := snd (run_state m (cl_net s))\<rparr>)"
  by (simp add: on_net_def split: prod.split)

record reqFactory =
  rf_reqGen :: RequestGenerator
  rf_route :: string
  rf_payload :: "string nilable"

definition newReqFactory :: "RequestGenerator \<Rightarrow> string \<Rightarrow> string nilable \<Rightarrow> reqFactory" where
  "newReqFactory reqGen route payload = \<lparr>rf_reqGen = reqGen, rf_route = route, rf_payload = payload\<rparr>"

text \<open>\<open>bytes.NewBuffer\<close> of a nil slice is an empty buffer.\<close>

definition Request :: "'n http_lib \<Rightarrow> reqFactory \<Rightarrow> go_error + http_request" where
  "Request lib r =
     gen_CreateRequest lib (rf_reqGen r) (rf_route r) []
       (case rf_payload r of None \<Rightarrow> '''' | Some p \<Rightarrow> p)"

record remoteClient =
  rc_HttpClient :: http_client
  rc_reqGen :: RequestGenerator
  rc_clock :: clock
  rc_url :: string
  rc_tls :: "TLSConfig nilable"

text \<open>The literal leaves \<open>url\<close> at its zero value.\<close>

definition NewRemoteClientWithClient :: "string \<Rightarrow> TLSConfig nilable \<Rightarrow> http_client \<Rightarrow> clock \<Rightarrow> remoteClient" where
  "NewRemoteClientWithClient url tls client clk =
     (let driver = \<lparr>rc_HttpClient = client, rc_reqGen = NewRequestGenerator url Routes,
                    rc_clock = clk, rc_url = '''', rc_tls = None\<rparr>
      in driver\<lparr>rc_tls := tls\<rparr>)"

definition NewRemoteClient ::
  "'z tls_lib_scheme \<Rightarrow> string \<Rightarrow> TLSConfig nilable \<Rightarrow> go_error + remoteClient" where
  "NewRemoteClient lib url tls =
     bind_ok
       (case tls of
          None \<Rightarrow> Inr (cfhttp_NewClient [])
        | Some t \<Rightarrow>
            bind_ok
              (tls_Client
                 (tls_Build [WithInternalServiceDefaults, WithIdentityFromFile lib (CertFile t) (KeyFile t)])
                 [WithAuthorityFromFile lib (CAFile t)])
              (\<lambda>tlsConfig.
                 let tlsConfig' = tlsConfig\<lparr>tc_InsecureSkipVerify := InsecureSkipVerify t\<rparr>
                 in Inr (cfhttp_NewClient [WithTLSConfig tlsConfig'])))
       (\<lambda>client.
          let driver = NewRemoteClientWithClient url tls (CfhttpClient client) RealClock
          in Inr (driver\<lparr>rc_url := url\<rparr>))"

text \<open>The factory returns the pair of \<open>NewRemoteClient\<close>, its pointer converted to the interface
  \<open>Driver\<close>: the outer option is the interface (\<open>None\<close> is \<open>nil\<close>), the inner one the pointer in it.\<close>

definition Factory_NewRemoteClient ::
  "'z tls_lib_scheme \<Rightarrow> string \<Rightarrow> TLSConfig nilable \<Rightarrow>
    remoteClient nilable nilable \<times> go_error option" where
  "Factory_NewRemoteClient lib url tls =
     (case NewRemoteClient lib url tls of
        Inl err \<Rightarrow> (Some None, Some err)
      | Inr client \<Rightarrow> (Some (Some client), None))"

record RemoteClientFactory =
  factory_NewRemoteClient :: "string \<Rightarrow> TLSConfig nilable \<Rightarrow> remoteClient nilable nilable \<times> go_error option"

definition NewRemoteClientFactory ::
  "'z tls_lib_scheme \<Rightarrow> RemoteClientFactory" where
  "NewRemoteClientFactory lib = \<lparr>factory_NewRemoteClient = Factory_NewRemoteClient lib\<rparr>"

definition Matches :: "remoteClient \<Rightarrow> logger \<Rightarrow> string \<Rightarrow> TLSConfig nilable \<Rightarrow> ('z log_state_scheme, bool) state" where
  "Matches r loggerIn url tls = do {
     let lg = Session loggerIn ''matches'';
     log_Info lg ''start'';
     res \<leftarrow>
       (if url \<noteq> rc_url r then State_Monad.return False
        else (case (case tls of None \<Rightarrow> Inr '''' | Some t \<Rightarrow> Marshal (TLSConfig_json t)) of
            Inl err \<Rightarrow> do {
              log_Error lg ''failed-json-marshall'' (Some err);
              State_Monad.return False
            }
          | Inr tls1 \<Rightarrow>
              (case (case rc_tls r of None \<Rightarrow> Inr '''' | Some t \<Rightarrow> Marshal (TLSConfig_json t)) of
                 Inl err \<Rightarrow> do {
                   log_Error lg ''failed-json-marshall'' (Some err);
                   State_Monad.return False
                 }
               | Inr tls2 \<Rightarrow> State_Monad.return (tls1 = tls2))));
     log_Info lg ''end'';
     State_Monad.return res
   }"

section \<open>One exchange\<close>

text \<open>The method \<open>do\<close>: the data (\<open>None\<close> is the nil slice of the early returns) and the error.\<close>

definition rc_do ::
  "'n http_lib \<Rightarrow> remoteClient \<Rightarrow> ctx \<Rightarrow> logger \<Rightarrow> reqFactory \<Rightarrow>
    ('n client_state, string nilable \<times> go_error option) state" where
  "rc_do lib r cx lg requestFactory =
     (case Request lib requestFactory of
        Inl err \<Rightarrow> do {
          log_Error lg ''request-gen-failed'' (Some err);
          State_Monad.return (None, Some err)
        }
      | Inr request0 \<Rightarrow> do {
          let request = request0\<lparr>http_Context := Some cx\<rparr>;
          result \<leftarrow> on_net (http_Do lib (rc_HttpClient r) request);
          (case result of
             Inl err \<Rightarrow> do {
               log_Error lg ''request-failed'' (Some err);
               State_Monad.return (None, Some err)
             }
           | Inr response \<Rightarrow> do {
               log_Debug lg ''response'';
               (case ReadAll (resp_Body response) of
                  (data, Some err) \<Rightarrow> State_Monad.return (Some data, Some err)
                | (data, None) \<Rightarrow>
                    (case Unmarshal dec_ErrorResponse zero_ErrorResponse data of
                       Inl err \<Rightarrow> do {
                         log_Error lg ''failed-parsing-http-response-body'' (Some err);
                         State_Monad.return (Some data, Some err)
                       }
                     | Inr remoteErrorResponse \<Rightarrow>
                         if ErrorResponse_Err remoteErrorResponse \<noteq> ''''
                         then State_Monad.return
                           (Some data, Some (GoError (ErrorResponse_Err remoteErrorResponse)))
                         else State_Monad.return (Some data, None)))
             })
        })"

section \<open>The operations\<close>

abbreviation invalid_response :: string where
  "invalid_response \<equiv> ''Invalid response from driver.''"

definition rc_Activate ::
  "'n http_lib \<Rightarrow> remoteClient \<Rightarrow> Env \<Rightarrow> ('n client_state, ActivateResponse) state" where
  "rc_Activate lib r env = do {
     let lg = Session (Env_Logger env) ''activate'';
     log_Info lg ''start'';
     result \<leftarrow>
       do {
         let factory = newReqFactory (rc_reqGen r) ActivateRoute None;
         (response, err) \<leftarrow> rc_do lib r (Env_Context env) lg factory;
         (case err of
            Some e \<Rightarrow> do {
              log_Error lg ''failed-activate'' (Some e);
              State_Monad.return (zero_ActivateResponse\<lparr>ActivateResponse_Err := Error e\<rparr>)
            }
          | None \<Rightarrow>
              (case response of
                 None \<Rightarrow> State_Monad.return (zero_ActivateResponse\<lparr>ActivateResponse_Err := invalid_response\<rparr>)
               | Some data \<Rightarrow>
                   (case Unmarshal dec_ActivateResponse zero_ActivateResponse data of
                      Inl e \<Rightarrow> do {
                        log_Error lg ''failed-parsing-activate-response'' (Some e);
                        State_Monad.return (zero_ActivateResponse\<lparr>ActivateResponse_Err := Error e\<rparr>)
                      }
                    | Inr answer \<Rightarrow> State_Monad.return answer)))
       };
     log_Info lg ''end'';
     State_Monad.return result
   }"

definition rc_Create ::
  "'f strconv \<Rightarrow> 'n http_lib \<Rightarrow> remoteClient \<Rightarrow> Env \<Rightarrow> 'f CreateRequest \<Rightarrow> ('n client_state, ErrorResponse) state" where
  "rc_Create fl lib r env request = do {
     let lg = Session (Env_Logger env) ''create'';
     log_Info lg ''start'';
     result \<leftarrow>
       (case bind_ok (CreateRequest_json fl request) Marshal of
          Inl e \<Rightarrow> do {
            log_Error lg ''failed-marshalling-request'' (Some e);
            State_Monad.return (\<lparr>ErrorResponse_Err = Error e\<rparr>)
          }
        | Inr payload \<Rightarrow> do {
              let factory = newReqFactory (rc_reqGen r) CreateRoute (Some payload);
              (response, err) \<leftarrow> rc_do lib r (Env_Context env) lg factory;
              (case err of
                 Some e \<Rightarrow> do {
                   log_Error lg ''failed-creating-volume'' (Some e);
                   State_Monad.return (\<lparr>ErrorResponse_Err = Error e\<rparr>)
                 }
               | None \<Rightarrow>
                   (case response of
                      None \<Rightarrow> State_Monad.return (\<lparr>ErrorResponse_Err = invalid_response\<rparr>)
                    | Some data \<Rightarrow>
                        (case Unmarshal dec_ErrorResponse zero_ErrorResponse data of
                           Inl e \<Rightarrow> do {
                             log_Error lg ''failed-parsing-error-response'' (Some e);
                             State_Monad.return (\<lparr>ErrorResponse_Err = Error e\<rparr>)
                           }
                         | Inr answer \<Rightarrow> State_Monad.return zero_ErrorResponse)))
            });
     log_Info lg ''end'';
     State_Monad.return result
   }"

definition rc_List ::
  "'n http_lib \<Rightarrow> remoteClient \<Rightarrow> Env \<Rightarrow> ('n client_state, ListResponse) state" where
  "rc_List lib r env = do {
     let lg = Session (Env_Logger env) ''remoteclient-list'';
     log_Info lg ''start'';
     result \<leftarrow>
       do {
         let factory = newReqFactory (rc_reqGen r) ListRoute None;
         (response, err) \<leftarrow> rc_do lib r (Env_Context env) lg factory;
         (case err of
            Some e \<Rightarrow> do {
              log_Error lg ''failed-list'' (Some e);
              State_Monad.return (zero_ListResponse\<lparr>ListResponse_Err := Error e\<rparr>)
            }
          | None \<Rightarrow>
              (case response of
                 None \<Rightarrow> State_Monad.return (zero_ListResponse\<lparr>ListResponse_Err := invalid_response\<rparr>)
               | Some data \<Rightarrow>
                   (case Unmarshal dec_ListResponse zero_ListResponse data of
                      Inl e \<Rightarrow> do {
                        log_Error lg ''failed-parsing-list-response'' (Some e);
                        State_Monad.return (zero_ListResponse\<lparr>ListResponse_Err := Error e\<rparr>)
                      }
                    | Inr answer \<Rightarrow> State_Monad.return answer)))
       };
     log_Info lg ''end'';
     State_Monad.return result
   }"

definition rc_Mount ::
  "'n http_lib \<Rightarrow> remoteClient \<Rightarrow> Env \<Rightarrow> MountRequest \<Rightarrow> ('n client_state, MountResponse) state" where
  "rc_Mount lib r env request = do {
     let lg = Session (Env_Logger env) ''remoteclient-mount'';
     log_Info lg ''start'';
     result \<leftarrow>
       (case Marshal (MountRequest_json request) of
          Inl e \<Rightarrow> do {
            log_Error lg ''failed-marshalling-request'' (Some e);
            State_Monad.return (zero_MountResponse\<lparr>MountResponse_Err := Error e\<rparr>)
          }
        | Inr payload \<Rightarrow> do {
              let factory = newReqFactory (rc_reqGen r) MountRoute (Some payload);
              (response, err) \<leftarrow> rc_do lib r (Env_Context env) lg factory;
              (case err of
                 Some e \<Rightarrow> do {
                   log_Error lg ''failed-mounting-volume'' (Some e);
                   State_Monad.return (zero_MountResponse\<lparr>MountResponse_Err := Error e\<rparr>)
                 }
               | None \<Rightarrow>
                   (case response of
                      None \<Rightarrow> State_Monad.return (zero_MountResponse\<lparr>MountResponse_Err := invalid_response\<rparr>)
                    | Some data \<Rightarrow>
                        (case Unmarshal dec_MountResponse zero_MountResponse data of
                           Inl e \<Rightarrow> do {
                             log_Error lg ''failed-parsing-mount-response'' (Some e);
                             State_Monad.return (zero_MountResponse\<lparr>MountResponse_Err := Error e\<rparr>)
                           }
                         | Inr answer \<Rightarrow> State_Monad.return answer)))
            });
     log_Info lg ''end'';
     State_Monad.return result
   }"

definition rc_Path ::
  "'n http_lib \<Rightarrow> remoteClient \<Rightarrow> Env \<Rightarrow> PathRequest \<Rightarrow> ('n client_state, PathResponse) state" where
  "rc_Path lib r env request = do {
     let lg = Session (Env_Logger env) ''path'';
     log_Info lg ''start'';
     result \<leftarrow>
       (case Marshal (PathRequest_json request) of
          Inl e \<Rightarrow> do {
            log_Error lg ''failed-marshalling-request'' (Some e);
            State_Monad.return (zero_PathResponse\<lparr>PathResponse_Err := Error e\<rparr>)
          }
        | Inr payload \<Rightarrow> do {
              let factory = newReqFactory (rc_reqGen r) PathRoute (Some payload);
              (response, err) \<leftarrow> rc_do lib r (Env_Context env) lg factory;
              (case err of
                 Some e \<Rightarrow> do {
                   log_Error lg ''failed-volume-path'' (Some e);
                   State_Monad.return (zero_PathResponse\<lparr>PathResponse_Err := Error e\<rparr>)
                 }
               | None \<Rightarrow>
                   (case response of
                      None \<Rightarrow> State_Monad.return (zero_PathResponse\<lparr>PathResponse_Err := invalid_response\<rparr>)
                    | Some data \<Rightarrow>
                        (case Unmarshal dec_PathResponse zero_PathResponse data of
                           Inl e \<Rightarrow> do {
                             log_Error lg ''failed-parsing-path-response'' (Some e);
                             State_Monad.return (zero_PathResponse\<lparr>PathResponse_Err := Error e\<rparr>)
                           }
                         | Inr answer \<Rightarrow> State_Monad.return answer)))
            });
     log_Info lg ''end'';
     State_Monad.return result
   }"

definition rc_Unmount ::
  "'n http_lib \<Rightarrow> remoteClient \<Rightarrow> Env \<Rightarrow> UnmountRequest \<Rightarrow> ('n client_state, ErrorResponse) state" where
  "rc_Unmount lib r env request = do {
     let lg = Session (Env_Logger env) ''unmount'';
     log_Info lg ''start'';
     result \<leftarrow>
       (case Marshal (UnmountRequest_json request) of
          Inl e \<Rightarrow> do {
            log_Error lg ''failed-marshalling-request'' (Some e);
            State_Monad.return (\<lparr>ErrorResponse_Err = Error e\<rparr>)
          }
        | Inr payload \<Rightarrow> do {
              let factory = newReqFactory (rc_reqGen r) UnmountRoute (Some payload);
              (response, err) \<leftarrow> rc_do lib r (Env_Context env) lg factory;
              (case err of
                 Some e \<Rightarrow> do {
                   log_Error lg ''failed-unmounting-volume'' (Some e);
                   State_Monad.return (\<lparr>ErrorResponse_Err = Error e\<rparr>)
                 }
               | None \<Rightarrow>
                   (case response of
                      None \<Rightarrow> State_Monad.return (\<lparr>ErrorResponse_Err = invalid_response\<rparr>)
                    | Some data \<Rightarrow>
                        (case Unmarshal dec_ErrorResponse zero_ErrorResponse data of
                           Inl e \<Rightarrow> do {
                             log_Error lg ''failed-parsing-error-response'' (Some e);
                             State_Monad.return (\<lparr>ErrorResponse_Err = Error e\<rparr>)
                           }
                         | Inr answer \<Rightarrow> State_Monad.return answer)))
            });
     log_Info lg ''end'';
     State_Monad.return result
   }"

definition rc_Remove ::
  "'n http_lib \<Rightarrow> remoteClient \<Rightarrow> Env \<Rightarrow> RemoveRequest \<Rightarrow> ('n client_state, ErrorResponse) state" where
  "rc_Remove lib r env request = do {
     let lg = Session (Env_Logger env) ''remove'';
     log_Info lg ''start'';
     result \<leftarrow>
       (case Marshal (RemoveRequest_json request) of
          Inl e \<Rightarrow> do {
            log_Error lg ''failed-marshalling-request'' (Some e);
            State_Monad.return (\<lparr>ErrorResponse_Err = Error e\<rparr>)
          }
        | Inr payload \<Rightarrow> do {
              let factory = newReqFactory (rc_reqGen r) RemoveRoute (Some payload);
              (response, err) \<leftarrow> rc_do lib r (Env_Context env) lg factory;
              (case err of
                 Some e \<Rightarrow> do {
                   log_Error lg ''failed-removing-volume'' (Some e);
                   State_Monad.return (\<lparr>ErrorResponse_Err = Error e\<rparr>)
                 }
               | None \<Rightarrow>
                   (case response of
                      None \<Rightarrow> State_Monad.return (\<lparr>ErrorResponse_Err = invalid_response\<rparr>)
                    | Some data \<Rightarrow>
                        (case Unmarshal dec_ErrorResponse zero_ErrorResponse data of
                           Inl e \<Rightarrow> do {
                             log_Error lg ''failed-parsing-error-response'' (Some e);
                             State_Monad.return (\<lparr>ErrorResponse_Err = Error e\<rparr>)
                           }
                         | Inr answer \<Rightarrow> State_Monad.return answer)))
            });
     log_Info lg ''end'';
     State_Monad.return result
   }"

definition rc_Get ::
  "'n http_lib \<Rightarrow> remoteClient \<Rightarrow> Env \<Rightarrow> GetRequest \<Rightarrow> ('n client_state, GetResponse) state" where
  "rc_Get lib r env request = do {
     let lg = Session (Env_Logger env) ''get'';
     log_Info lg ''start'';
     result \<leftarrow>
       (case Marshal (GetRequest_json request) of
          Inl e \<Rightarrow> do {
            log_Error lg ''failed-marshalling-request'' (Some e);
            State_Monad.return (zero_GetResponse\<lparr>GetResponse_Err := Error e\<rparr>)
          }
        | Inr payload \<Rightarrow> do {
              let factory = newReqFactory (rc_reqGen r) GetRoute (Some payload);
              (response, err) \<leftarrow> rc_do lib r (Env_Context env) lg factory;
              (case err of
                 Some e \<Rightarrow> do {
                   log_Error lg ''failed-getting-volume'' (Some e);
                   State_Monad.return (zero_GetResponse\<lparr>GetResponse_Err := Error e\<rparr>)
                 }
               | None \<Rightarrow>
                   (case response of
                      None \<Rightarrow> State_Monad.return (zero_GetResponse\<lparr>GetResponse_Err := invalid_response\<rparr>)
                    | Some data \<Rightarrow>
                        (case Unmarshal dec_GetResponse zero_GetResponse data of
                           Inl e \<Rightarrow> do {
                             log_Error lg ''failed-parsing-error-response'' (Some e);
                             State_Monad.return (zero_GetResponse\<lparr>GetResponse_Err := Error e\<rparr>)
                           }
                         | Inr answer \<Rightarrow> State_Monad.return answer)))
            });
     log_Info lg ''end'';
     State_Monad.return result
   }"

definition rc_Capabilities ::
  "'n http_lib \<Rightarrow> remoteClient \<Rightarrow> Env \<Rightarrow> ('n client_state, CapabilitiesResponse) state" where
  "rc_Capabilities lib r env = do {
     let lg = Session (Env_Logger env) ''capabilities'';
     log_Info lg ''start'';
     result \<leftarrow>
       do {
         let factory = newReqFactory (rc_reqGen r) CapabilitiesRoute None;
         (response, err) \<leftarrow> rc_do lib r (Env_Context env) lg factory;
         (case err of
            Some e \<Rightarrow> do {
              log_Error lg ''failed-capabilities'' (Some e);
              State_Monad.return (zero_CapabilitiesResponse)
            }
          | None \<Rightarrow>
              (case response of
                 None \<Rightarrow> State_Monad.return (zero_CapabilitiesResponse)
               | Some data \<Rightarrow>
                   (case Unmarshal dec_CapabilitiesResponse zero_CapabilitiesResponse data of
                      Inl e \<Rightarrow> do {
                        log_Error lg ''failed-parsing-capabilities-response'' (Some e);
                        State_Monad.return (zero_CapabilitiesResponse)
                      }
                    | Inr answer \<Rightarrow> State_Monad.return answer)))
       };
     log_Info lg ''end'';
     State_Monad.return result
   }"

text \<open>The client as a driver over its own state (\<open>GetVoldriver\<close>).\<close>

definition GetVoldriver :: "'f strconv \<Rightarrow> 'n http_lib \<Rightarrow> remoteClient \<Rightarrow> ('f, 'n client_state) Driver" where
  "GetVoldriver fl lib r =
     \<lparr>Driver_Activate = rc_Activate lib r, Driver_Get = rc_Get lib r, Driver_List = rc_List lib r,
      Driver_Mount = rc_Mount lib r, Driver_Path = rc_Path lib r, Driver_Unmount = rc_Unmount lib r,
      Driver_Capabilities = rc_Capabilities lib r, Driver_Create = rc_Create fl lib r,
      Driver_Remove = rc_Remove lib r\<rparr>"

text \<open>The same client behind the interface \<open>MatchableDriver\<close>, which a caller asks for.\<close>

definition matchable_client :: "'f strconv \<Rightarrow> 'n http_lib \<Rightarrow> remoteClient \<Rightarrow> ('f, 'n client_state) MatchableDriver" where
  "matchable_client fl lib r =
     Driver.extend (GetVoldriver fl lib r) (MatchableDriver.fields (Matches r))"

end
