(* ===== verification/Client_Spec.thy ===== *)
theory Client_Spec
  imports Remote_Client
begin

text \<open>
  What every operation of the remote client promises. \<open>exchange\<close> is one round over the HTTP
  client without the logging, \<open>remote_call\<close> the abstract operation: encode the argument,
  exchange, decode, with each failure turned into a response. The locale \<open>remote_method\<close> is
  the contract and each of the nine operations interprets it; \<open>remote_error_method\<close> adds
  that failures are visible in the response, which holds for all but \<open>Capabilities\<close>.
\<close>

definition check_reply :: "http_response \<Rightarrow> go_error + string" where
  "check_reply response =
     (case rd_error (resp_Body response) of
        Some err \<Rightarrow> Inl err
      | None \<Rightarrow>
          bind_ok (Unmarshal dec_ErrorResponse zero_ErrorResponse (rd_bytes (resp_Body response)))
            (\<lambda>er. if ErrorResponse_Err er \<noteq> '''' then Inl (GoError (ErrorResponse_Err er))
                  else Inr (rd_bytes (resp_Body response))))"

definition exchange ::
  "'n http_lib \<Rightarrow> remoteClient \<Rightarrow> ctx \<Rightarrow> reqFactory \<Rightarrow> 'n \<Rightarrow> (go_error + string) \<times> 'n" where
  "exchange lib r cx rf n =
     (case Request lib rf of
        Inl err \<Rightarrow> (Inl err, n)
      | Inr request \<Rightarrow>
          (let (result, n') = run_state (http_Do lib (rc_HttpClient r) (request\<lparr>http_Context := Some cx\<rparr>)) n
           in (bind_ok result check_reply, n')))"

text \<open>The method \<open>do\<close> is an exchange that logs; without an error its data is never nil.\<close>

lemma rc_do_exchange:
  obtains d e es n where
    "run_state (rc_do lib r cx lg rf) s = ((d, e), s\<lparr>log := log s @ es, cl_net := n\<rparr>)"
    "exchange lib r cx rf (cl_net s) = (case e of Some err \<Rightarrow> Inl err | None \<Rightarrow> Inr (the d), n)"
    "e = None \<Longrightarrow> d \<noteq> None"
proof (cases "Request lib rf")
  case (Inl err)
  show ?thesis
    by (rule that [where d = None and e = "Some err" and es = "[LogEntry ERROR (lg @ ''.request-gen-failed'') (Some (Error err))]" and n = "cl_net s"])
      (simp_all add: rc_do_def exchange_def Inl log_defs)
next
  case (Inr request)
  obtain result n where Do: "run_state (http_Do lib (rc_HttpClient r) (request\<lparr>http_Context := Some cx\<rparr>)) (cl_net s) = (result, n)"
    by fastforce
  show ?thesis
  proof (cases result)
    case (Inl err)
    show ?thesis
      by (rule that [where d = None and e = "Some err" and es = "[LogEntry ERROR (lg @ ''.request-failed'') (Some (Error err))]" and n = n])
        (simp_all add: rc_do_def exchange_def Inr Do Inl log_defs Let_def)
  next
    case response: (Inr response)
    let ?dbg = "LogEntry DEBUG (lg @ ''.response'') None"
    let ?data = "rd_bytes (resp_Body response)"
    show ?thesis
    proof (cases "rd_error (resp_Body response)")
      case (Some err)
      show ?thesis
        by (rule that [where d = "Some ?data" and e = "Some err" and es = "[?dbg]" and n = n])
          (simp_all add: rc_do_def exchange_def check_reply_def Inr Do response Some log_defs Let_def ReadAll_def)
    next
      case None
      show ?thesis
      proof (cases "Unmarshal dec_ErrorResponse zero_ErrorResponse ?data")
        case (Inl err)
        show ?thesis
          by (rule that [where d = "Some ?data" and e = "Some err" and es = "[?dbg, LogEntry ERROR (lg @ ''.failed-parsing-http-response-body'') (Some (Error err))]" and n = n])
            (simp_all add: rc_do_def exchange_def check_reply_def Inr Do response None Inl log_defs Let_def ReadAll_def)
      next
        case er: (Inr er)
        show ?thesis
          by (rule that [where d = "Some ?data" and e = "if ErrorResponse_Err er \<noteq> '''' then Some (GoError (ErrorResponse_Err er)) else None" and es = "[?dbg]" and n = n])
            (simp_all add: rc_do_def exchange_def check_reply_def Inr Do response None er log_defs Let_def ReadAll_def)
      qed
    qed
  qed
qed

section \<open>The contract\<close>

definition remote_call ::
  "'n http_lib \<Rightarrow> remoteClient \<Rightarrow> ctx \<Rightarrow> string \<Rightarrow> go_error + string nilable \<Rightarrow> 'a decoder \<Rightarrow> 'a \<Rightarrow>
    (go_error \<Rightarrow> 'r) \<Rightarrow> ('a \<Rightarrow> 'r) \<Rightarrow> 'n \<Rightarrow> 'r \<times> 'n" where
  "remote_call lib r cx route payload dec zero fail finish n =
     (case payload of
        Inl e \<Rightarrow> (fail e, n)
      | Inr p \<Rightarrow>
          (let (result, n') = exchange lib r cx (newReqFactory (rc_reqGen r) route p) n in
           (case bind_ok result (Unmarshal dec zero) of Inl e \<Rightarrow> fail e | Inr a \<Rightarrow> finish a, n')))"

locale remote_method =
  fixes m :: "Env \<Rightarrow> 'q \<Rightarrow> ('n client_state, 'r) state"
    and lib :: "'n http_lib" and client :: remoteClient
    and task :: string and route :: string
    and payload :: "'q \<Rightarrow> go_error + string nilable"
    and dec :: "'a decoder" and zero :: 'a
    and fail :: "go_error \<Rightarrow> 'r" and finish :: "'a \<Rightarrow> 'r"
  assumes refines:
    "\<exists>es. run_state (m env q) s =
       (fst (remote_call lib client (Env_Context env) route (payload q) dec zero fail finish (cl_net s)),
        s\<lparr>log := log s @ [LogEntry INFO (Session (Env_Logger env) task @ ''.start'') None] @ es @
                 [LogEntry INFO (Session (Env_Logger env) task @ ''.end'') None],
          cl_net := snd (remote_call lib client (Env_Context env) route (payload q) dec zero fail finish (cl_net s))\<rparr>)"
begin

abbreviation call :: "Env \<Rightarrow> 'q \<Rightarrow> 'n \<Rightarrow> 'r \<times> 'n" where
  "call env q n \<equiv> remote_call lib client (Env_Context env) route (payload q) dec zero fail finish n"

lemma result: "fst (run_state (m env q) s) = fst (call env q (cl_net s))"
  using refines [of env q s] by auto

lemma network: "cl_net (snd (run_state (m env q) s)) = snd (call env q (cl_net s))"
  using refines [of env q s] by auto

text \<open>An argument that cannot be encoded is reported without touching the network.\<close>

lemma unencodable:
  assumes "payload q = Inl e"
  shows "fst (run_state (m env q) s) = fail e" and "cl_net (snd (run_state (m env q) s)) = cl_net s"
  by (simp_all add: result network remote_call_def assms)

text \<open>A request that cannot be generated is reported without touching the network.\<close>

lemma ungenerated:
  assumes "payload q = Inr p" and "Request lib (newReqFactory (rc_reqGen client) route p) = Inl e"
  shows "fst (run_state (m env q) s) = fail e" and "cl_net (snd (run_state (m env q) s)) = cl_net s"
  by (simp_all add: result network remote_call_def exchange_def assms)

text \<open>Otherwise there is exactly one call of \<open>Do\<close>, with the caller's context; its outcome
  decides the result.\<close>

lemma one_call:
  assumes "payload q = Inr p" and "Request lib (newReqFactory (rc_reqGen client) route p) = Inr request"
    and "run_state (http_Do lib (rc_HttpClient client) (request\<lparr>http_Context := Some (Env_Context env)\<rparr>)) (cl_net s) = (outcome, n)"
  shows "fst (run_state (m env q) s) =
      (case bind_ok (bind_ok outcome check_reply) (Unmarshal dec zero) of Inl e \<Rightarrow> fail e | Inr a \<Rightarrow> finish a)"
    and "cl_net (snd (run_state (m env q) s)) = n"
  by (simp_all add: result network remote_call_def exchange_def assms)

end

locale remote_error_method = remote_method +
  fixes err :: "'c \<Rightarrow> string"
  assumes fail_err: "err (fail e) = Error e"
begin

lemma transport_error:
  assumes "payload q = Inr p" and "Request lib (newReqFactory (rc_reqGen client) route p) = Inr request"
    and "run_state (http_Do lib (rc_HttpClient client) (request\<lparr>http_Context := Some (Env_Context env)\<rparr>)) (cl_net s) = (Inl e, n)"
  shows "err (fst (run_state (m env q) s)) = Error e"
  using one_call(1) [OF assms] by (simp add: fail_err)

lemma reply_error:
  assumes "payload q = Inr p" and "Request lib (newReqFactory (rc_reqGen client) route p) = Inr request"
    and "run_state (http_Do lib (rc_HttpClient client) (request\<lparr>http_Context := Some (Env_Context env)\<rparr>)) (cl_net s) = (Inr response, n)"
    and "check_reply response = Inl e"
  shows "err (fst (run_state (m env q) s)) = Error e"
  using one_call(1) [OF assms(1-3)] by (simp add: fail_err assms(4))

end

section \<open>The operations meet it\<close>

lemma run_case_option:
  "run_state (case x of None \<Rightarrow> a | Some y \<Rightarrow> b y) s = (case x of None \<Rightarrow> run_state a s | Some y \<Rightarrow> run_state (b y) s)"
  by (simp split: option.split)

definition no_payload :: "'q \<Rightarrow> go_error + string nilable" where
  "no_payload _ = Inr None"

definition json_payload :: "('q \<Rightarrow> json) \<Rightarrow> 'q \<Rightarrow> go_error + string nilable" where
  "json_payload enc q = Inr (Some (print_json (enc q)))"

definition create_payload :: "'f strconv \<Rightarrow> 'f CreateRequest \<Rightarrow> go_error + string nilable" where
  "create_payload fl q = bind_ok (CreateRequest_json fl q) (\<lambda>j. Inr (Some (print_json j)))"

text \<open>The common shape of the nine operations.\<close>

definition logged_call ::
  "'n http_lib \<Rightarrow> remoteClient \<Rightarrow> Env \<Rightarrow> string \<Rightarrow> string \<Rightarrow> string \<Rightarrow> string \<Rightarrow> go_error + string nilable \<Rightarrow>
    'a decoder \<Rightarrow> 'a \<Rightarrow> 'r \<Rightarrow> (go_error \<Rightarrow> 'r) \<Rightarrow> ('a \<Rightarrow> 'r) \<Rightarrow> ('n client_state, 'r) state" where
  "logged_call lib r env task route do_action parse_action payload dec zero invalid fail finish = do {
     let lg = Session (Env_Logger env) task;
     log_Info lg ''start'';
     result \<leftarrow>
       (case payload of
          Inl e \<Rightarrow> do {
            log_Error lg ''failed-marshalling-request'' (Some e);
            State_Monad.return (fail e)
          }
        | Inr p \<Rightarrow> do {
            (response, err) \<leftarrow> rc_do lib r (Env_Context env) lg (newReqFactory (rc_reqGen r) route p);
            (case err of
               Some e \<Rightarrow> do {
                 log_Error lg do_action (Some e);
                 State_Monad.return (fail e)
               }
             | None \<Rightarrow>
                 (case response of
                    None \<Rightarrow> State_Monad.return invalid
                  | Some data \<Rightarrow>
                      (case Unmarshal dec zero data of
                         Inl e \<Rightarrow> do {
                           log_Error lg parse_action (Some e);
                           State_Monad.return (fail e)
                         }
                       | Inr a \<Rightarrow> State_Monad.return (finish a))))
          });
     log_Info lg ''end'';
     State_Monad.return result
   }"

text \<open>The branch for a nil response is never taken: without an error the data is not nil.\<close>

lemma logged_call_refines:
  "\<exists>es. run_state (logged_call lib r env task route do_action parse_action payload dec zero invalid fail finish) s =
     (fst (remote_call lib r (Env_Context env) route payload dec zero fail finish (cl_net s)),
      s\<lparr>log := log s @ [LogEntry INFO (Session (Env_Logger env) task @ ''.start'') None] @ es @
               [LogEntry INFO (Session (Env_Logger env) task @ ''.end'') None],
        cl_net := snd (remote_call lib r (Env_Context env) route payload dec zero fail finish (cl_net s))\<rparr>)"
proof -
  let ?lg = "Session (Env_Logger env) task"
  let ?s = "s\<lparr>log := log s @ [LogEntry INFO (?lg @ ''.start'') None]\<rparr>"
  show ?thesis
  proof (cases payload)
    case (Inl e)
    then show ?thesis
      by (intro exI [of _ "[LogEntry ERROR (?lg @ ''.failed-marshalling-request'') (Some (Error e))]"])
        (simp add: logged_call_def remote_call_def log_defs Let_def)
  next
    case (Inr p)
    obtain d e es n where run:
      "run_state (rc_do lib r (Env_Context env) ?lg (newReqFactory (rc_reqGen r) route p)) ?s =
        ((d, e), ?s\<lparr>log := log ?s @ es, cl_net := n\<rparr>)"
      and ex: "exchange lib r (Env_Context env) (newReqFactory (rc_reqGen r) route p) (cl_net ?s) =
        (case e of Some err \<Rightarrow> Inl err | None \<Rightarrow> Inr (the d), n)"
      and nil: "e = None \<Longrightarrow> d \<noteq> None"
      by (rule rc_do_exchange [where lib = lib and r = r and cx = "Env_Context env" and lg = ?lg
            and rf = "newReqFactory (rc_reqGen r) route p" and s = ?s]) (rule that)
    show ?thesis
    proof (cases e)
      case (Some err)
      with Inr run ex show ?thesis
        by (intro exI [of _ "es @ [LogEntry ERROR (?lg @ ''.'' @ do_action) (Some (Error err))]"])
          (simp add: logged_call_def remote_call_def log_defs Let_def)
    next
      case None
      with nil obtain data where d: "d = Some data" by auto
      show ?thesis
      proof (cases "Unmarshal dec zero data")
        case (Inl err)
        with \<open>payload = Inr p\<close> run ex None d show ?thesis
          by (intro exI [of _ "es @ [LogEntry ERROR (?lg @ ''.'' @ parse_action) (Some (Error err))]"])
            (simp add: logged_call_def remote_call_def log_defs Let_def)
      next
        case a: (Inr a)
        with \<open>payload = Inr p\<close> run ex None d show ?thesis
          by (intro exI [of _ es]) (simp add: logged_call_def remote_call_def log_defs Let_def)
      qed
    qed
  qed
qed

lemma rc_Activate_logged:
  "rc_Activate lib r env =
    logged_call lib r env ''activate'' ActivateRoute ''failed-activate'' ''failed-parsing-activate-response''
      (Inr None) dec_ActivateResponse zero_ActivateResponse ((\<lambda>e. zero_ActivateResponse\<lparr>ActivateResponse_Err := Error e\<rparr>) (GoError invalid_response))
      (\<lambda>e. zero_ActivateResponse\<lparr>ActivateResponse_Err := Error e\<rparr>) (\<lambda>a. a)"
  by (simp add: rc_Activate_def logged_call_def no_payload_def json_payload_def create_payload_def Marshal_def
      bind_ok_case Let_def split: sum.split)

interpretation remote_Activate: remote_error_method "\<lambda>env _. rc_Activate lib r env" lib r "''activate''" ActivateRoute
  "no_payload" dec_ActivateResponse zero_ActivateResponse
  "\<lambda>e. zero_ActivateResponse\<lparr>ActivateResponse_Err := Error e\<rparr>" "\<lambda>a. a" ActivateResponse_Err
  by unfold_locales (simp only: rc_Activate_logged no_payload_def logged_call_refines, simp)

lemma rc_Create_logged:
  "rc_Create fl lib r env q =
    logged_call lib r env ''create'' CreateRoute ''failed-creating-volume'' ''failed-parsing-error-response''
      (create_payload fl q) dec_ErrorResponse zero_ErrorResponse ((\<lambda>e. \<lparr>ErrorResponse_Err = Error e\<rparr>) (GoError invalid_response))
      (\<lambda>e. \<lparr>ErrorResponse_Err = Error e\<rparr>) (\<lambda>_. zero_ErrorResponse)"
  by (simp add: rc_Create_def logged_call_def no_payload_def json_payload_def create_payload_def Marshal_def
      bind_ok_case Let_def split: sum.split)

interpretation remote_Create: remote_error_method "rc_Create fl lib r" lib r "''create''" CreateRoute
  "create_payload fl" dec_ErrorResponse zero_ErrorResponse
  "\<lambda>e. \<lparr>ErrorResponse_Err = Error e\<rparr>" "\<lambda>_. zero_ErrorResponse" ErrorResponse_Err
  by unfold_locales (simp only: rc_Create_logged no_payload_def logged_call_refines, simp)

lemma rc_List_logged:
  "rc_List lib r env =
    logged_call lib r env ''remoteclient-list'' ListRoute ''failed-list'' ''failed-parsing-list-response''
      (Inr None) dec_ListResponse zero_ListResponse ((\<lambda>e. zero_ListResponse\<lparr>ListResponse_Err := Error e\<rparr>) (GoError invalid_response))
      (\<lambda>e. zero_ListResponse\<lparr>ListResponse_Err := Error e\<rparr>) (\<lambda>a. a)"
  by (simp add: rc_List_def logged_call_def no_payload_def json_payload_def create_payload_def Marshal_def
      bind_ok_case Let_def split: sum.split)

interpretation remote_List: remote_error_method "\<lambda>env _. rc_List lib r env" lib r "''remoteclient-list''" ListRoute
  "no_payload" dec_ListResponse zero_ListResponse
  "\<lambda>e. zero_ListResponse\<lparr>ListResponse_Err := Error e\<rparr>" "\<lambda>a. a" ListResponse_Err
  by unfold_locales (simp only: rc_List_logged no_payload_def logged_call_refines, simp)

lemma rc_Mount_logged:
  "rc_Mount lib r env q =
    logged_call lib r env ''remoteclient-mount'' MountRoute ''failed-mounting-volume'' ''failed-parsing-mount-response''
      (json_payload MountRequest_json q) dec_MountResponse zero_MountResponse ((\<lambda>e. zero_MountResponse\<lparr>MountResponse_Err := Error e\<rparr>) (GoError invalid_response))
      (\<lambda>e. zero_MountResponse\<lparr>MountResponse_Err := Error e\<rparr>) (\<lambda>a. a)"
  by (simp add: rc_Mount_def logged_call_def no_payload_def json_payload_def create_payload_def Marshal_def
      bind_ok_case Let_def split: sum.split)

interpretation remote_Mount: remote_error_method "rc_Mount lib r" lib r "''remoteclient-mount''" MountRoute
  "json_payload MountRequest_json" dec_MountResponse zero_MountResponse
  "\<lambda>e. zero_MountResponse\<lparr>MountResponse_Err := Error e\<rparr>" "\<lambda>a. a" MountResponse_Err
  by unfold_locales (simp only: rc_Mount_logged no_payload_def logged_call_refines, simp)

lemma rc_Path_logged:
  "rc_Path lib r env q =
    logged_call lib r env ''path'' PathRoute ''failed-volume-path'' ''failed-parsing-path-response''
      (json_payload PathRequest_json q) dec_PathResponse zero_PathResponse ((\<lambda>e. zero_PathResponse\<lparr>PathResponse_Err := Error e\<rparr>) (GoError invalid_response))
      (\<lambda>e. zero_PathResponse\<lparr>PathResponse_Err := Error e\<rparr>) (\<lambda>a. a)"
  by (simp add: rc_Path_def logged_call_def no_payload_def json_payload_def create_payload_def Marshal_def
      bind_ok_case Let_def split: sum.split)

interpretation remote_Path: remote_error_method "rc_Path lib r" lib r "''path''" PathRoute
  "json_payload PathRequest_json" dec_PathResponse zero_PathResponse
  "\<lambda>e. zero_PathResponse\<lparr>PathResponse_Err := Error e\<rparr>" "\<lambda>a. a" PathResponse_Err
  by unfold_locales (simp only: rc_Path_logged no_payload_def logged_call_refines, simp)

lemma rc_Unmount_logged:
  "rc_Unmount lib r env q =
    logged_call lib r env ''unmount'' UnmountRoute ''failed-unmounting-volume'' ''failed-parsing-error-response''
      (json_payload UnmountRequest_json q) dec_ErrorResponse zero_ErrorResponse ((\<lambda>e. \<lparr>ErrorResponse_Err = Error e\<rparr>) (GoError invalid_response))
      (\<lambda>e. \<lparr>ErrorResponse_Err = Error e\<rparr>) (\<lambda>a. a)"
  by (simp add: rc_Unmount_def logged_call_def no_payload_def json_payload_def create_payload_def Marshal_def
      bind_ok_case Let_def split: sum.split)

interpretation remote_Unmount: remote_error_method "rc_Unmount lib r" lib r "''unmount''" UnmountRoute
  "json_payload UnmountRequest_json" dec_ErrorResponse zero_ErrorResponse
  "\<lambda>e. \<lparr>ErrorResponse_Err = Error e\<rparr>" "\<lambda>a. a" ErrorResponse_Err
  by unfold_locales (simp only: rc_Unmount_logged no_payload_def logged_call_refines, simp)

lemma rc_Remove_logged:
  "rc_Remove lib r env q =
    logged_call lib r env ''remove'' RemoveRoute ''failed-removing-volume'' ''failed-parsing-error-response''
      (json_payload RemoveRequest_json q) dec_ErrorResponse zero_ErrorResponse ((\<lambda>e. \<lparr>ErrorResponse_Err = Error e\<rparr>) (GoError invalid_response))
      (\<lambda>e. \<lparr>ErrorResponse_Err = Error e\<rparr>) (\<lambda>a. a)"
  by (simp add: rc_Remove_def logged_call_def no_payload_def json_payload_def create_payload_def Marshal_def
      bind_ok_case Let_def split: sum.split)

interpretation remote_Remove: remote_error_method "rc_Remove lib r" lib r "''remove''" RemoveRoute
  "json_payload RemoveRequest_json" dec_ErrorResponse zero_ErrorResponse
  "\<lambda>e. \<lparr>ErrorResponse_Err = Error e\<rparr>" "\<lambda>a. a" ErrorResponse_Err
  by unfold_locales (simp only: rc_Remove_logged no_payload_def logged_call_refines, simp)

lemma rc_Get_logged:
  "rc_Get lib r env q =
    logged_call lib r env ''get'' GetRoute ''failed-getting-volume'' ''failed-parsing-error-response''
      (json_payload GetRequest_json q) dec_GetResponse zero_GetResponse ((\<lambda>e. zero_GetResponse\<lparr>GetResponse_Err := Error e\<rparr>) (GoError invalid_response))
      (\<lambda>e. zero_GetResponse\<lparr>GetResponse_Err := Error e\<rparr>) (\<lambda>a. a)"
  by (simp add: rc_Get_def logged_call_def no_payload_def json_payload_def create_payload_def Marshal_def
      bind_ok_case Let_def split: sum.split)

interpretation remote_Get: remote_error_method "rc_Get lib r" lib r "''get''" GetRoute
  "json_payload GetRequest_json" dec_GetResponse zero_GetResponse
  "\<lambda>e. zero_GetResponse\<lparr>GetResponse_Err := Error e\<rparr>" "\<lambda>a. a" GetResponse_Err
  by unfold_locales (simp only: rc_Get_logged no_payload_def logged_call_refines, simp)

lemma rc_Capabilities_logged:
  "rc_Capabilities lib r env =
    logged_call lib r env ''capabilities'' CapabilitiesRoute ''failed-capabilities'' ''failed-parsing-capabilities-response''
      (Inr None) dec_CapabilitiesResponse zero_CapabilitiesResponse ((\<lambda>e. zero_CapabilitiesResponse) (GoError invalid_response))
      (\<lambda>e. zero_CapabilitiesResponse) (\<lambda>a. a)"
  by (simp add: rc_Capabilities_def logged_call_def no_payload_def json_payload_def create_payload_def Marshal_def
      bind_ok_case Let_def split: sum.split)

interpretation remote_Capabilities: remote_method "\<lambda>env _. rc_Capabilities lib r env" lib r "''capabilities''" CapabilitiesRoute
  "no_payload" dec_CapabilitiesResponse zero_CapabilitiesResponse
  "\<lambda>e. zero_CapabilitiesResponse" "\<lambda>a. a"
  by unfold_locales (simp only: rc_Capabilities_logged no_payload_def logged_call_refines)

section \<open>Properties\<close>

text \<open>Property C14. \<open>Mount\<close> makes exactly one HTTP call, with the caller's context, however the call
  ends: the network moves by that one call, a failed call is the response's error, and a reply
  decides the response. There is no retry.\<close>

theorem mount_one_request:
  assumes "Request lib (newReqFactory (rc_reqGen r) MountRoute (Some (print_json (MountRequest_json q)))) = Inr request"
    and "run_state (http_Do lib (rc_HttpClient r) (request\<lparr>http_Context := Some (Env_Context env)\<rparr>)) (cl_net s) = (outcome, n)"
    and "(result, s') = run_state (rc_Mount lib r env q) s"
  shows "cl_net s' = n \<and>
    result = (case bind_ok (bind_ok outcome check_reply) (Unmarshal dec_MountResponse zero_MountResponse) of
        Inl e \<Rightarrow> zero_MountResponse\<lparr>MountResponse_Err := Error e\<rparr>
      | Inr answer \<Rightarrow> answer)"
proof -
  have "json_payload MountRequest_json q = Inr (Some (print_json (MountRequest_json q)))"
    by (simp add: json_payload_def)
  from remote_Mount.one_call [OF this assms(1,2)] show ?thesis
    by (simp add: assms(3) [symmetric])
qed

text \<open>Property C36. Options that JSON cannot carry are reported as the error of the response; nothing is
  sent.\<close>

theorem create_unencodable:
  assumes "CreateRequest_json fl q = Inl e"
    and "(result, s') = run_state (rc_Create fl lib r env q) s"
  shows "ErrorResponse_Err result = Error e \<and> cl_net s' = cl_net s"
proof -
  have "create_payload fl q = Inl e" by (simp add: create_payload_def assms(1))
  from remote_Create.unencodable [OF this, of lib r env s] show ?thesis by (simp add: assms(2) [symmetric])
qed

text \<open>An error the server reports in its JSON answer is the error of the client's
  response, word for word.\<close>

theorem unmount_server_error:
  assumes "Request lib (newReqFactory (rc_reqGen r) UnmountRoute (Some (print_json (UnmountRequest_json q)))) = Inr request"
    and "run_state (http_Do lib (rc_HttpClient r) (request\<lparr>http_Context := Some (Env_Context env)\<rparr>)) (cl_net s) = (Inr response, n)"
    and "resp_Body response = \<lparr>rd_bytes = print_json (ErrorResponse_json \<lparr>ErrorResponse_Err = msg\<rparr>), rd_error = None\<rparr>"
    and "msg \<noteq> ''''" and "valid_utf8 msg"
  shows "fst (run_state (rc_Unmount lib r env q) s) = \<lparr>ErrorResponse_Err = msg\<rparr>"
proof -
  have payload: "json_payload UnmountRequest_json q = Inr (Some (print_json (UnmountRequest_json q)))"
    by (simp add: json_payload_def)
  have "strings_valid (ErrorResponse_json \<lparr>ErrorResponse_Err = msg\<rparr>)"
    using assms(5) by (simp add: ErrorResponse_json_def valid_utf8_ascii)
  from wire_ErrorResponse.unmarshal_err [OF this] have "check_reply response = Inl (GoError msg)"
    using assms(4) by (simp add: check_reply_def assms(3))
  with remote_Unmount.one_call(1) [OF payload assms(1,2)] show ?thesis by simp
qed

text \<open>Once the reply carries no error, \<open>Create\<close> answers with the empty response: nothing
  else in the reply's body reaches the caller.\<close>

theorem create_ignores_body:
  assumes "CreateRequest_json fl q = Inr j"
    and "Request lib (newReqFactory (rc_reqGen r) CreateRoute (Some (print_json j))) = Inr request"
    and "run_state (http_Do lib (rc_HttpClient r) (request\<lparr>http_Context := Some (Env_Context env)\<rparr>)) (cl_net s) = (Inr response, n)"
    and "check_reply response = Inr data"
  shows "fst (run_state (rc_Create fl lib r env q) s) = zero_ErrorResponse"
proof -
  have payload: "create_payload fl q = Inr (Some (print_json j))" by (simp add: create_payload_def assms(1))
  from assms(4) obtain x where "Unmarshal dec_ErrorResponse zero_ErrorResponse data = Inr x"
    by (auto simp: check_reply_def bind_ok_Inr_iff split: option.splits if_splits)
  with remote_Create.one_call(1) [OF payload assms(2,3)] assms(4) show ?thesis by simp
qed

text \<open>\<open>Capabilities\<close> has no error to return: a failed call comes back as the empty
  capabilities.\<close>

theorem capabilities_hides_errors:
  assumes "Request lib (newReqFactory (rc_reqGen r) CapabilitiesRoute None) = Inr request"
    and "run_state (http_Do lib (rc_HttpClient r) (request\<lparr>http_Context := Some (Env_Context env)\<rparr>)) (cl_net s) = (Inl e, n)"
  shows "fst (run_state (rc_Capabilities lib r env) s) = zero_CapabilitiesResponse"
  using remote_Capabilities.one_call(1) [OF _ assms, of "()"] by (simp add: no_payload_def)

definition tls_ok :: "TLSConfig nilable \<Rightarrow> bool" where
  "tls_ok t = (case t of None \<Rightarrow> True | Some c \<Rightarrow> strings_valid (TLSConfig_json c))"

definition tls_key :: "TLSConfig nilable \<Rightarrow> string" where
  "tls_key t = (case t of None \<Rightarrow> '''' | Some c \<Rightarrow> print_json (TLSConfig_json c))"

lemma tls_key_inject: "tls_ok a \<Longrightarrow> tls_ok b \<Longrightarrow> tls_key a = tls_key b \<longleftrightarrow> a = b"
proof (cases a; cases b)
  fix x y assume "a = Some x" "b = Some y" "tls_ok a" "tls_ok b"
  then show ?thesis using wire_TLSConfig.enc_inject [of x y] by (auto simp: tls_key_def tls_ok_def)
qed (simp_all add: tls_key_def TLSConfig_json_def)

lemma run_Matches: "fst (run_state (Matches r lg url tls) s) \<longleftrightarrow> url = rc_url r \<and> tls_key tls = tls_key (rc_tls r)"
  by (simp add: Matches_def log_defs Let_def Marshal_def tls_key_def split: option.split)

text \<open>Property C21. A client matches exactly the URL and TLS configuration it was made with (paths in UTF-8):
  comparing the JSON forms confuses no two configurations, and none with nil.\<close>

theorem matches_iff:
  assumes "NewRemoteClient lib url tls = Inr r" and "tls_ok tls" and "tls_ok tls'"
  shows "fst (run_state (Matches r lg url' tls') s) \<longleftrightarrow> url' = url \<and> tls' = tls"
proof -
  have "rc_url r = url" "rc_tls r = tls"
    using assms(1) by (auto simp: NewRemoteClient_def NewRemoteClientWithClient_def bind_ok_Inr_iff Let_def)
  with tls_key_inject [OF assms(3,2)] show ?thesis by (simp add: run_Matches)
qed

text \<open>A client made by \<open>NewRemoteClientWithClient\<close> does not know its URL: it matches the
  empty URL only, and so never the one it talks to.\<close>

theorem unnamed_client_matches_nothing:
  "fst (run_state (Matches (NewRemoteClientWithClient url tls client clk) lg url' tls') s) \<longleftrightarrow>
    url' = '''' \<and> tls_key tls' = tls_key tls"
  by (simp add: run_Matches NewRemoteClientWithClient_def Let_def)

text \<open>What \<open>NewRemoteClient\<close> builds: a client without TLS, or one configured from the three files.\<close>

lemma NewRemoteClient_spec:
  "NewRemoteClient lib url tls =
    bind_ok
      (case tls of
         None \<Rightarrow> Inr (cfhttp_NewClient [])
       | Some t \<Rightarrow>
           bind_ok (identity_of_files lib (CertFile t) (KeyFile t)) (\<lambda>cert.
             bind_ok (certificates_of_file lib (CAFile t)) (\<lambda>certs.
               Inr (cfhttp_NewClient [WithTLSConfig (client_tls cert certs (InsecureSkipVerify t))]))))
      (\<lambda>client. Inr \<lparr>rc_HttpClient = CfhttpClient client, rc_reqGen = NewRequestGenerator url Routes,
         rc_clock = RealClock, rc_url = url, rc_tls = tls\<rparr>)"
  by (simp add: NewRemoteClient_def NewRemoteClientWithClient_def tls_Client_files client_tls_def Let_def bind_ok_case
      split: option.split sum.split)

text \<open>Property C31. \<open>NewRemoteClient\<close> fails exactly when there is a TLS configuration whose key pair or
  authority file is refused, with the error of the key pair when both are. It succeeds exactly
  when there is none, or both are accepted, and then makes a client for all nine routes of the URL
  with the TLS settings of those two files, or without any, that dials for at most five seconds,
  keeps idle connections for ninety and sets no limit to a whole request.\<close>

theorem new_client:
  "(NewRemoteClient lib url tls = Inl e \<longleftrightarrow>
      (\<exists>t. tls = Some t \<and>
        (identity_of_files lib (CertFile t) (KeyFile t) = Inl e \<or>
         (\<exists>cert. identity_of_files lib (CertFile t) (KeyFile t) = Inr cert) \<and>
           certificates_of_file lib (CAFile t) = Inl e))) \<and>
   (NewRemoteClient lib url tls = Inr r \<longleftrightarrow>
      (\<exists>tlsConfig.
        (case tls of
           None \<Rightarrow> tlsConfig = None
         | Some t \<Rightarrow> \<exists>cert certs. identity_of_files lib (CertFile t) (KeyFile t) = Inr cert \<and>
             certificates_of_file lib (CAFile t) = Inr certs \<and>
             tlsConfig = Some (client_tls cert certs (InsecureSkipVerify t))) \<and>
        r = \<lparr>rc_HttpClient = CfhttpClient
               \<lparr>dialer_Timeout = 5 * Second, dialer_KeepAlive = 0, tr_IdleConnTimeout = 90 * Second, tr_DisableKeepAlives = False,
                tr_MaxIdleConnsPerHost = 0, tr_TLSClientConfig = tlsConfig, client_Timeout = 0\<rparr>,
             rc_reqGen = NewRequestGenerator url Routes, rc_clock = RealClock, rc_url = url, rc_tls = tls\<rparr>))"
proof (cases tls)
  case None
  then show ?thesis
    by (auto simp: NewRemoteClient_spec cfhttp_NewClient_defaults Second_def)
next
  case (Some t)
  then show ?thesis
    by (cases "identity_of_files lib (CertFile t) (KeyFile t)"; cases "certificates_of_file lib (CAFile t)")
      (auto simp: NewRemoteClient_spec cfhttp_NewClient_defaults Second_def)
qed

text \<open>Property C32. With a TLS configuration \<open>NewRemoteClient\<close> succeeds exactly when the key pair loads and its
  certificate is valid now, and the authority file has at least one PEM block and each is a
  certificate that parses. The client then presents that certificate, trusts exactly those
  authorities, speaks TLS 1.2 or 1.3 with two cipher suites, and skips verification of the server
  exactly as configured.\<close>

theorem tls_client:
  "NewRemoteClient lib url (Some t) = Inr r \<longleftrightarrow>
    (\<exists>cert x pem certs pool.
      LoadX509KeyPair lib (CertFile t) (KeyFile t) = Inr cert \<and> ParseCertificate lib (cert_leaf cert) = Inr x \<and>
      NotBefore x \<le> time_Now lib \<and> time_Now lib \<le> NotAfter x \<and>
      read_file lib (CAFile t) = Inr pem \<and> pem_blocks lib pem \<noteq> [] \<and>
      list_all2 (\<lambda>b c. pem_Headers b = [] \<and> pem_Type b = ''CERTIFICATE'' \<and> ParseCertificate lib (pem_Bytes b) = Inr c)
        (pem_blocks lib pem) certs \<and>
      distinct pool \<and> set pool = set certs \<and> pool = fold AddCert certs [] \<and>
      r = \<lparr>rc_HttpClient = CfhttpClient ((cfhttp_NewClient [])\<lparr>tr_TLSClientConfig := Some
            \<lparr>tc_MinVersion = 0x0303, tc_MaxVersion = 0x0304, tc_CipherSuites = [0xc030, 0xc02f],
             tc_Certificates = [cert], tc_RootCAs = Some pool, tc_InsecureSkipVerify = InsecureSkipVerify t\<rparr>\<rparr>),
           rc_reqGen = NewRequestGenerator url Routes, rc_clock = RealClock, rc_url = url, rc_tls = Some t\<rparr>)"
    (is "_ \<longleftrightarrow> ?built")
proof -
  have "NewRemoteClient lib url (Some t) = Inr r \<longleftrightarrow>
      (\<exists>cert certs. identity_of_files lib (CertFile t) (KeyFile t) = Inr cert \<and>
        certificates_of_file lib (CAFile t) = Inr certs \<and>
        r = \<lparr>rc_HttpClient = CfhttpClient (cfhttp_NewClient [WithTLSConfig (client_tls cert certs (InsecureSkipVerify t))]),
             rc_reqGen = NewRequestGenerator url Routes, rc_clock = RealClock, rc_url = url, rc_tls = Some t\<rparr>)"
    by (auto simp: NewRemoteClient_spec bind_ok_Inr_iff)
  also have "\<dots> \<longleftrightarrow> ?built"
    using AddCert_fold [of "[]"]
    by (auto simp: identity_of_files_ok certificates_of_file_blocks valid_now_def cfhttp_NewClient_defaults(2) client_tls_def
        VersionTLS12_def VersionTLS13_def ECDHE_RSA_AES_256_def ECDHE_RSA_AES_128_def)
  finally show ?thesis .
qed

text \<open>Property C35. The factory makes the client \<open>NewRemoteClient\<close> makes, which matches the URL and
  the TLS configuration it was asked for; when \<open>NewRemoteClient\<close> fails it reports that error,
  but the driver it returns beside it is not \<open>nil\<close>: it is an interface around a nil pointer.\<close>

theorem factory_client:
  "case factory_NewRemoteClient (NewRemoteClientFactory lib) url tls of
     (driver, None) \<Rightarrow> (\<exists>r. driver = Some (Some r) \<and> NewRemoteClient lib url tls = Inr r \<and>
       fst (run_state (Matches r lg url tls) s))
   | (driver, Some err) \<Rightarrow> driver = Some None \<and> NewRemoteClient lib url tls = Inl err"
  by (auto simp: NewRemoteClientFactory_def Factory_NewRemoteClient_def run_Matches NewRemoteClient_spec bind_ok_Inr_iff
      split: sum.split option.split)

section \<open>Instances\<close>

text \<open>A network that answers every call the same way and counts the calls.\<close>

definition canned :: "go_error + http_response \<Rightarrow> nat http_lib" where
  "canned outcome =
     \<lparr>url_Parse_String = Inr,
      http_NewRequest = (\<lambda>meth url body. Inr \<lparr>http_Method = meth, http_URL = url, http_Header = [],
        http_Body = body, http_Context = None\<rparr>),
      http_Do = (\<lambda>_ _. State (\<lambda>n. (outcome, Suc n)))\<rparr>"

definition body_response :: "string \<Rightarrow> http_response" where
  "body_response bs = \<lparr>resp_Status = ''200 OK'', resp_Body = \<lparr>rd_bytes = bs, rd_error = None\<rparr>\<rparr>"

abbreviation lone_client :: remoteClient where
  "lone_client \<equiv> NewRemoteClientWithClient ''http://h'' None (GivenClient 0) RealClock"

abbreviation lone_env :: Env where
  "lone_env \<equiv> \<lparr>Env_Logger = ''cli'', Env_Context = RootCtx 1\<rparr>"

definition lone_state :: "nat client_state" where
  "lone_state = \<lparr>log = [], cl_net = 0\<rparr>"

definition no_floats :: "unit strconv" where
  "no_floats = \<lparr>ParseFloat = \<lambda>_. None, FormatFloat = \<lambda>_. Inl (GoError ''json: unsupported value: NaN'')\<rparr>"

lemma canned_request:
  assumes "r \<in> set Routes"
  shows "Request (canned outcome) (newReqFactory (rc_reqGen lone_client) (Route_Name r) p) =
    Inr \<lparr>http_Method = ''POST'', http_URL = ''http://h/'' @ TrimLeft (Route_Path r) CHR ''/'', http_Header = [],
         http_Body = (case p of None \<Rightarrow> '''' | Some bs \<Rightarrow> bs), http_Context = None\<rparr>"
  using assms
  by (simp add: Request_def newReqFactory_def NewRequestGenerator_def gen_CreateRequest_def canned_def
      FindRouteByName_Routes CreatePath_Routes Routes_method Let_def NewRemoteClientWithClient_def)

lemma canned_Do: "run_state (http_Do (canned outcome) hc req) (cl_net lone_state) = (outcome, 1)"
  by (simp add: canned_def lone_state_def)

theorem mount_one_request_witness:
  "cl_net (snd (run_state (rc_Mount (canned (Inl io_EOF)) lone_client lone_env \<lparr>MountRequest_Name = ''v''\<rparr>) lone_state)) = 1 \<and>
    MountResponse_Err (fst (run_state (rc_Mount (canned (Inl io_EOF)) lone_client lone_env \<lparr>MountRequest_Name = ''v''\<rparr>) lone_state)) = ''EOF''"
proof -
  let ?r = "post_route ''/VolumeDriver.Mount'' MountRoute"
  have "?r \<in> set Routes" "Route_Name ?r = MountRoute" by (simp_all add: Routes_def post_route_def)
  note req = canned_request [OF this(1), unfolded this(2)]
  show ?thesis
    using mount_one_request [OF req canned_Do, where q = "\<lparr>MountRequest_Name = ''v''\<rparr>" and env = lone_env and outcome = "Inl io_EOF",
        OF prod.collapse]
    by (simp add: io_EOF_def)
qed

theorem create_unencodable_witness:
  "ErrorResponse_Err (fst (run_state (rc_Create no_floats (canned (Inl io_EOF)) lone_client lone_env
      \<lparr>CreateRequest_Name = ''v'', CreateRequest_Opts = Some [(''k'', VUnsupported ''chan int'')]\<rparr>) lone_state)) =
    ''json: unsupported type: chan int''"
  using create_unencodable [where q = "\<lparr>CreateRequest_Name = ''v'', CreateRequest_Opts = Some [(''k'', VUnsupported ''chan int'')]\<rparr>"
      and e = "GoError ''json: unsupported type: chan int''" and fl = no_floats and lib = "canned (Inl io_EOF)"
      and r = lone_client and env = lone_env and s = lone_state, OF _ prod.collapse]
  by (simp add: CreateRequest_json_def)

theorem unmount_server_error_witness:
  "fst (run_state (rc_Unmount (canned (Inr (body_response (print_json (ErrorResponse_json \<lparr>ErrorResponse_Err = ''busy''\<rparr>)))))
      lone_client lone_env \<lparr>UnmountRequest_Name = ''v''\<rparr>) lone_state) = \<lparr>ErrorResponse_Err = ''busy''\<rparr>"
proof -
  let ?r = "post_route ''/VolumeDriver.Unmount'' UnmountRoute"
  have "?r \<in> set Routes" "Route_Name ?r = UnmountRoute" by (simp_all add: Routes_def post_route_def)
  note req = canned_request [OF this(1), unfolded this(2)]
  show ?thesis
    by (rule unmount_server_error [OF req canned_Do]) (simp_all add: body_response_def valid_utf8_ascii)
qed

theorem create_ignores_body_witness:
  "fst (run_state (rc_Create no_floats (canned (Inr (body_response ''{}''))) lone_client lone_env
      \<lparr>CreateRequest_Name = ''v'', CreateRequest_Opts = None\<rparr>) lone_state) = zero_ErrorResponse"
proof -
  let ?r = "post_route ''/VolumeDriver.Create'' CreateRoute"
  have "?r \<in> set Routes" "Route_Name ?r = CreateRoute" by (simp_all add: Routes_def post_route_def)
  note req = canned_request [OF this(1), unfolded this(2)]
  have reply: "check_reply (body_response ''{}'') = Inr ''{}''"
    by (simp add: check_reply_def body_response_def Unmarshal_def parse_json_def scan_eof_def begin_value_def
        begin_string_def push_frame_def maxNestingDepth_def is_space_def dec_ErrorResponse_def dec_struct_def zero_ErrorResponse_def)
  show ?thesis
    by (rule create_ignores_body [OF _ req canned_Do reply]) (simp add: CreateRequest_json_def)
qed

theorem capabilities_hides_errors_witness:
  "fst (run_state (rc_Capabilities (canned (Inl io_EOF)) lone_client lone_env) lone_state) = zero_CapabilitiesResponse"
proof -
  let ?r = "post_route ''/VolumeDriver.Capabilities'' CapabilitiesRoute"
  have "?r \<in> set Routes" "Route_Name ?r = CapabilitiesRoute" by (simp_all add: Routes_def post_route_def)
  note req = canned_request [OF this(1), unfolded this(2)]
  show ?thesis by (rule capabilities_hides_errors [OF req canned_Do])
qed

text \<open>A library where every file is the name of its certificate, valid in \<open>[0, 10]\<close> at time 5, and
  every byte of an authority file is a block.\<close>

definition demo_tls :: tls_lib where
  "demo_tls =
     \<lparr>LoadX509KeyPair = (\<lambda>c k. Inr \<lparr>cert_leaf = c, cert_chain = [], cert_key = k\<rparr>),
      ParseCertificate = (\<lambda>b. Inr \<lparr>x509_Raw = b, NotBefore = 0, NotAfter = 10\<rparr>),
      pem_Decode = (\<lambda>s. Some (\<lparr>pem_Type = ''CERTIFICATE'', pem_Headers = [], pem_Bytes = take 1 s\<rparr>, 0)),
      read_file = Inr, time_Now = 5, time_Format = itoa, fmt_q = (\<lambda>s. s), fmt_v = (\<lambda>_. [])\<rparr>"

text \<open>Two blocks with the same certificate are one authority.\<close>

theorem tls_client_demo:
  "\<exists>r cfg. NewRemoteClient demo_tls ''https://h''
      (Some \<lparr>InsecureSkipVerify = False, CAFile = ''aa'', CertFile = ''c'', KeyFile = ''k''\<rparr>) = Inr r \<and>
    rc_HttpClient r = CfhttpClient ((cfhttp_NewClient [])\<lparr>tr_TLSClientConfig := Some cfg\<rparr>) \<and>
    tc_RootCAs cfg = Some [\<lparr>x509_Raw = ''a'', NotBefore = 0, NotAfter = 10\<rparr>] \<and> tc_InsecureSkipVerify cfg = False"
  by (simp add: NewRemoteClient_spec identity_of_files_def certificates_of_file_def demo_tls_def checkExpiration_def
      pem_blocks.simps block_certificate_def AddCert_def client_tls_def cfhttp_NewClient_defaults)

theorem matches_iff_witness:
  "\<exists>r. NewRemoteClient demo_tls ''http://h'' None = Inr r \<and>
    fst (run_state (Matches r ''lg'' ''http://h'' None) lone_state) \<and>
    \<not> fst (run_state (Matches r ''lg'' ''http://h'' (Some zero_TLSConfig)) lone_state)"
proof -
  let ?r = "(NewRemoteClientWithClient ''http://h'' None (CfhttpClient (cfhttp_NewClient [])) RealClock)\<lparr>rc_url := ''http://h''\<rparr>"
  have new: "NewRemoteClient demo_tls ''http://h'' None = Inr ?r"
    by (simp add: NewRemoteClient_def Let_def)
  have ok: "tls_ok None" "tls_ok (Some zero_TLSConfig)"
    by (simp_all add: tls_ok_def TLSConfig_json_def zero_TLSConfig_def valid_utf8_ascii)
  have "fst (run_state (Matches ?r ''lg'' ''http://h'' None) lone_state)"
    unfolding matches_iff [OF new ok(1) ok(1)] by simp
  moreover have "\<not> fst (run_state (Matches ?r ''lg'' ''http://h'' (Some zero_TLSConfig)) lone_state)"
    unfolding matches_iff [OF new ok] by simp
  ultimately show ?thesis by (intro exI [of _ ?r] conjI new)
qed

end
