(* ===== verification/End_To_End.thy ===== *)
theory End_To_End
  imports Client_Spec
begin

text \<open>
  The remote client of \<^verbatim>\<open>remote_client.go\<close> talking to the server of \<^verbatim>\<open>handlers.go\<close>. The
  multiplexer \<open>NewHandler\<close> builds sends each of the nine routes to its handler; \<open>loopback\<close> is
  the network between the two, an HTTP transport that hands a request's method, path and
  body to the server and the written response back to the client. Under it the client is
  the driver behind the server, which the locale \<open>remote_driver_op\<close> shows for any operation
  and its nine interpretations for the protocol's.
\<close>

section \<open>The server's routes\<close>

definition server_mux ::
  "'f strconv \<Rightarrow> logger \<Rightarrow> ('f, 's) Driver \<Rightarrow> (server_request \<Rightarrow> ('s server_state, unit) state) mux" where
  "server_mux fl lg0 client =
     [(''POST'', route_handlers Routes (server_handlers fl (Session lg0 ''server'') client))]"

lemma server_handlers_complete:
  "r \<in> set Routes \<Longrightarrow> map_of (server_handlers fl lg client) (Route_Name r) \<noteq> None"
  by (auto simp: Routes_def post_route_def server_handlers_def route_name_defs)

lemma run_NewHandler:
  "run_state (NewHandler fl lg0 client) s =
    (Inr (server_mux fl lg0 client),
     s\<lparr>log := log s @ [LogEntry INFO (Session lg0 ''server'' @ ''.start'') None,
                       LogEntry INFO (Session lg0 ''server'' @ ''.end'') None]\<rparr>)"
proof -
  have "NewRouter Routes (server_handlers fl (Session lg0 ''server'') client) = Inr (server_mux fl lg0 client)"
    unfolding server_mux_def by (rule NewRouter_Routes) (simp add: server_handlers_complete)
  then show ?thesis by (simp add: NewHandler_def log_defs Let_def)
qed

lemma ServeHTTP_route:
  assumes "r \<in> set Routes" and "req_Method req = ''POST''" and "req_Path req = Route_Path r"
  shows "ServeHTTP (server_mux fl lg0 client) req =
    the (map_of (server_handlers fl (Session lg0 ''server'') client) (Route_Name r)) req"
  using assms by (simp add: ServeHTTP_def server_mux_def mux_choose_Routes find_Routes_path)

lemma ServeHTTP_unknown:
  assumes "req_Path req \<notin> Route_Path ` set Routes"
  shows "ServeHTTP (server_mux fl lg0 client) req = http_Error ''404 page not found'' 404"
proof -
  have "find (\<lambda>r. Route_Path r = req_Path req) Routes = None"
    unfolding find_None_iff
  proof
    assume "\<exists>x. x \<in> set Routes \<and> Route_Path x = req_Path req"
    then obtain x where x: "x \<in> set Routes" "Route_Path x = req_Path req" by blast
    from imageI [OF x(1), of Route_Path] assms x(2) show False by simp
  qed
  then show ?thesis by (simp add: ServeHTTP_def server_mux_def mux_choose_Routes)
qed

section \<open>The network\<close>

text \<open>\<open>auth\<close> is the scheme and host of the server; what follows it in a URL is the path. A
  handler that panics closes the connection.\<close>

definition to_response :: "response_writer \<Rightarrow> go_error + http_response" where
  "to_response w =
     (case rw_panic w of
        Some _ \<Rightarrow> Inl io_EOF
      | None \<Rightarrow> Inr \<lparr>resp_Status = itoa (int (case rw_status w of None \<Rightarrow> 200 | Some c \<Rightarrow> c)),
                    resp_Body = \<lparr>rd_bytes = rw_body w, rd_error = None\<rparr>\<rparr>)"

definition to_server :: "string \<Rightarrow> ctx \<Rightarrow> http_request \<Rightarrow> server_request" where
  "to_server auth cx req =
     \<lparr>req_Method = http_Method req, req_Path = drop (length auth) (http_URL req),
      req_Body = \<lparr>rd_bytes = http_Body req, rd_error = None\<rparr>, req_Context = cx\<rparr>"

definition round_trip ::
  "(server_request \<Rightarrow> ('s server_state, unit) state) mux \<Rightarrow> string \<Rightarrow> ctx \<Rightarrow> http_request \<Rightarrow>
    ('s server_state, go_error + http_response) state" where
  "round_trip m auth cx req = State (\<lambda>n.
     let n' = snd (run_state (ServeHTTP m (to_server auth cx req)) (n\<lparr>srv_rw := fresh_writer True\<rparr>))
     in (to_response (srv_rw n'), n'))"

definition loopback ::
  "(server_request \<Rightarrow> ('s server_state, unit) state) mux \<Rightarrow> string \<Rightarrow> ctx \<Rightarrow> 's server_state http_lib" where
  "loopback m auth cx =
     \<lparr>url_Parse_String = Inr,
      http_NewRequest = (\<lambda>meth url body. Inr \<lparr>http_Method = meth, http_URL = url, http_Header = [],
        http_Body = body, http_Context = None\<rparr>),
      http_Do = (\<lambda>_ req. round_trip m auth cx req)\<rparr>"

text \<open>A client as \<open>NewRemoteClient\<close> or \<open>NewRemoteClientWithClient\<close> makes it.\<close>

definition client_of :: "string \<Rightarrow> TLSConfig nilable \<Rightarrow> http_client \<Rightarrow> clock \<Rightarrow> string \<Rightarrow> remoteClient" where
  "client_of base tls hc clk u = (NewRemoteClientWithClient base tls hc clk)\<lparr>rc_url := u\<rparr>"

lemma client_of_simps [simp]:
  "rc_reqGen (client_of base tls hc clk u) = NewRequestGenerator base Routes"
  "rc_HttpClient (client_of base tls hc clk u) = hc"
  by (simp_all add: client_of_def NewRemoteClientWithClient_def Let_def)

lemma Routes_slash: "r \<in> set Routes \<Longrightarrow> CHR ''/'' # TrimLeft (Route_Path r) CHR ''/'' = Route_Path r"
  by (auto simp: Routes_def post_route_def TrimLeft_def)

lemma Request_loopback:
  assumes "r \<in> set Routes"
  shows "Request (loopback m auth cx) (newReqFactory (NewRequestGenerator base Routes) (Route_Name r) p) =
    Inr \<lparr>http_Method = ''POST'', http_URL = base @ Route_Path r, http_Header = [],
         http_Body = (case p of None \<Rightarrow> '''' | Some bs \<Rightarrow> bs), http_Context = None\<rparr>"
  using assms Routes_slash [OF assms]
  by (simp add: Request_def newReqFactory_def NewRequestGenerator_def gen_CreateRequest_def
      FindRouteByName_Routes CreatePath_Routes loopback_def Routes_method Let_def)

lemma json_response_fresh:
  "to_response (json_response j (fresh_writer b)) =
    Inr \<lparr>resp_Status = itoa 200, resp_Body = \<lparr>rd_bytes = print_json j, rd_error = None\<rparr>\<rparr>"
  by (simp add: to_response_def json_response_def fresh_writer_def write_body_def write_header_def
      set_header_def)

section \<open>An operation over the network\<close>

locale remote_driver_op =
  remote_method m "loopback mx auth cx" "client_of auth tls hc clk u" task route
    payload dec zero fail finish +
  json_handler h lvl lg accept op enc entries +
  wire_response enc dec zero err
  for m :: "Env \<Rightarrow> 'q \<Rightarrow> ('s server_state client_state, 'a) state"
    and mx :: "(server_request \<Rightarrow> ('s server_state, unit) state) mux" and auth :: string and cx :: ctx
    and tls :: "TLSConfig nilable" and hc :: http_client and clk :: clock and u :: string
    and task :: string and route :: string and payload :: "'q \<Rightarrow> go_error + string nilable"
    and dec :: "'a decoder" and zero :: 'a and fail :: "go_error \<Rightarrow> 'a" and finish :: "'a \<Rightarrow> 'a"
    and h :: "server_request \<Rightarrow> ('s server_state, unit) state" and lvl :: log_level and lg :: logger
    and accept :: "reader \<Rightarrow> reject + 'q" and op :: "Env \<Rightarrow> 'q \<Rightarrow> ('s, 'a) state"
    and enc :: "'a \<Rightarrow> json" and entries :: "'a \<Rightarrow> log_entry list" and err :: "'a \<Rightarrow> string" +
  fixes valid :: "'q \<Rightarrow> bool" and rt :: Route
  assumes route_known: "rt \<in> set Routes" and route_name: "route = Route_Name rt"
    and dispatch: "req_Method req = ''POST'' \<Longrightarrow> req_Path req = Route_Path rt \<Longrightarrow> ServeHTTP mx req = h req"
    and accepted: "valid q \<Longrightarrow> \<exists>p. payload q = Inr p \<and>
      accept \<lparr>rd_bytes = (case p of None \<Rightarrow> '''' | Some bs \<Rightarrow> bs), rd_error = None\<rparr> = Inr q"
begin

text \<open>The request the client sends reaches the handler, which calls the driver once.\<close>

lemma delivered:
  assumes "payload q = Inr p" and "req = \<lparr>http_Method = ''POST'', http_URL = auth @ Route_Path rt,
      http_Header = [], http_Body = (case p of None \<Rightarrow> '''' | Some bs \<Rightarrow> bs), http_Context = c\<rparr>"
    and "accept \<lparr>rd_bytes = (case p of None \<Rightarrow> '''' | Some bs \<Rightarrow> bs), rd_error = None\<rparr> = Inr q"
    and "run_state (op (monitor_env lg cx) q) (srv_driver n) = (r, d)"
  shows "\<exists>n'. run_state (round_trip mx auth cx req) n =
      (Inr \<lparr>resp_Status = itoa 200, resp_Body = \<lparr>rd_bytes = print_json (enc r), rd_error = None\<rparr>\<rparr>, n') \<and>
    srv_driver n' = d"
proof -
  let ?req = "to_server auth cx req" and ?n = "n\<lparr>srv_rw := fresh_writer True\<rparr>"
  have "ServeHTTP mx ?req = h ?req" by (rule dispatch) (simp_all add: to_server_def assms(2))
  moreover have "req_Body ?req = \<lparr>rd_bytes = (case p of None \<Rightarrow> '''' | Some bs \<Rightarrow> bs), rd_error = None\<rparr>"
    and "req_Context ?req = cx"
    by (simp_all add: to_server_def assms(2))
  ultimately show ?thesis
    using accepts [of ?req q ?n r d] assms(3,4)
    by (simp add: round_trip_def Let_def json_response_fresh)
qed

theorem transparent:
  assumes "valid q" and "run_state (op (monitor_env lg cx) q) (srv_driver (cl_net s)) = (r, d)"
    and "strings_valid (enc r)"
  shows "fst (run_state (m env q) s) = (if err r = '''' then finish r else fail (GoError (err r)))"
    and "srv_driver (cl_net (snd (run_state (m env q) s))) = d"
proof -
  obtain p where p: "payload q = Inr p"
    "accept \<lparr>rd_bytes = (case p of None \<Rightarrow> '''' | Some bs \<Rightarrow> bs), rd_error = None\<rparr> = Inr q"
    using accepted [OF assms(1)] by auto
  let ?req = "\<lparr>http_Method = ''POST'', http_URL = auth @ Route_Path rt, http_Header = [],
    http_Body = (case p of None \<Rightarrow> '''' | Some bs \<Rightarrow> bs), http_Context = None\<rparr>"
  let ?resp = "\<lparr>resp_Status = itoa 200, resp_Body = \<lparr>rd_bytes = print_json (enc r), rd_error = None\<rparr>\<rparr>"
  have req: "Request (loopback mx auth cx)
      (newReqFactory (rc_reqGen (client_of auth tls hc clk u)) route p) = Inr ?req"
    using Request_loopback [OF route_known] by (simp add: route_name)
  obtain n' where n': "run_state (round_trip mx auth cx (?req\<lparr>http_Context := Some (Env_Context env)\<rparr>)) (cl_net s) =
      (Inr ?resp, n')" "srv_driver n' = d"
    using delivered [OF p(1) _ p(2) assms(2), of "?req\<lparr>http_Context := Some (Env_Context env)\<rparr>"] by auto
  have do: "run_state (http_Do (loopback mx auth cx) (rc_HttpClient (client_of auth tls hc clk u))
      (?req\<lparr>http_Context := Some (Env_Context env)\<rparr>)) (cl_net s) = (Inr ?resp, n')"
    using n'(1) by (simp add: loopback_def)
  have reply: "check_reply ?resp = (if err r = '''' then Inr (print_json (enc r)) else Inl (GoError (err r)))"
    by (simp add: check_reply_def unmarshal_err assms(3))
  show "fst (run_state (m env q) s) = (if err r = '''' then finish r else fail (GoError (err r)))"
    by (simp add: one_call(1) [OF p(1) req do] reply unmarshal_marshal assms(3))
  show "srv_driver (cl_net (snd (run_state (m env q) s))) = d"
    by (simp add: one_call(2) [OF p(1) req do] n'(2))
qed

end

section \<open>The nine operations\<close>

text \<open>The requests whose encoding the server decodes to the same request: for names, those in
  UTF-8; for options, besides, those that JSON can carry within its nesting limit.\<close>

definition name_ok :: "string \<Rightarrow> bool" where
  "name_ok s \<longleftrightarrow> valid_utf8 s"

definition create_ok :: "'f strconv \<Rightarrow> 'f CreateRequest \<Rightarrow> bool" where
  "create_ok fl q \<longleftrightarrow> strconv_exact fl \<and> request_maps_ok q \<and>
     (case CreateRequest_json fl q of
        Inl _ \<Rightarrow> False
      | Inr j \<Rightarrow> strings_valid j \<and> json_depth j \<le> maxNestingDepth)"

lemma accept_json_marshalled:
  "Unmarshal dec zero bs = Inr q \<Longrightarrow>
    accept_json dec zero a f b g \<lparr>rd_bytes = bs, rd_error = None\<rparr> = Inr q"
  by (simp add: accept_json_def)

lemma dispatch_route:
  assumes "rt \<in> set Routes" and "req_Method req = ''POST''" and "req_Path req = Route_Path rt"
    and "map_of (server_handlers fl (Session lg0 ''server'') drv) (Route_Name rt) = Some h"
  shows "ServeHTTP (server_mux fl lg0 drv) req = h req"
  using assms by (simp add: ServeHTTP_route)

lemma strings_valid_requests:
  "strings_valid (MountRequest_json mq) \<longleftrightarrow> name_ok (MountRequest_Name mq)"
  "strings_valid (PathRequest_json pq) \<longleftrightarrow> name_ok (PathRequest_Name pq)"
  "strings_valid (UnmountRequest_json uq) \<longleftrightarrow> name_ok (UnmountRequest_Name uq)"
  "strings_valid (RemoveRequest_json rq) \<longleftrightarrow> name_ok (RemoveRequest_Name rq)"
  "strings_valid (GetRequest_json gq) \<longleftrightarrow> name_ok (GetRequest_Name gq)"
  by (simp_all add: MountRequest_json_def PathRequest_json_def UnmountRequest_json_def
      RemoveRequest_json_def GetRequest_json_def name_ok_def valid_utf8_ascii)

lemmas op_simps = Routes_def post_route_def server_handlers_def route_name_defs

interpretation e2e_Activate: remote_driver_op
  "\<lambda>env _. rc_Activate (loopback (server_mux fl lg0 drv) auth cx) (client_of auth tls hc clk u) env"
  "server_mux fl lg0 drv" auth cx tls hc clk u "''activate''" ActivateRoute
  no_payload dec_ActivateResponse zero_ActivateResponse "\<lambda>e. zero_ActivateResponse\<lparr>ActivateResponse_Err := Error e\<rparr>" "\<lambda>a. a"
  "newActivateHandler (Session lg0 ''server'') drv" DEBUG "Session (Session lg0 ''server'') ''handle-activate''"
  accept_any "\<lambda>env _. Driver_Activate drv env" ActivateResponse_json
  "\<lambda>r. if ActivateResponse_Err r \<noteq> ''''
       then error_note (Session (Session lg0 ''server'') ''handle-activate'') ''failed-activating-driver'' (ActivateResponse_Err r)
       else [LogEntry DEBUG (Session (Session lg0 ''server'') ''handle-activate'' @ ''.activate-response'') None]"
  ActivateResponse_Err "\<lambda>_. True" "post_route ''/Plugin.Activate'' ActivateRoute"
proof unfold_locales
  show rt: "post_route ''/Plugin.Activate'' ActivateRoute \<in> set Routes" by (simp add: Routes_def)
  show "ActivateRoute = Route_Name (post_route ''/Plugin.Activate'' ActivateRoute)" by (simp add: post_route_def)
  show "ServeHTTP (server_mux fl lg0 drv) req = newActivateHandler (Session lg0 ''server'') drv req"
    if "req_Method req = ''POST''" "req_Path req = Route_Path (post_route ''/Plugin.Activate'' ActivateRoute)" for req
    by (rule dispatch_route [OF rt that]) (simp add: op_simps)
qed (simp add: no_payload_def accept_any_def)

interpretation e2e_List: remote_driver_op
  "\<lambda>env _. rc_List (loopback (server_mux fl lg0 drv) auth cx) (client_of auth tls hc clk u) env"
  "server_mux fl lg0 drv" auth cx tls hc clk u "''remoteclient-list''" ListRoute
  no_payload dec_ListResponse zero_ListResponse "\<lambda>e. zero_ListResponse\<lparr>ListResponse_Err := Error e\<rparr>" "\<lambda>a. a"
  "newListHandler (Session lg0 ''server'') drv" INFO "Session (Session lg0 ''server'') ''handle-list''"
  accept_any "\<lambda>env _. Driver_List drv env" ListResponse_json
  "\<lambda>r. error_note (Session (Session lg0 ''server'') ''handle-list'') ''failed-listing-volumes'' (ListResponse_Err r)"
  ListResponse_Err "\<lambda>_. True" "post_route ''/VolumeDriver.List'' ListRoute"
proof unfold_locales
  show rt: "post_route ''/VolumeDriver.List'' ListRoute \<in> set Routes" by (simp add: Routes_def)
  show "ListRoute = Route_Name (post_route ''/VolumeDriver.List'' ListRoute)" by (simp add: post_route_def)
  show "ServeHTTP (server_mux fl lg0 drv) req = newListHandler (Session lg0 ''server'') drv req"
    if "req_Method req = ''POST''" "req_Path req = Route_Path (post_route ''/VolumeDriver.List'' ListRoute)" for req
    by (rule dispatch_route [OF rt that]) (simp add: op_simps)
qed (simp add: no_payload_def accept_any_def)

interpretation e2e_Mount: remote_driver_op
  "rc_Mount (loopback (server_mux fl lg0 drv) auth cx) (client_of auth tls hc clk u)"
  "server_mux fl lg0 drv" auth cx tls hc clk u "''remoteclient-mount''" MountRoute
  "json_payload MountRequest_json" dec_MountResponse zero_MountResponse "\<lambda>e. zero_MountResponse\<lparr>MountResponse_Err := Error e\<rparr>" "\<lambda>a. a"
  "newMountHandler (Session lg0 ''server'') drv" INFO "Session (Session lg0 ''server'') ''handle-mount''"
  accept_mount "Driver_Mount drv" MountResponse_json
  "\<lambda>r. error_note (Session (Session lg0 ''server'') ''handle-mount'') ''failed-mounting-volume'' (MountResponse_Err r)"
  MountResponse_Err "\<lambda>q. name_ok (MountRequest_Name q)" "post_route ''/VolumeDriver.Mount'' MountRoute"
proof unfold_locales
  show rt: "post_route ''/VolumeDriver.Mount'' MountRoute \<in> set Routes" by (simp add: Routes_def)
  show "MountRoute = Route_Name (post_route ''/VolumeDriver.Mount'' MountRoute)" by (simp add: post_route_def)
  show "ServeHTTP (server_mux fl lg0 drv) req = newMountHandler (Session lg0 ''server'') drv req"
    if "req_Method req = ''POST''" "req_Path req = Route_Path (post_route ''/VolumeDriver.Mount'' MountRoute)" for req
    by (rule dispatch_route [OF rt that]) (simp add: op_simps)
qed (auto simp: json_payload_def accept_mount_def name_ok_def strings_valid_requests
      intro!: accept_json_marshalled wire_MountRequest.unmarshal_marshal)

interpretation e2e_Path: remote_driver_op
  "rc_Path (loopback (server_mux fl lg0 drv) auth cx) (client_of auth tls hc clk u)"
  "server_mux fl lg0 drv" auth cx tls hc clk u "''path''" PathRoute
  "json_payload PathRequest_json" dec_PathResponse zero_PathResponse "\<lambda>e. zero_PathResponse\<lparr>PathResponse_Err := Error e\<rparr>" "\<lambda>a. a"
  "newPathHandler (Session lg0 ''server'') drv" INFO "Session (Session lg0 ''server'') ''handle-path''"
  accept_path "Driver_Path drv" PathResponse_json
  "\<lambda>r. error_note (Session (Session lg0 ''server'') ''handle-path'') ''failed-activating-driver'' (PathResponse_Err r)"
  PathResponse_Err "\<lambda>q. name_ok (PathRequest_Name q)" "post_route ''/VolumeDriver.Path'' PathRoute"
proof unfold_locales
  show rt: "post_route ''/VolumeDriver.Path'' PathRoute \<in> set Routes" by (simp add: Routes_def)
  show "PathRoute = Route_Name (post_route ''/VolumeDriver.Path'' PathRoute)" by (simp add: post_route_def)
  show "ServeHTTP (server_mux fl lg0 drv) req = newPathHandler (Session lg0 ''server'') drv req"
    if "req_Method req = ''POST''" "req_Path req = Route_Path (post_route ''/VolumeDriver.Path'' PathRoute)" for req
    by (rule dispatch_route [OF rt that]) (simp add: op_simps)
qed (auto simp: json_payload_def accept_path_def name_ok_def strings_valid_requests
      intro!: accept_json_marshalled wire_PathRequest.unmarshal_marshal)

interpretation e2e_Unmount: remote_driver_op
  "rc_Unmount (loopback (server_mux fl lg0 drv) auth cx) (client_of auth tls hc clk u)"
  "server_mux fl lg0 drv" auth cx tls hc clk u "''unmount''" UnmountRoute
  "json_payload UnmountRequest_json" dec_ErrorResponse zero_ErrorResponse "\<lambda>e. \<lparr>ErrorResponse_Err = Error e\<rparr>" "\<lambda>a. a"
  "newUnmountHandler (Session lg0 ''server'') drv" INFO "Session (Session lg0 ''server'') ''handle-unmount''"
  accept_unmount "Driver_Unmount drv" ErrorResponse_json
  "\<lambda>r. error_note (Session (Session lg0 ''server'') ''handle-unmount'') ''failed-unmount-volume'' (ErrorResponse_Err r)"
  ErrorResponse_Err "\<lambda>q. name_ok (UnmountRequest_Name q)" "post_route ''/VolumeDriver.Unmount'' UnmountRoute"
proof unfold_locales
  show rt: "post_route ''/VolumeDriver.Unmount'' UnmountRoute \<in> set Routes" by (simp add: Routes_def)
  show "UnmountRoute = Route_Name (post_route ''/VolumeDriver.Unmount'' UnmountRoute)" by (simp add: post_route_def)
  show "ServeHTTP (server_mux fl lg0 drv) req = newUnmountHandler (Session lg0 ''server'') drv req"
    if "req_Method req = ''POST''" "req_Path req = Route_Path (post_route ''/VolumeDriver.Unmount'' UnmountRoute)" for req
    by (rule dispatch_route [OF rt that]) (simp add: op_simps)
qed (auto simp: json_payload_def accept_unmount_def name_ok_def strings_valid_requests
      intro!: accept_json_marshalled wire_UnmountRequest.unmarshal_marshal)

interpretation e2e_Remove: remote_driver_op
  "rc_Remove (loopback (server_mux fl lg0 drv) auth cx) (client_of auth tls hc clk u)"
  "server_mux fl lg0 drv" auth cx tls hc clk u "''remove''" RemoveRoute
  "json_payload RemoveRequest_json" dec_ErrorResponse zero_ErrorResponse "\<lambda>e. \<lparr>ErrorResponse_Err = Error e\<rparr>" "\<lambda>a. a"
  "newRemoveHandler (Session lg0 ''server'') drv" INFO "Session (Session lg0 ''server'') ''handle-remove''"
  accept_remove "Driver_Remove drv" ErrorResponse_json
  "\<lambda>r. error_note (Session (Session lg0 ''server'') ''handle-remove'') ''failed-remove-volume'' (ErrorResponse_Err r)"
  ErrorResponse_Err "\<lambda>q. name_ok (RemoveRequest_Name q)" "post_route ''/VolumeDriver.Remove'' RemoveRoute"
proof unfold_locales
  show rt: "post_route ''/VolumeDriver.Remove'' RemoveRoute \<in> set Routes" by (simp add: Routes_def)
  show "RemoveRoute = Route_Name (post_route ''/VolumeDriver.Remove'' RemoveRoute)" by (simp add: post_route_def)
  show "ServeHTTP (server_mux fl lg0 drv) req = newRemoveHandler (Session lg0 ''server'') drv req"
    if "req_Method req = ''POST''" "req_Path req = Route_Path (post_route ''/VolumeDriver.Remove'' RemoveRoute)" for req
    by (rule dispatch_route [OF rt that]) (simp add: op_simps)
qed (auto simp: json_payload_def accept_remove_def name_ok_def strings_valid_requests
      intro!: accept_json_marshalled wire_RemoveRequest.unmarshal_marshal)

interpretation e2e_Get: remote_driver_op
  "rc_Get (loopback (server_mux fl lg0 drv) auth cx) (client_of auth tls hc clk u)"
  "server_mux fl lg0 drv" auth cx tls hc clk u "''get''" GetRoute
  "json_payload GetRequest_json" dec_GetResponse zero_GetResponse "\<lambda>e. zero_GetResponse\<lparr>GetResponse_Err := Error e\<rparr>" "\<lambda>a. a"
  "newGetHandler (Session lg0 ''server'') drv" INFO "Session (Session lg0 ''server'') ''handle-get''"
  accept_get "Driver_Get drv" GetResponse_json
  "\<lambda>r. if GetResponse_Err r \<noteq> '''' then [LogEntry ERROR (Session (Session lg0 ''server'') ''handle-get'' @ ''.failed-getting-volume'') None] else []"
  GetResponse_Err "\<lambda>q. name_ok (GetRequest_Name q)" "post_route ''/VolumeDriver.Get'' GetRoute"
proof unfold_locales
  show rt: "post_route ''/VolumeDriver.Get'' GetRoute \<in> set Routes" by (simp add: Routes_def)
  show "GetRoute = Route_Name (post_route ''/VolumeDriver.Get'' GetRoute)" by (simp add: post_route_def)
  show "ServeHTTP (server_mux fl lg0 drv) req = newGetHandler (Session lg0 ''server'') drv req"
    if "req_Method req = ''POST''" "req_Path req = Route_Path (post_route ''/VolumeDriver.Get'' GetRoute)" for req
    by (rule dispatch_route [OF rt that]) (simp add: op_simps)
qed (auto simp: json_payload_def accept_get_def name_ok_def strings_valid_requests
      intro!: accept_json_marshalled wire_GetRequest.unmarshal_marshal)

interpretation e2e_Capabilities: remote_driver_op
  "\<lambda>env _. rc_Capabilities (loopback (server_mux fl lg0 drv) auth cx) (client_of auth tls hc clk u) env"
  "server_mux fl lg0 drv" auth cx tls hc clk u "''capabilities''" CapabilitiesRoute
  no_payload dec_CapabilitiesResponse zero_CapabilitiesResponse "\<lambda>e. zero_CapabilitiesResponse" "\<lambda>a. a"
  "newCapabilitiesHandler (Session lg0 ''server'') drv" INFO "Session (Session lg0 ''server'') ''handle-capabilities''"
  accept_any "\<lambda>env _. Driver_Capabilities drv env" CapabilitiesResponse_json
  "\<lambda>r. [LogEntry DEBUG (Session (Session lg0 ''server'') ''handle-capabilities'' @ ''.capabilities-response'') None]"
  "\<lambda>_. ''''" "\<lambda>_. True" "post_route ''/VolumeDriver.Capabilities'' CapabilitiesRoute"
proof unfold_locales
  show rt: "post_route ''/VolumeDriver.Capabilities'' CapabilitiesRoute \<in> set Routes" by (simp add: Routes_def)
  show "CapabilitiesRoute = Route_Name (post_route ''/VolumeDriver.Capabilities'' CapabilitiesRoute)" by (simp add: post_route_def)
  show "ServeHTTP (server_mux fl lg0 drv) req = newCapabilitiesHandler (Session lg0 ''server'') drv req"
    if "req_Method req = ''POST''" "req_Path req = Route_Path (post_route ''/VolumeDriver.Capabilities'' CapabilitiesRoute)" for req
    by (rule dispatch_route [OF rt that]) (simp add: op_simps)
qed (simp add: no_payload_def accept_any_def)

interpretation e2e_Create: remote_driver_op
  "rc_Create fl (loopback (server_mux fl lg0 drv) auth cx) (client_of auth tls hc clk u)"
  "server_mux fl lg0 drv" auth cx tls hc clk u "''create''" CreateRoute
  "create_payload fl" dec_ErrorResponse zero_ErrorResponse "\<lambda>e. \<lparr>ErrorResponse_Err = Error e\<rparr>" "\<lambda>_. zero_ErrorResponse"
  "newCreateHandler fl (Session lg0 ''server'') drv" INFO "Session (Session lg0 ''server'') ''handle-create''"
  "accept_create fl" "Driver_Create drv" ErrorResponse_json
  "\<lambda>r. error_note (Session (Session lg0 ''server'') ''handle-create'') ''failed-creating-volume'' (ErrorResponse_Err r)"
  ErrorResponse_Err "create_ok fl" "post_route ''/VolumeDriver.Create'' CreateRoute"
proof unfold_locales
  show rt: "post_route ''/VolumeDriver.Create'' CreateRoute \<in> set Routes" by (simp add: Routes_def)
  show "CreateRoute = Route_Name (post_route ''/VolumeDriver.Create'' CreateRoute)" by (simp add: post_route_def)
  show "ServeHTTP (server_mux fl lg0 drv) req = newCreateHandler fl (Session lg0 ''server'') drv req"
    if "req_Method req = ''POST''" "req_Path req = Route_Path (post_route ''/VolumeDriver.Create'' CreateRoute)" for req
    by (rule dispatch_route [OF rt that]) (simp add: op_simps)
qed (auto simp: create_payload_def accept_create_def create_ok_def
      intro!: accept_json_marshalled unmarshal_CreateRequest split: sum.splits)

section \<open>Properties\<close>

text \<open>The environment the driver behind the server is called in.\<close>

abbreviation server_env :: "logger \<Rightarrow> string \<Rightarrow> ctx \<Rightarrow> Env" where
  "server_env lg0 task cx \<equiv> monitor_env (Session (Session lg0 ''server'') task) cx"

text \<open>Property C1. Mounting through the remote client is mounting with the driver behind the server: the
  driver is called once with the same request and moves to the same state, and its answer
  comes back; when it reports an error, the client's response carries just that error.\<close>

theorem e2e_mount:
  assumes "name_ok (MountRequest_Name q)"
    and "run_state (Driver_Mount drv (server_env lg0 ''handle-mount'' cx) q) (srv_driver (cl_net s)) = (r, d)"
    and "strings_valid (MountResponse_json r)"
  shows "fst (run_state (rc_Mount (loopback (server_mux fl lg0 drv) auth cx) (client_of auth tls hc clk u) env q) s) =
      (if MountResponse_Err r = '''' then r
       else \<lparr>MountResponse_Err = MountResponse_Err r, MountResponse_Mountpoint = ''''\<rparr>) \<and>
    srv_driver (cl_net (snd (run_state
      (rc_Mount (loopback (server_mux fl lg0 drv) auth cx) (client_of auth tls hc clk u) env q) s))) = d"
  using e2e_Mount.transparent [of q, OF assms(1,2,3)] by (simp add: zero_MountResponse_def)

text \<open>Creating a volume through the remote client passes the whole option map to the driver
  behind the server, and returns exactly its answer.\<close>

theorem e2e_create:
  assumes "create_ok fl q"
    and "run_state (Driver_Create drv (server_env lg0 ''handle-create'' cx) q) (srv_driver (cl_net s)) = (r, d)"
    and "strings_valid (ErrorResponse_json r)"
  shows "fst (run_state (rc_Create fl (loopback (server_mux fl lg0 drv) auth cx) (client_of auth tls hc clk u) env q) s) = r \<and>
    srv_driver (cl_net (snd (run_state
      (rc_Create fl (loopback (server_mux fl lg0 drv) auth cx) (client_of auth tls hc clk u) env q) s))) = d"
  using e2e_Create.transparent [of fl q, OF assms(1,2,3)]
  by (cases r) (simp add: zero_ErrorResponse_def)

text \<open>A volume got through the remote client is the driver's volume, mount count included; an
  error of the driver comes back with the zero volume.\<close>

theorem e2e_get:
  assumes "name_ok (GetRequest_Name q)"
    and "run_state (Driver_Get drv (server_env lg0 ''handle-get'' cx) q) (srv_driver (cl_net s)) = (r, d)"
    and "strings_valid (GetResponse_json r)"
  shows "fst (run_state (rc_Get (loopback (server_mux fl lg0 drv) auth cx) (client_of auth tls hc clk u) env q) s) =
      (if GetResponse_Err r = '''' then r
       else \<lparr>GetResponse_Volume = zero_VolumeInfo, GetResponse_Err = GetResponse_Err r\<rparr>) \<and>
    srv_driver (cl_net (snd (run_state
      (rc_Get (loopback (server_mux fl lg0 drv) auth cx) (client_of auth tls hc clk u) env q) s))) = d"
  using e2e_Get.transparent [of q, OF assms(1,2,3)] by (simp add: zero_GetResponse_def)

text \<open>The list of volumes comes back unchanged, a nil list as nil; an error drops the list.\<close>

theorem e2e_list:
  assumes "run_state (Driver_List drv (server_env lg0 ''handle-list'' cx)) (srv_driver (cl_net s)) = (r, d)"
    and "strings_valid (ListResponse_json r)"
  shows "fst (run_state (rc_List (loopback (server_mux fl lg0 drv) auth cx) (client_of auth tls hc clk u) env) s) =
      (if ListResponse_Err r = '''' then r
       else \<lparr>ListResponse_Volumes = None, ListResponse_Err = ListResponse_Err r\<rparr>) \<and>
    srv_driver (cl_net (snd (run_state
      (rc_List (loopback (server_mux fl lg0 drv) auth cx) (client_of auth tls hc clk u) env) s))) = d"
  using e2e_List.transparent [OF TrueI assms] by (simp add: zero_ListResponse_def)

text \<open>Unmounting and then removing a volume through the remote client are those two calls on
  the driver, in that order, with the driver's answers.\<close>

theorem e2e_unmount_remove:
  fixes s :: "'s server_state client_state"
  assumes "name_ok (UnmountRequest_Name uq)" and "name_ok (RemoveRequest_Name rq)"
    and "run_state (Driver_Unmount drv (server_env lg0 ''handle-unmount'' cx) uq) (srv_driver (cl_net s)) = (r, d)"
    and "run_state (Driver_Remove drv (server_env lg0 ''handle-remove'' cx) rq) d = (r', d')"
    and "strings_valid (ErrorResponse_json r)" and "strings_valid (ErrorResponse_json r')"
    and "lib = loopback (server_mux fl lg0 drv) auth cx" and "client = client_of auth tls hc clk u"
  shows "\<exists>s'. run_state (do {
        a \<leftarrow> rc_Unmount lib client env uq;
        b \<leftarrow> rc_Remove lib client env rq;
        State_Monad.return (a, b)
      }) s = ((r, r'), s') \<and> srv_driver (cl_net s') = d'"
proof -
  have id: "(if ErrorResponse_Err x = '''' then x else \<lparr>ErrorResponse_Err = Error (GoError (ErrorResponse_Err x))\<rparr>) = x"
    for x by (cases x) simp
  obtain s1 where s1: "run_state (rc_Unmount lib client env uq) s = (r, s1)" "srv_driver (cl_net s1) = d"
    using e2e_Unmount.transparent [of uq, OF assms(1,3,5), unfolded id] assms(7,8)
    by (metis prod.collapse)
  obtain s2 where s2: "run_state (rc_Remove lib client env rq) s1 = (r', s2)" "srv_driver (cl_net s2) = d'"
    using e2e_Remove.transparent [of rq, OF assms(2) _ assms(6), unfolded id] assms(4,7,8) s1(2)
    by (metis prod.collapse)
  show ?thesis by (simp add: s1 s2)
qed

text \<open>A remote client can itself be the driver behind a server: a volume got through two
  clients and two servers is the driver's volume, and the driver's state moves by its one call.\<close>

theorem e2e_chain:
  assumes "name_ok (GetRequest_Name q)"
    and "run_state (Driver_Get drv (server_env lg0 ''handle-get'' cx) q)
      (srv_driver (cl_net (srv_driver (cl_net s)))) = (r, d)"
    and "strings_valid (GetResponse_json r)"
    and "drv' = GetVoldriver fl (loopback (server_mux fl lg0 drv) auth cx) (client_of auth tls hc clk u)"
    and "(r', s') = run_state (rc_Get (loopback (server_mux fl lg0' drv') auth' cx') (client_of auth' tls' hc' clk' u') env q) s"
  shows "r' = (if GetResponse_Err r = '''' then r
       else \<lparr>GetResponse_Volume = zero_VolumeInfo, GetResponse_Err = GetResponse_Err r\<rparr>) \<and>
    srv_driver (cl_net (srv_driver (cl_net s'))) = d"
proof -
  let ?env = "server_env lg0' ''handle-get'' cx'"
  define r1 where "r1 = (if GetResponse_Err r = '''' then r
      else \<lparr>GetResponse_Volume = zero_VolumeInfo, GetResponse_Err = GetResponse_Err r\<rparr>)"
  obtain a d1 where run: "run_state (Driver_Get drv' ?env q) (srv_driver (cl_net s)) = (a, d1)"
    by fastforce
  have a: "a = r1" and d1: "srv_driver (cl_net d1) = d"
    using e2e_Get.transparent [of q, OF assms(1-3), of fl auth tls hc clk u ?env] run
    by (simp_all add: assms(4) GetVoldriver_def r1_def zero_GetResponse_def split: if_splits)
  have valid: "strings_valid (GetResponse_json r1)"
    using assms(3) by (simp add: r1_def GetResponse_json_def VolumeInfo_json_def zero_VolumeInfo_def)
  show ?thesis
    using e2e_Get.transparent [of q, OF assms(1) run [unfolded a] valid, of fl auth' tls' hc' clk' u' env]
      assms(5) [symmetric] d1
    by (simp add: r1_def zero_GetResponse_def split: if_splits)
qed

text \<open>Property C15. \<open>NewHandler\<close> never fails, and its router sends exactly a POST to one of the nine
  paths to that operation's handler; another method on such a path is 405, any other path 404.\<close>

theorem server_routes:
  "\<exists>m. fst (run_state (NewHandler fl lg0 client) s) = Inr m \<and>
    (\<forall>meth path. mux_choose m meth path =
      (case find (\<lambda>r. Route_Path r = path) Routes of
         None \<Rightarrow> NotFound
       | Some r \<Rightarrow>
           if meth = ''POST''
           then Dispatch (the (map_of (server_handlers fl (Session lg0 ''server'') client) (Route_Name r))) []
           else MethodNotAllowed [''POST'']))"
  by (simp add: run_NewHandler server_mux_def mux_choose_Routes)

lemma run_http_Error:
  "run_state (http_Error msg code) s =
    ((), s\<lparr>srv_rw := write_body (msg @ [CHR 0x0A]) (write_header code
      (set_header ''X-Content-Type-Options'' ''nosniff''
        (set_header ''Content-Type'' ''text/plain; charset=utf-8''
          (del_header ''Content-Length'' (srv_rw s)))))\<rparr>)"
  by (simp add: http_Error_def)

lemmas writer_defs = write_body_def write_header_def set_header_def del_header_def fresh_writer_def

text \<open>A request that is not a POST to one of the nine paths is answered 404 or 405 without
  calling the driver, logging, or starting a goroutine.\<close>

theorem stray_requests:
  assumes "\<not> (req_Method req = ''POST'' \<and> req_Path req \<in> Route_Path ` set Routes)"
    and "rw_status (srv_rw s) = None"
    and "s' = snd (run_state (ServeHTTP (server_mux fl lg0 client) req) s)"
  shows "srv_driver s' = srv_driver s \<and> log s' = log s \<and> srv_monitors s' = srv_monitors s \<and>
    rw_status (srv_rw s') = Some (if req_Path req \<in> Route_Path ` set Routes then 405 else 404)"
proof (cases "req_Path req \<in> Route_Path ` set Routes")
  case True
  then obtain r where r: "r \<in> set Routes" "req_Path req = Route_Path r" by auto
  with assms(1) True have "req_Method req \<noteq> ''POST''" by simp
  with r find_Routes_path [OF r(1)] True assms(2,3) show ?thesis
    by (simp add: ServeHTTP_def server_mux_def mux_choose_Routes run_http_Error writer_defs)
next
  case False
  with assms(2,3) show ?thesis
    by (simp add: ServeHTTP_unknown run_http_Error writer_defs)
qed

text \<open>The error the client makes of a 404 page.\<close>

lemma not_found_page:
  "check_reply \<lparr>resp_Status = st, resp_Body = \<lparr>rd_bytes = ''404 page not found'' @ [CHR 0x0A], rd_error = None\<rparr>\<rparr> =
    Inl (GoError (''invalid character '' @ [CHR 0x27, CHR ''p'', CHR 0x27] @ '' after top-level value''))"
  by (simp add: check_reply_def Unmarshal_def parse_json_def begin_value_def num_start_def is_space_def
      is_digit19_def is_digit_def after_int_def syntax_error_def quoteChar_def)

lemma Routes_no_double_slash:
  "r \<in> set Routes \<Longrightarrow> CHR ''/'' # Route_Path r \<notin> Route_Path ` set Routes"
  by (auto simp: Routes_def post_route_def)

text \<open>A base URL with a trailing slash makes every path start with two slashes: no request
  reaches a handler, and the client reports the text of the 404 page as malformed JSON.\<close>

theorem trailing_slash:
  fixes s :: "'s server_state client_state"
  shows "let lib = loopback (server_mux fl lg0 drv) auth cx;
        client = client_of (auth @ ''/'') tls hc clk u;
        (r, s') = run_state (rc_Mount lib client env q) s
    in MountResponse_Err r = ''invalid character '' @ [CHR 0x27, CHR ''p'', CHR 0x27] @ '' after top-level value'' \<and>
       srv_driver (cl_net s') = srv_driver (cl_net s)"
proof -
  let ?m = "server_mux fl lg0 drv" and ?rt = "post_route ''/VolumeDriver.Mount'' MountRoute"
  let ?lib = "loopback ?m auth cx" and ?client = "client_of (auth @ ''/'') tls hc clk u"
  let ?body = "print_json (MountRequest_json q)"
  let ?req = "\<lparr>http_Method = ''POST'', http_URL = (auth @ ''/'') @ Route_Path ?rt, http_Header = [],
    http_Body = ?body, http_Context = None\<rparr>"
  let ?sreq = "to_server auth cx (?req\<lparr>http_Context := Some (Env_Context env)\<rparr>)"
  let ?n = "cl_net s\<lparr>srv_rw := fresh_writer True\<rparr>"
  let ?page = "''404 page not found'' @ [CHR 0x0A]"
  have rt: "?rt \<in> set Routes" by (simp add: Routes_def)
  have payload: "json_payload MountRequest_json q = Inr (Some ?body)" by (simp add: json_payload_def)
  have name: "Route_Name ?rt = MountRoute" by (simp add: post_route_def)
  have req: "Request ?lib (newReqFactory (rc_reqGen ?client) MountRoute (Some ?body)) = Inr ?req"
    using Request_loopback [OF rt, of ?m auth cx "auth @ ''/''" "Some ?body"] by (simp add: name)
  have path: "req_Path ?sreq = CHR ''/'' # Route_Path ?rt" by (simp add: to_server_def)
  have "ServeHTTP ?m ?sreq = http_Error ''404 page not found'' 404"
    by (rule ServeHTTP_unknown) (use Routes_no_double_slash [OF rt] path in simp)
  then have do: "run_state (http_Do ?lib (rc_HttpClient ?client) (?req\<lparr>http_Context := Some (Env_Context env)\<rparr>)) (cl_net s) =
      (Inr \<lparr>resp_Status = itoa 404, resp_Body = \<lparr>rd_bytes = ?page, rd_error = None\<rparr>\<rparr>,
       snd (run_state (http_Error ''404 page not found'' 404) ?n))"
    by (simp add: loopback_def round_trip_def run_http_Error writer_defs to_response_def Let_def)
  show ?thesis
    using remote_Mount.one_call [OF payload req do] not_found_page [of "itoa 404"]
    by (simp add: Let_def run_http_Error case_prod_beta)
qed

section \<open>Instances\<close>

text \<open>A driver that keeps the mounted volumes with their counts.\<close>

type_synonym demo_state = "(string \<times> nat) list"

definition demo_volume :: "demo_state \<Rightarrow> string \<Rightarrow> VolumeInfo" where
  "demo_volume d n = \<lparr>VolumeInfo_Name = n, VolumeInfo_Mountpoint = ''/mnt/'' @ n,
     VolumeInfo_MountCount = of_nat (the (map_of d n))\<rparr>"

definition demo_change :: "(string \<Rightarrow> demo_state \<Rightarrow> demo_state) \<Rightarrow> string \<Rightarrow> (demo_state, ErrorResponse) state" where
  "demo_change f n = State (\<lambda>d.
     if map_of d n = None then (\<lparr>ErrorResponse_Err = ''no volume''\<rparr>, d) else (\<lparr>ErrorResponse_Err = ''''\<rparr>, f n d))"

definition demo_driver :: "(unit, demo_state) Driver" where
  "demo_driver =
     \<lparr>Driver_Activate = \<lambda>_. State_Monad.return (zero_ActivateResponse\<lparr>ActivateResponse_Implements := Some [''VolumeDriver'']\<rparr>),
      Driver_Get = \<lambda>_ q. State (\<lambda>d.
        (if map_of d (GetRequest_Name q) = None then zero_GetResponse\<lparr>GetResponse_Err := ''no volume''\<rparr>
         else \<lparr>GetResponse_Volume = demo_volume d (GetRequest_Name q), GetResponse_Err = ''''\<rparr>, d)),
      Driver_List = \<lambda>_. State (\<lambda>d. (\<lparr>ListResponse_Volumes = Some (map (\<lambda>e. demo_volume d (fst e)) d), ListResponse_Err = ''''\<rparr>, d)),
      Driver_Mount = \<lambda>_ q. State (\<lambda>d.
        if map_of d (MountRequest_Name q) = None then (zero_MountResponse\<lparr>MountResponse_Err := ''no volume''\<rparr>, d)
        else (\<lparr>MountResponse_Err = '''', MountResponse_Mountpoint = ''/mnt/'' @ MountRequest_Name q\<rparr>,
              map (\<lambda>e. if fst e = MountRequest_Name q then (fst e, Suc (snd e)) else e) d)),
      Driver_Path = \<lambda>_ q. State_Monad.return \<lparr>PathResponse_Err = '''', PathResponse_Mountpoint = ''/mnt/'' @ PathRequest_Name q\<rparr>,
      Driver_Unmount = \<lambda>_ q. demo_change (\<lambda>n. map (\<lambda>e. if fst e = n then (fst e, snd e - 1) else e)) (UnmountRequest_Name q),
      Driver_Capabilities = \<lambda>_. State_Monad.return \<lparr>CapabilitiesResponse_Capabilities = \<lparr>CapabilityInfo_Scope = ''local''\<rparr>\<rparr>,
      Driver_Create = \<lambda>_ q. State (\<lambda>d. (\<lparr>ErrorResponse_Err = ''''\<rparr>, (CreateRequest_Name q, 0) # d)),
      Driver_Remove = \<lambda>_ q. demo_change (\<lambda>n. filter (\<lambda>e. fst e \<noteq> n)) (RemoveRequest_Name q)\<rparr>"

definition demo_client_state :: "demo_state \<Rightarrow> demo_state server_state client_state" where
  "demo_client_state d =
     \<lparr>log = [], cl_net = \<lparr>log = [], srv_driver = d, srv_rw = fresh_writer True, srv_monitors = []\<rparr>\<rparr>"

abbreviation demo_lib :: "demo_state server_state http_lib" where
  "demo_lib \<equiv> loopback (server_mux no_floats ''srv'' demo_driver) ''http://h'' (RootCtx 0)"

abbreviation demo_client :: remoteClient where
  "demo_client \<equiv> client_of ''http://h'' None (CfhttpClient (cfhttp_NewClient [])) RealClock ''http://h''"

abbreviation demo_env :: Env where
  "demo_env \<equiv> \<lparr>Env_Logger = ''cli'', Env_Context = RootCtx 1\<rparr>"

lemmas demo_simps = demo_driver_def demo_change_def demo_client_state_def demo_volume_def name_ok_def
  json_defs nilable_json_def valid_utf8_ascii zero_defs

theorem e2e_mount_witness:
  "fst (run_state (rc_Mount demo_lib demo_client demo_env \<lparr>MountRequest_Name = ''v''\<rparr>) (demo_client_state [(''v'', 0)])) =
    \<lparr>MountResponse_Err = '''', MountResponse_Mountpoint = ''/mnt/v''\<rparr>"
proof -
  have run: "run_state (Driver_Mount demo_driver (server_env ''srv'' ''handle-mount'' (RootCtx 0)) \<lparr>MountRequest_Name = ''v''\<rparr>)
      (srv_driver (cl_net (demo_client_state [(''v'', 0)]))) =
      (\<lparr>MountResponse_Err = '''', MountResponse_Mountpoint = ''/mnt/v''\<rparr>, [(''v'', 1)])"
    by (simp add: demo_simps)
  show ?thesis
    using e2e_mount [OF _ run, where fl = no_floats and auth = "''http://h''" and tls = None and
        hc = "CfhttpClient (cfhttp_NewClient [])" and clk = RealClock and u = "''http://h''" and env = demo_env]
    by (simp add: demo_simps)
qed

theorem e2e_create_witness:
  "fst (run_state (rc_Create no_floats demo_lib demo_client demo_env \<lparr>CreateRequest_Name = ''v'', CreateRequest_Opts = Some [(''k'', VString ''x'')]\<rparr>)
      (demo_client_state [])) = \<lparr>ErrorResponse_Err = ''''\<rparr>"
proof -
  let ?q = "\<lparr>CreateRequest_Name = ''v'', CreateRequest_Opts = Some [(''k'', VString ''x'')]\<rparr>"
  have ok: "create_ok no_floats ?q"
    by (simp add: create_ok_def strconv_exact_def no_floats_def request_maps_ok_def is_gomap_def CreateRequest_json_def
        valid_utf8_ascii maxNestingDepth_def)
  have run: "run_state (Driver_Create demo_driver (server_env ''srv'' ''handle-create'' (RootCtx 0)) ?q)
      (srv_driver (cl_net (demo_client_state []))) = (\<lparr>ErrorResponse_Err = ''''\<rparr>, [(''v'', 0)])"
    by (simp add: demo_simps)
  show ?thesis
    using e2e_create [OF ok run, where auth = "''http://h''" and tls = None and
        hc = "CfhttpClient (cfhttp_NewClient [])" and clk = RealClock and u = "''http://h''" and env = demo_env]
    by (simp add: demo_simps)
qed

theorem e2e_get_witness:
  "fst (run_state (rc_Get demo_lib demo_client demo_env \<lparr>GetRequest_Name = ''v''\<rparr>) (demo_client_state [(''v'', 2)])) =
    \<lparr>GetResponse_Volume = \<lparr>VolumeInfo_Name = ''v'', VolumeInfo_Mountpoint = ''/mnt/v'', VolumeInfo_MountCount = 2\<rparr>,
     GetResponse_Err = ''''\<rparr>"
proof -
  have run: "run_state (Driver_Get demo_driver (server_env ''srv'' ''handle-get'' (RootCtx 0)) \<lparr>GetRequest_Name = ''v''\<rparr>)
      (srv_driver (cl_net (demo_client_state [(''v'', 2)]))) =
      (\<lparr>GetResponse_Volume = \<lparr>VolumeInfo_Name = ''v'', VolumeInfo_Mountpoint = ''/mnt/v'', VolumeInfo_MountCount = 2\<rparr>,
        GetResponse_Err = ''''\<rparr>, [(''v'', 2)])"
    by (simp add: demo_simps)
  show ?thesis
    using e2e_get [OF _ run, where fl = no_floats and auth = "''http://h''" and tls = None and
        hc = "CfhttpClient (cfhttp_NewClient [])" and clk = RealClock and u = "''http://h''" and env = demo_env]
    by (simp add: demo_simps)
qed

definition demo_hop :: "(unit, demo_state server_state client_state) Driver" where
  "demo_hop = GetVoldriver no_floats demo_lib demo_client"

definition demo_hop_state :: "demo_state \<Rightarrow> demo_state server_state client_state server_state client_state" where
  "demo_hop_state d =
     \<lparr>log = [], cl_net = \<lparr>log = [], srv_driver = demo_client_state d, srv_rw = fresh_writer True, srv_monitors = []\<rparr>\<rparr>"

theorem e2e_chain_witness:
  "fst (run_state (rc_Get (loopback (server_mux no_floats ''mid'' demo_hop) ''http://m'' (RootCtx 2))
      (client_of ''http://m'' None (CfhttpClient (cfhttp_NewClient [])) RealClock ''http://m'') demo_env \<lparr>GetRequest_Name = ''v''\<rparr>)
      (demo_hop_state [(''v'', 2)])) =
    \<lparr>GetResponse_Volume = \<lparr>VolumeInfo_Name = ''v'', VolumeInfo_Mountpoint = ''/mnt/v'', VolumeInfo_MountCount = 2\<rparr>,
     GetResponse_Err = ''''\<rparr>"
proof -
  have run: "run_state (Driver_Get demo_driver (server_env ''srv'' ''handle-get'' (RootCtx 0)) \<lparr>GetRequest_Name = ''v''\<rparr>)
      (srv_driver (cl_net (srv_driver (cl_net (demo_hop_state [(''v'', 2)]))))) =
      (\<lparr>GetResponse_Volume = \<lparr>VolumeInfo_Name = ''v'', VolumeInfo_Mountpoint = ''/mnt/v'', VolumeInfo_MountCount = 2\<rparr>,
        GetResponse_Err = ''''\<rparr>, [(''v'', 2)])"
    by (simp add: demo_hop_state_def demo_simps)
  show ?thesis
    using e2e_chain [OF _ run _ demo_hop_def prod.collapse]
    by (simp add: demo_simps)
qed

theorem e2e_list_witness:
  "ListResponse_Volumes (fst (run_state (rc_List demo_lib demo_client demo_env) (demo_client_state []))) = Some []"
proof -
  have run: "run_state (Driver_List demo_driver (server_env ''srv'' ''handle-list'' (RootCtx 0)))
      (srv_driver (cl_net (demo_client_state []))) = (\<lparr>ListResponse_Volumes = Some [], ListResponse_Err = ''''\<rparr>, [])"
    by (simp add: demo_simps)
  show ?thesis
    using e2e_list [OF run, where fl = no_floats and auth = "''http://h''" and tls = None and
        hc = "CfhttpClient (cfhttp_NewClient [])" and clk = RealClock and u = "''http://h''" and env = demo_env]
    by (simp add: demo_simps)
qed

theorem e2e_unmount_remove_witness:
  "\<exists>s'. run_state (do {
      a \<leftarrow> rc_Unmount demo_lib demo_client demo_env \<lparr>UnmountRequest_Name = ''v''\<rparr>;
      b \<leftarrow> rc_Remove demo_lib demo_client demo_env \<lparr>RemoveRequest_Name = ''v''\<rparr>;
      State_Monad.return (a, b)
    }) (demo_client_state [(''v'', 1)]) = ((\<lparr>ErrorResponse_Err = ''''\<rparr>, \<lparr>ErrorResponse_Err = ''''\<rparr>), s') \<and>
    srv_driver (cl_net s') = []"
proof -
  have 1: "run_state (Driver_Unmount demo_driver (server_env ''srv'' ''handle-unmount'' (RootCtx 0)) \<lparr>UnmountRequest_Name = ''v''\<rparr>)
      (srv_driver (cl_net (demo_client_state [(''v'', 1)]))) = (\<lparr>ErrorResponse_Err = ''''\<rparr>, [(''v'', 0)])"
    and 2: "run_state (Driver_Remove demo_driver (server_env ''srv'' ''handle-remove'' (RootCtx 0)) \<lparr>RemoveRequest_Name = ''v''\<rparr>)
      [(''v'', 0)] = (\<lparr>ErrorResponse_Err = ''''\<rparr>, [])"
    by (simp_all add: demo_simps)
  show ?thesis
    by (rule e2e_unmount_remove [OF _ _ 1 2 _ _ refl refl]) (simp_all add: demo_simps)
qed

theorem stray_requests_witness:
  "rw_status (srv_rw (snd (run_state (ServeHTTP (server_mux no_floats ''srv'' demo_driver)
      \<lparr>req_Method = ''GET'', req_Path = ''/VolumeDriver.List'', req_Body = \<lparr>rd_bytes = '''', rd_error = None\<rparr>, req_Context = RootCtx 0\<rparr>)
      (cl_net (demo_client_state []))))) = Some 405"
  using stray_requests [OF _ _ refl, where req = "\<lparr>req_Method = ''GET'', req_Path = ''/VolumeDriver.List'',
      req_Body = \<lparr>rd_bytes = '''', rd_error = None\<rparr>, req_Context = RootCtx 0\<rparr>" and s = "cl_net (demo_client_state [])"
      and fl = no_floats and ?lg0.0 = "''srv''" and client = demo_driver]
  by (simp add: demo_client_state_def fresh_writer_def Routes_def post_route_def)

text \<open>Instances of the handler properties, with the demonstration driver behind the handler.\<close>

definition demo_request :: "string \<Rightarrow> go_error option \<Rightarrow> server_request" where
  "demo_request body err =
     \<lparr>req_Method = ''POST'', req_Path = '''', req_Body = \<lparr>rd_bytes = body, rd_error = err\<rparr>, req_Context = RootCtx 0\<rparr>"

definition demo_server_state :: "demo_state \<Rightarrow> demo_state server_state" where
  "demo_server_state d = cl_net (demo_client_state d)"

lemma demo_server_driver [simp]: "srv_driver (demo_server_state d) = d"
  by (simp add: demo_server_state_def demo_client_state_def)

theorem mount_rejects_witness:
  "srv_driver (snd (run_state (newMountHandler ''srv'' demo_driver (demo_request ''{'' (Some io_EOF)))
      (demo_server_state [(''v'', 1)]))) = [(''v'', 1)]"
  using mount_rejects [OF _ refl, of "demo_request ''{'' (Some io_EOF)" io_EOF "''srv''" demo_driver "demo_server_state [(''v'', 1)]"]
  by (simp add: demo_request_def)

theorem create_rejects_witness:
  "srv_driver (snd (run_state (newCreateHandler no_floats ''srv'' demo_driver (demo_request ''[]'' None))
      (demo_server_state [(''v'', 1)]))) = [(''v'', 1)]"
proof -
  have parse: "parse_json ''[]'' = Inr (JArr [])"
    by (simp add: parse_json_def scan_eof_def begin_value_def push_frame_def maxNestingDepth_def is_space_def)
  have "Unmarshal (dec_CreateRequest no_floats) zero_CreateRequest ''[]'' =
      type_error ''array'' top_ctx ''dockerdriver.CreateRequest''"
    by (simp add: Unmarshal_def parse dec_CreateRequest_def dec_struct_def)
  then obtain e where "Unmarshal (dec_CreateRequest no_floats) zero_CreateRequest
      (rd_bytes (req_Body (demo_request ''[]'' None))) = Inl e"
    by (simp add: demo_request_def type_error_def)
  from create_rejects [OF _ this refl, of "''srv''" demo_driver "demo_server_state [(''v'', 1)]"] show ?thesis
    by (simp add: demo_request_def)
qed

lemma demo_name_body:
  "Unmarshal dec_MountRequest zero_MountRequest (print_json (MountRequest_json \<lparr>MountRequest_Name = ''v''\<rparr>)) =
    Inr \<lparr>MountRequest_Name = ''v''\<rparr>"
  "Unmarshal dec_GetRequest zero_GetRequest (print_json (GetRequest_json \<lparr>GetRequest_Name = ''w''\<rparr>)) =
    Inr \<lparr>GetRequest_Name = ''w''\<rparr>"
  by (rule wire_MountRequest.unmarshal_marshal wire_GetRequest.unmarshal_marshal,
      simp add: strings_valid_requests name_ok_def valid_utf8_ascii)+

theorem mount_calls_driver_witness:
  "srv_driver (snd (run_state (newMountHandler ''srv'' demo_driver
      (demo_request (print_json (MountRequest_json \<lparr>MountRequest_Name = ''v''\<rparr>)) None)) (demo_server_state [(''v'', 1)]))) = [(''v'', 2)]"
proof -
  let ?req = "demo_request (print_json (MountRequest_json \<lparr>MountRequest_Name = ''v''\<rparr>)) None"
  have body: "rd_error (req_Body ?req) = None"
    "Unmarshal dec_MountRequest zero_MountRequest (rd_bytes (req_Body ?req)) = Inr \<lparr>MountRequest_Name = ''v''\<rparr>"
    unfolding demo_name_body(1) [symmetric] by (simp_all add: demo_request_def)
  have run: "run_state (Driver_Mount demo_driver
      \<lparr>Env_Logger = ''srv'' @ ''.handle-mount.with-cancel'', Env_Context = CancelCtx (req_Context ?req)\<rparr> \<lparr>MountRequest_Name = ''v''\<rparr>)
      (srv_driver (demo_server_state [(''v'', 1)])) =
    (\<lparr>MountResponse_Err = '''', MountResponse_Mountpoint = ''/mnt/v''\<rparr>, [(''v'', 2)])"
    by (simp add: demo_driver_def)
  from mount_calls_driver [OF body run refl] show ?thesis by simp
qed

theorem get_logs_no_error_witness:
  "LogEntry ERROR ''srv.handle-get.failed-getting-volume'' None \<in>
    set (log (snd (run_state (newGetHandler ''srv'' demo_driver
      (demo_request (print_json (GetRequest_json \<lparr>GetRequest_Name = ''w''\<rparr>)) None)) (demo_server_state [(''v'', 1)]))))"
proof -
  let ?req = "demo_request (print_json (GetRequest_json \<lparr>GetRequest_Name = ''w''\<rparr>)) None"
  have body: "accept_get (req_Body ?req) = Inr \<lparr>GetRequest_Name = ''w''\<rparr>"
    using demo_name_body(2) by (simp add: accept_get_def accept_json_marshalled demo_request_def del: print_json.simps)
  have run: "run_state (Driver_Get demo_driver (monitor_env (Session ''srv'' ''handle-get'') (req_Context ?req)) \<lparr>GetRequest_Name = ''w''\<rparr>)
      (srv_driver (demo_server_state [(''v'', 1)])) =
    (zero_GetResponse\<lparr>GetResponse_Err := ''no volume''\<rparr>, [(''v'', 1)])"
    by (simp add: demo_driver_def)
  obtain mid where "log (snd (run_state (newGetHandler ''srv'' demo_driver ?req) (demo_server_state [(''v'', 1)]))) =
      log (demo_server_state [(''v'', 1)]) @ mid @
      [LogEntry ERROR (Session ''srv'' ''handle-get'' @ ''.failed-getting-volume'') None,
       LogEntry INFO (Session ''srv'' ''handle-get'' @ ''.end'') None]"
    using get_logs_no_error [OF body run _ refl] by auto
  then show ?thesis by (simp add: Session_def)
qed

end
