(* ===== verification/Driver_Programs.thy ===== *)
theory Driver_Programs
  imports End_To_End
begin

text \<open>
  Whole sessions of a driver's user over the network. \<open>call\<close> is a call of one of the nine
  operations of the \<open>Driver\<close> interface, and a \<open>program\<close> is a user of it that chooses each call by the
  answers it has got so far. A program run over the remote client, the network and the server
  ends with the result it has over the driver itself, and leaves the driver in the same state,
  once answers are read as the protocol carries them (\<open>wire_answer\<close>: an error comes alone). Since
  the client is a driver again, programs can be moved over any number of hops.
\<close>

section \<open>Calls and answers\<close>

datatype 'f call =
    CallActivate | CallGet GetRequest | CallList | CallMount MountRequest | CallPath PathRequest
  | CallUnmount UnmountRequest | CallCapabilities | CallCreate "'f CreateRequest"
  | CallRemove RemoveRequest

datatype answer =
    ActivateAnswer ActivateResponse | GetAnswer GetResponse | ListAnswer ListResponse
  | MountAnswer MountResponse | PathAnswer PathResponse | ErrorAnswer ErrorResponse
  | CapabilitiesAnswer CapabilitiesResponse

fun exec_call :: "('f, 's) Driver \<Rightarrow> Env \<Rightarrow> 'f call \<Rightarrow> ('s, answer) state" where
  "exec_call drv env CallActivate = do { r \<leftarrow> Driver_Activate drv env; State_Monad.return (ActivateAnswer r) }"
| "exec_call drv env (CallGet q) = do { r \<leftarrow> Driver_Get drv env q; State_Monad.return (GetAnswer r) }"
| "exec_call drv env CallList = do { r \<leftarrow> Driver_List drv env; State_Monad.return (ListAnswer r) }"
| "exec_call drv env (CallMount q) = do { r \<leftarrow> Driver_Mount drv env q; State_Monad.return (MountAnswer r) }"
| "exec_call drv env (CallPath q) = do { r \<leftarrow> Driver_Path drv env q; State_Monad.return (PathAnswer r) }"
| "exec_call drv env (CallUnmount q) = do { r \<leftarrow> Driver_Unmount drv env q; State_Monad.return (ErrorAnswer r) }"
| "exec_call drv env CallCapabilities = do { r \<leftarrow> Driver_Capabilities drv env; State_Monad.return (CapabilitiesAnswer r) }"
| "exec_call drv env (CallCreate q) = do { r \<leftarrow> Driver_Create drv env q; State_Monad.return (ErrorAnswer r) }"
| "exec_call drv env (CallRemove q) = do { r \<leftarrow> Driver_Remove drv env q; State_Monad.return (ErrorAnswer r) }"

text \<open>The task under which the server's handler of a call logs.\<close>

fun call_task :: "'f call \<Rightarrow> string" where
  "call_task CallActivate = ''handle-activate''"
| "call_task (CallGet q) = ''handle-get''"
| "call_task CallList = ''handle-list''"
| "call_task (CallMount q) = ''handle-mount''"
| "call_task (CallPath q) = ''handle-path''"
| "call_task (CallUnmount q) = ''handle-unmount''"
| "call_task CallCapabilities = ''handle-capabilities''"
| "call_task (CallCreate q) = ''handle-create''"
| "call_task (CallRemove q) = ''handle-remove''"

text \<open>The calls whose request the server decodes to the same request, and the answers whose
  strings are all in UTF-8.\<close>

fun call_ok :: "'f strconv \<Rightarrow> 'f call \<Rightarrow> bool" where
  "call_ok fl CallActivate = True"
| "call_ok fl (CallGet q) = name_ok (GetRequest_Name q)"
| "call_ok fl CallList = True"
| "call_ok fl (CallMount q) = name_ok (MountRequest_Name q)"
| "call_ok fl (CallPath q) = name_ok (PathRequest_Name q)"
| "call_ok fl (CallUnmount q) = name_ok (UnmountRequest_Name q)"
| "call_ok fl CallCapabilities = True"
| "call_ok fl (CallCreate q) = create_ok fl q"
| "call_ok fl (CallRemove q) = name_ok (RemoveRequest_Name q)"

fun answer_json :: "answer \<Rightarrow> json" where
  "answer_json (ActivateAnswer r) = ActivateResponse_json r"
| "answer_json (GetAnswer r) = GetResponse_json r"
| "answer_json (ListAnswer r) = ListResponse_json r"
| "answer_json (MountAnswer r) = MountResponse_json r"
| "answer_json (PathAnswer r) = PathResponse_json r"
| "answer_json (ErrorAnswer r) = ErrorResponse_json r"
| "answer_json (CapabilitiesAnswer r) = CapabilitiesResponse_json r"

definition answer_ok :: "answer \<Rightarrow> bool" where
  "answer_ok a \<longleftrightarrow> strings_valid (answer_json a)"

text \<open>What the client makes of an answer: an error comes without the rest of the response.\<close>

fun wire_answer :: "answer \<Rightarrow> answer" where
  "wire_answer (ActivateAnswer r) = ActivateAnswer
     (if ActivateResponse_Err r = '''' then r else zero_ActivateResponse\<lparr>ActivateResponse_Err := ActivateResponse_Err r\<rparr>)"
| "wire_answer (GetAnswer r) = GetAnswer
     (if GetResponse_Err r = '''' then r else zero_GetResponse\<lparr>GetResponse_Err := GetResponse_Err r\<rparr>)"
| "wire_answer (ListAnswer r) = ListAnswer
     (if ListResponse_Err r = '''' then r else zero_ListResponse\<lparr>ListResponse_Err := ListResponse_Err r\<rparr>)"
| "wire_answer (MountAnswer r) = MountAnswer
     (if MountResponse_Err r = '''' then r else zero_MountResponse\<lparr>MountResponse_Err := MountResponse_Err r\<rparr>)"
| "wire_answer (PathAnswer r) = PathAnswer
     (if PathResponse_Err r = '''' then r else zero_PathResponse\<lparr>PathResponse_Err := PathResponse_Err r\<rparr>)"
| "wire_answer (ErrorAnswer r) = ErrorAnswer r"
| "wire_answer (CapabilitiesAnswer r) = CapabilitiesAnswer r"

lemma wire_answer_idem [simp]: "wire_answer (wire_answer a) = wire_answer a"
  by (cases a) simp_all

lemma wire_answer_ok: "answer_ok a \<Longrightarrow> answer_ok (wire_answer a)"
  by (cases a) (auto simp: answer_ok_def json_defs nilable_json_def zero_defs valid_utf8_ascii)

section \<open>One call\<close>

abbreviation remote_driver ::
  "'f strconv \<Rightarrow> logger \<Rightarrow> ('f, 's) Driver \<Rightarrow> string \<Rightarrow> ctx \<Rightarrow> TLSConfig nilable \<Rightarrow> http_client \<Rightarrow> clock \<Rightarrow> string \<Rightarrow>
    ('f, 's server_state client_state) Driver" where
  "remote_driver fl lg0 drv auth cx tls hc clk u \<equiv>
     GetVoldriver fl (loopback (server_mux fl lg0 drv) auth cx) (client_of auth tls hc clk u)"

text \<open>A call of the remote client is the same call of the driver behind the server.\<close>

lemma run_via:
  assumes "fst (run_state m s) = r'" and "srv_driver (cl_net (snd (run_state m s))) = d" and "f r' = a"
  shows "\<exists>s'. run_state (do { r \<leftarrow> m; State_Monad.return (f r) }) s = (a, s') \<and> srv_driver (cl_net s') = d"
  using assms by (cases "run_state m s") simp

lemma error_answer_id: "(if ErrorResponse_Err r = '''' then r else \<lparr>ErrorResponse_Err = ErrorResponse_Err r\<rparr>) = r"
  by (cases r) simp

lemma exec_remote:
  assumes "call_ok fl c"
    and "run_state (exec_call drv (server_env lg0 (call_task c) cx) c) (srv_driver (cl_net s)) = (a, d)"
    and "answer_ok a"
  shows "\<exists>s'. run_state (exec_call (remote_driver fl lg0 drv auth cx tls hc clk u) env c) s = (wire_answer a, s') \<and>
    srv_driver (cl_net s') = d"
proof (cases c)
  case CallActivate
  with assms obtain r where
    run: "run_state (Driver_Activate drv (server_env lg0 ''handle-activate'' cx)) (srv_driver (cl_net s)) = (r, d)"
    and a: "a = ActivateAnswer r" and ok: "strings_valid (ActivateResponse_json r)"
    by (auto simp: answer_ok_def split: prod.split_asm)
  show ?thesis
    unfolding CallActivate exec_call.simps GetVoldriver_def Driver.simps a
    using assms(1) unfolding CallActivate call_ok.simps
    by (intro run_via [OF e2e_Activate.transparent [OF _ run ok]]) (simp_all add: zero_defs error_answer_id)
next
  case (CallGet q)
  with assms obtain r where
    run: "run_state (Driver_Get drv (server_env lg0 ''handle-get'' cx) q) (srv_driver (cl_net s)) = (r, d)"
    and a: "a = GetAnswer r" and ok: "strings_valid (GetResponse_json r)"
    by (auto simp: answer_ok_def split: prod.split_asm)
  show ?thesis
    unfolding CallGet exec_call.simps GetVoldriver_def Driver.simps a
    using assms(1) unfolding CallGet call_ok.simps
    by (intro run_via [OF e2e_Get.transparent [OF _ run ok]]) (simp_all add: zero_defs error_answer_id)
next
  case CallList
  with assms obtain r where
    run: "run_state (Driver_List drv (server_env lg0 ''handle-list'' cx)) (srv_driver (cl_net s)) = (r, d)"
    and a: "a = ListAnswer r" and ok: "strings_valid (ListResponse_json r)"
    by (auto simp: answer_ok_def split: prod.split_asm)
  show ?thesis
    unfolding CallList exec_call.simps GetVoldriver_def Driver.simps a
    using assms(1) unfolding CallList call_ok.simps
    by (intro run_via [OF e2e_List.transparent [OF _ run ok]]) (simp_all add: zero_defs error_answer_id)
next
  case (CallMount q)
  with assms obtain r where
    run: "run_state (Driver_Mount drv (server_env lg0 ''handle-mount'' cx) q) (srv_driver (cl_net s)) = (r, d)"
    and a: "a = MountAnswer r" and ok: "strings_valid (MountResponse_json r)"
    by (auto simp: answer_ok_def split: prod.split_asm)
  show ?thesis
    unfolding CallMount exec_call.simps GetVoldriver_def Driver.simps a
    using assms(1) unfolding CallMount call_ok.simps
    by (intro run_via [OF e2e_Mount.transparent [OF _ run ok]]) (simp_all add: zero_defs error_answer_id)
next
  case (CallPath q)
  with assms obtain r where
    run: "run_state (Driver_Path drv (server_env lg0 ''handle-path'' cx) q) (srv_driver (cl_net s)) = (r, d)"
    and a: "a = PathAnswer r" and ok: "strings_valid (PathResponse_json r)"
    by (auto simp: answer_ok_def split: prod.split_asm)
  show ?thesis
    unfolding CallPath exec_call.simps GetVoldriver_def Driver.simps a
    using assms(1) unfolding CallPath call_ok.simps
    by (intro run_via [OF e2e_Path.transparent [OF _ run ok]]) (simp_all add: zero_defs error_answer_id)
next
  case (CallUnmount q)
  with assms obtain r where
    run: "run_state (Driver_Unmount drv (server_env lg0 ''handle-unmount'' cx) q) (srv_driver (cl_net s)) = (r, d)"
    and a: "a = ErrorAnswer r" and ok: "strings_valid (ErrorResponse_json r)"
    by (auto simp: answer_ok_def split: prod.split_asm)
  show ?thesis
    unfolding CallUnmount exec_call.simps GetVoldriver_def Driver.simps a
    using assms(1) unfolding CallUnmount call_ok.simps
    by (intro run_via [OF e2e_Unmount.transparent [OF _ run ok]]) (simp_all add: zero_defs error_answer_id)
next
  case CallCapabilities
  with assms obtain r where
    run: "run_state (Driver_Capabilities drv (server_env lg0 ''handle-capabilities'' cx)) (srv_driver (cl_net s)) = (r, d)"
    and a: "a = CapabilitiesAnswer r" and ok: "strings_valid (CapabilitiesResponse_json r)"
    by (auto simp: answer_ok_def split: prod.split_asm)
  show ?thesis
    unfolding CallCapabilities exec_call.simps GetVoldriver_def Driver.simps a
    using assms(1) unfolding CallCapabilities call_ok.simps
    by (intro run_via [OF e2e_Capabilities.transparent [OF _ run ok]]) (simp_all add: zero_defs error_answer_id)
next
  case (CallCreate q)
  with assms obtain r where
    run: "run_state (Driver_Create drv (server_env lg0 ''handle-create'' cx) q) (srv_driver (cl_net s)) = (r, d)"
    and a: "a = ErrorAnswer r" and ok: "strings_valid (ErrorResponse_json r)"
    by (auto simp: answer_ok_def split: prod.split_asm)
  show ?thesis
    unfolding CallCreate exec_call.simps GetVoldriver_def Driver.simps a
    using assms(1) unfolding CallCreate call_ok.simps
    by (intro run_via [OF e2e_Create.transparent [OF _ run ok]]) (simp_all add: zero_defs error_answer_id)
next
  case (CallRemove q)
  with assms obtain r where
    run: "run_state (Driver_Remove drv (server_env lg0 ''handle-remove'' cx) q) (srv_driver (cl_net s)) = (r, d)"
    and a: "a = ErrorAnswer r" and ok: "strings_valid (ErrorResponse_json r)"
    by (auto simp: answer_ok_def split: prod.split_asm)
  show ?thesis
    unfolding CallRemove exec_call.simps GetVoldriver_def Driver.simps a
    using assms(1) unfolding CallRemove call_ok.simps
    by (intro run_via [OF e2e_Remove.transparent [OF _ run ok]]) (simp_all add: zero_defs error_answer_id)
qed

section \<open>Programs\<close>

datatype ('f, 'a) program = Finish 'a | Ask "'f call" "answer \<Rightarrow> ('f, 'a) program"

primrec run_program :: "('f, 's) Driver \<Rightarrow> ('f call \<Rightarrow> Env) \<Rightarrow> ('f, 'a) program \<Rightarrow> ('s, 'a) state" where
  "run_program drv envs (Finish x) = State_Monad.return x"
| "run_program drv envs (Ask c k) = do {
     a \<leftarrow> exec_call drv (envs c) c;
     run_program drv envs (k a)
   }"

text \<open>The same program when every answer is read as the protocol carries it.\<close>

primrec on_wire :: "('f, 'a) program \<Rightarrow> ('f, 'a) program" where
  "on_wire (Finish x) = Finish x"
| "on_wire (Ask c k) = Ask c (\<lambda>a. on_wire (k (wire_answer a)))"

text \<open>A program may use in its calls what it read in answers, which are in UTF-8.\<close>

primrec program_ok :: "'f strconv \<Rightarrow> ('f, 'a) program \<Rightarrow> bool" where
  "program_ok fl (Finish x) \<longleftrightarrow> True"
| "program_ok fl (Ask c k) \<longleftrightarrow> call_ok fl c \<and> (\<forall>a. answer_ok a \<longrightarrow> program_ok fl (k a))"

text \<open>The drivers that answer in UTF-8 from the states of an invariant they keep.\<close>

definition keeps_utf8 :: "'f strconv \<Rightarrow> ('f, 's) Driver \<Rightarrow> ('s \<Rightarrow> bool) \<Rightarrow> bool" where
  "keeps_utf8 fl drv keep \<longleftrightarrow>
     (\<forall>c env d a d'. call_ok fl c \<longrightarrow> keep d \<longrightarrow> run_state (exec_call drv env c) d = (a, d') \<longrightarrow>
        answer_ok a \<and> keep d')"

lemma keeps_utf8D:
  "keeps_utf8 fl drv keep \<Longrightarrow> call_ok fl c \<Longrightarrow> keep d \<Longrightarrow> run_state (exec_call drv env c) d = (a, d') \<Longrightarrow>
    answer_ok a \<and> keep d'"
  unfolding keeps_utf8_def by blast

lemma program_ok_on_wire: "program_ok fl p \<Longrightarrow> program_ok fl (on_wire p)"
  by (induction p) (simp_all add: wire_answer_ok)

lemma on_wire_idem [simp]: "on_wire (on_wire p) = on_wire p"
  by (induction p) (simp_all add: fun_eq_iff)

text \<open>A client of such a driver is such a driver.\<close>

lemma remote_keeps_utf8:
  assumes "keeps_utf8 fl drv keep"
  shows "keeps_utf8 fl (remote_driver fl lg0 drv auth cx tls hc clk u) (\<lambda>s. keep (srv_driver (cl_net s)))"
  unfolding keeps_utf8_def
proof (intro allI impI)
  fix c env s a' s'
  assume ok: "call_ok fl c" and keep: "keep (srv_driver (cl_net s))"
    and run: "run_state (exec_call (remote_driver fl lg0 drv auth cx tls hc clk u) env c) s = (a', s')"
  obtain a d where a: "run_state (exec_call drv (server_env lg0 (call_task c) cx) c) (srv_driver (cl_net s)) = (a, d)"
    by fastforce
  from keeps_utf8D [OF assms ok keep a] have "answer_ok a" "keep d" by simp_all
  with exec_remote [OF ok a, of auth tls hc clk u env] run wire_answer_ok
  show "answer_ok a' \<and> keep (srv_driver (cl_net s'))" by auto
qed

lemma run_program_remote:
  assumes "keeps_utf8 fl drv keep" and "keep (srv_driver (cl_net s))" and "program_ok fl p"
    and "run_state (run_program drv (\<lambda>c. server_env lg0 (call_task c) cx) (on_wire p)) (srv_driver (cl_net s)) = (x, d)"
  shows "\<exists>s'. run_state (run_program (remote_driver fl lg0 drv auth cx tls hc clk u) envs p) s = (x, s') \<and>
    srv_driver (cl_net s') = d"
  using assms(2-4)
proof (induction p arbitrary: s)
  case (Finish y)
  then show ?case by simp
next
  case (Ask c k)
  let ?senv = "\<lambda>c. server_env lg0 (call_task c) cx"
  obtain a d1 where a: "run_state (exec_call drv (?senv c) c) (srv_driver (cl_net s)) = (a, d1)"
    by fastforce
  from Ask.prems(2) have ok: "call_ok fl c" by simp
  from keeps_utf8D [OF assms(1) ok Ask.prems(1) a] have "answer_ok a" and keep: "keep d1" by simp_all
  from exec_remote [OF ok a this(1), of auth tls hc clk u "envs c"] obtain s1 where
    s1: "run_state (exec_call (remote_driver fl lg0 drv auth cx tls hc clk u) (envs c) c) s = (wire_answer a, s1)"
      "srv_driver (cl_net s1) = d1" by blast
  have rest: "run_state (run_program drv ?senv (on_wire (k (wire_answer a)))) (srv_driver (cl_net s1)) = (x, d)"
    using Ask.prems(3) a s1(2) by simp
  have "program_ok fl (k (wire_answer a))"
    using Ask.prems(2) wire_answer_ok [OF \<open>answer_ok a\<close>] by simp
  from Ask.IH [OF rangeI _ this rest] keep s1 show ?case by simp
qed

text \<open>The drivers that leave the rest of a response empty when it carries an error, as the protocol
  does; over them a program notices nothing of how answers are carried.\<close>

definition errors_alone :: "'f strconv \<Rightarrow> ('f, 's) Driver \<Rightarrow> ('s \<Rightarrow> bool) \<Rightarrow> bool" where
  "errors_alone fl drv keep \<longleftrightarrow>
     (\<forall>c env d a d'. call_ok fl c \<longrightarrow> keep d \<longrightarrow> run_state (exec_call drv env c) d = (a, d') \<longrightarrow> wire_answer a = a)"

lemma errors_aloneD:
  "errors_alone fl drv keep \<Longrightarrow> call_ok fl c \<Longrightarrow> keep d \<Longrightarrow> run_state (exec_call drv env c) d = (a, d') \<Longrightarrow> wire_answer a = a"
  unfolding errors_alone_def by blast

lemma run_on_wire:
  assumes "keeps_utf8 fl drv keep" and "errors_alone fl drv keep" and "program_ok fl p" and "keep d"
  shows "run_state (run_program drv envs (on_wire p)) d = run_state (run_program drv envs p) d"
  using assms(3,4)
proof (induction p arbitrary: d)
  case (Ask c k)
  obtain a d' where a: "run_state (exec_call drv (envs c) c) d = (a, d')" by fastforce
  from Ask.prems(1) have ok: "call_ok fl c" by simp
  from keeps_utf8D [OF assms(1) ok Ask.prems(2) a] have "answer_ok a" "keep d'" by simp_all
  with Ask have "run_state (run_program drv envs (on_wire (k a))) d' = run_state (run_program drv envs (k a)) d'" by simp
  with errors_aloneD [OF assms(2) ok Ask.prems(2) a] show ?case by (simp add: a)
qed simp

section \<open>Properties\<close>

text \<open>Property C2. A program over the driver interface may choose each call by the answers so far; take
  one whose calls carry names in UTF-8 and options JSON can carry (\<open>program_ok\<close>), and a driver that
  answers in UTF-8 (\<open>keeps_utf8\<close>). Over the remote client, the network and the server the program
  has the result it has over the driver when each answer is read as the protocol carries it
  (\<open>on_wire\<close>: a response that carries an error loses its other fields), and leaves the driver in
  the same state. When the driver leaves those fields empty itself (\<open>errors_alone\<close>), it is the
  result of the program as it is.\<close>

theorem program_transparent:
  assumes "keeps_utf8 fl drv keep" and "keep (srv_driver (cl_net s))" and "program_ok fl p"
    and "q = on_wire p \<or> q = p \<and> errors_alone fl drv keep"
    and "run_state (run_program drv (\<lambda>c. server_env lg0 (call_task c) cx) q) (srv_driver (cl_net s)) = (x, d)"
    and "client = GetVoldriver fl (loopback (server_mux fl lg0 drv) auth cx) (client_of auth tls hc clk u)"
  shows "\<exists>s'. run_state (run_program client envs p) s = (x, s') \<and> srv_driver (cl_net s') = d"
proof -
  have "run_state (run_program drv (\<lambda>c. server_env lg0 (call_task c) cx) (on_wire p)) (srv_driver (cl_net s)) = (x, d)"
    using assms(4,5) run_on_wire [OF assms(1) _ assms(3,2)] by auto
  then show ?thesis unfolding assms(6) by (rule run_program_remote [OF assms(1-3)])
qed

text \<open>Property C3. The client is a driver that a server can offer: over two clients and two servers a
  program as above has the result it has over the driver when each answer is read as the protocol
  carries it, the second hop changing nothing more, and the result of the program as it is when the
  driver leaves the other fields of an error empty; the driver moves to the same state.\<close>

theorem program_hops:
  assumes "keeps_utf8 fl drv keep" and "keep (srv_driver (cl_net (srv_driver (cl_net s))))" and "program_ok fl p"
    and "q = on_wire p \<or> q = p \<and> errors_alone fl drv keep"
    and "run_state (run_program drv (\<lambda>c. server_env lg0 (call_task c) cx) q)
      (srv_driver (cl_net (srv_driver (cl_net s)))) = (x, d)"
    and "hop = GetVoldriver fl (loopback (server_mux fl lg0 drv) auth cx) (client_of auth tls hc clk u)"
    and "client = GetVoldriver fl (loopback (server_mux fl lg0' hop) auth' cx') (client_of auth' tls' hc' clk' u')"
  shows "\<exists>s'. run_state (run_program client envs p) s = (x, s') \<and> srv_driver (cl_net (srv_driver (cl_net s'))) = d"
proof -
  have wire: "run_state (run_program drv (\<lambda>c. server_env lg0 (call_task c) cx) (on_wire p))
      (srv_driver (cl_net (srv_driver (cl_net s)))) = (x, d)"
    using assms(4,5) run_on_wire [OF assms(1) _ assms(3,2)] by auto
  have keeps: "keeps_utf8 fl hop (\<lambda>s. keep (srv_driver (cl_net s)))"
    unfolding assms(6) by (rule remote_keeps_utf8 [OF assms(1)])
  obtain s1 where s1: "run_state (run_program hop (\<lambda>c. server_env lg0' (call_task c) cx') (on_wire p))
      (srv_driver (cl_net s)) = (x, s1)" "srv_driver (cl_net s1) = d"
    using run_program_remote [OF assms(1,2) program_ok_on_wire [OF assms(3)]] wire unfolding assms(6) by force
  from run_program_remote [OF keeps assms(2,3) s1(1)] s1(2) show ?thesis
    unfolding assms(7) by force
qed

section \<open>Instances\<close>

text \<open>The driver of the instances keeps its volumes' names in UTF-8.\<close>

definition demo_names :: "demo_state \<Rightarrow> bool" where
  "demo_names = list_all (\<lambda>e. valid_utf8 (fst e))"

lemma valid_mnt: "valid_utf8 n \<Longrightarrow> valid_utf8 (''/mnt/'' @ n)"
  by (rule valid_utf8_append [OF valid_utf8_ascii]) simp_all

lemma demo_names_map [simp]: "(\<And>e. fst (f e) = fst e) \<Longrightarrow> demo_names (map f d) = demo_names d"
  by (induction d) (simp_all add: demo_names_def)

lemma demo_names_filter: "demo_names d \<Longrightarrow> demo_names (filter P d)"
  by (induction d) (simp_all add: demo_names_def)

lemma demo_volume_ok: "valid_utf8 n \<Longrightarrow> strings_valid (VolumeInfo_json (demo_volume d n))"
  using valid_mnt [of n] by (simp add: VolumeInfo_json_def demo_volume_def valid_utf8_ascii)

lemma demo_volumes_ok:
  "demo_names d \<Longrightarrow> list_all (\<lambda>e. strings_valid (VolumeInfo_json (demo_volume d0 (fst e)))) d"
  by (induction d) (simp_all add: demo_names_def demo_volume_ok)

lemma create_ok_name: "create_ok fl q \<Longrightarrow> valid_utf8 (CreateRequest_Name q)"
  by (auto simp: create_ok_def CreateRequest_json_def bind_ok_Inr_iff simp del: goval_json.simps split: sum.splits)

lemma demo_keeps_utf8: "keeps_utf8 no_floats demo_driver demo_names"
  unfolding keeps_utf8_def
proof (intro allI impI)
  fix c env d a d'
  assume ok: "call_ok no_floats c" and names: "demo_names d"
    and run: "run_state (exec_call demo_driver env c) d = (a, d')"
  show "answer_ok a \<and> demo_names d'"
  proof (cases c)
    case (CallGet q)
    then show ?thesis
      using ok names run demo_volume_ok [of "GetRequest_Name q" d]
      by (auto simp: demo_driver_def name_ok_def answer_ok_def GetResponse_json_def zero_defs VolumeInfo_json_def valid_utf8_ascii
          split: if_splits)
  next
    case CallList
    then show ?thesis
      using ok names run demo_volumes_ok [OF names]
      by (auto simp: demo_driver_def answer_ok_def ListResponse_json_def nilable_json_def valid_utf8_ascii list.pred_map comp_def)
  next
    case (CallCreate q)
    then show ?thesis
      using ok names run
      by (auto simp: demo_driver_def answer_ok_def ErrorResponse_json_def demo_names_def valid_utf8_ascii
          dest: create_ok_name)
  qed (use ok names run valid_mnt in \<open>auto simp: demo_driver_def demo_change_def name_ok_def answer_ok_def json_defs
      nilable_json_def zero_defs valid_utf8_ascii demo_names_filter split: if_splits\<close>)
qed

text \<open>Mount the first volume of the list.\<close>

definition mount_first :: "(unit, answer) program" where
  "mount_first = Ask CallList (\<lambda>a.
     case a of
       ListAnswer r \<Rightarrow>
         (case ListResponse_Volumes r of
            Some (v # _) \<Rightarrow> Ask (CallMount \<lparr>MountRequest_Name = VolumeInfo_Name v\<rparr>) Finish
          | _ \<Rightarrow> Finish a)
     | _ \<Rightarrow> Finish a)"

lemma mount_first_ok: "program_ok no_floats mount_first"
  by (auto simp: mount_first_def answer_ok_def ListResponse_json_def nilable_json_def VolumeInfo_json_def name_ok_def
      split: answer.split option.split list.split)

text \<open>The driver of the instances says nothing beside an error.\<close>

lemma demo_errors_alone: "errors_alone no_floats demo_driver demo_names"
  unfolding errors_alone_def
proof (intro allI impI)
  fix c env d a d'
  assume "run_state (exec_call demo_driver env c) d = (a, d')"
  then show "wire_answer a = a"
    by (cases c) (auto simp: demo_driver_def demo_change_def zero_defs split: if_splits)
qed

lemma mount_first_run:
  "run_state (run_program demo_driver envs mount_first) [(''v'', 0)] =
    (MountAnswer \<lparr>MountResponse_Err = '''', MountResponse_Mountpoint = ''/mnt/v''\<rparr>, [(''v'', 1)])"
  by (simp add: mount_first_def demo_driver_def demo_volume_def)

theorem program_transparent_witness:
  "\<exists>s'. run_state (run_program demo_hop (\<lambda>_. demo_env) mount_first) (demo_client_state [(''v'', 0)]) =
      (MountAnswer \<lparr>MountResponse_Err = '''', MountResponse_Mountpoint = ''/mnt/v''\<rparr>, s') \<and>
    srv_driver (cl_net s') = [(''v'', 1)]"
  by (rule program_transparent [where q = mount_first, OF demo_keeps_utf8 _ mount_first_ok _ _ demo_hop_def])
    (simp_all add: demo_client_state_def demo_names_def [abs_def] valid_utf8_ascii mount_first_run
      demo_errors_alone [unfolded demo_names_def])

theorem program_hops_witness:
  "\<exists>s'. run_state (run_program (GetVoldriver no_floats (loopback (server_mux no_floats ''mid'' demo_hop) ''http://m'' (RootCtx 2))
        (client_of ''http://m'' None (CfhttpClient (cfhttp_NewClient [])) RealClock ''http://m'')) (\<lambda>_. demo_env) mount_first)
      (demo_hop_state [(''v'', 0)]) =
      (MountAnswer \<lparr>MountResponse_Err = '''', MountResponse_Mountpoint = ''/mnt/v''\<rparr>, s') \<and>
    srv_driver (cl_net (srv_driver (cl_net s'))) = [(''v'', 1)]"
  by (rule program_hops [where q = mount_first, OF demo_keeps_utf8 _ mount_first_ok _ _ demo_hop_def refl])
    (simp_all add: demo_hop_state_def demo_client_state_def demo_names_def [abs_def] valid_utf8_ascii mount_first_run
      demo_errors_alone [unfolded demo_names_def])

end
