(* ===== verification/Json_Utf8.thy ===== *)
theory Json_Utf8
  imports Json_Roundtrip Wire
begin

text \<open>
  The typing of decoded data: whatever bytes are parsed, every string of the resulting tree is
  UTF-8, because \<open>unquote\<close> repairs what it copies and escapes denote code points. The decoders
  keep this, so every string of a decoded request or response is UTF-8.
\<close>

section \<open>Encoded code points\<close>

lemma byte_char_of: "n < 256 \<Longrightarrow> byte (char_of n) = n"
  by (simp add: of_char_of)

lemma valid_seq:
  assumes "utf8_width (byte x) = Suc (length cs)" and "cs \<noteq> []" and "utf8_second (byte x) (hd cs)"
    and "list_all utf8_cont (tl cs)"
  shows "valid_utf8 (x # cs)"
proof -
  obtain b bs where cs: "cs = b # bs" using assms(2) by (cases cs) auto
  have "utf8_len x cs = Suc (length cs)"
    using assms by (simp add: utf8_len_def Let_def cs)
  then show ?thesis by (simp add: Let_def)
qed

lemma cont_char: "(0x80 :: nat) \<le> b \<Longrightarrow> b \<le> 0xBF \<Longrightarrow> utf8_cont (char_of b)"
  by (simp add: utf8_cont_def byte_char_of)

lemma second_char:
  "(0x80 :: nat) \<le> b \<Longrightarrow> b \<le> 0xBF \<Longrightarrow> a = 0xE0 \<longrightarrow> 0xA0 \<le> b \<Longrightarrow> a = 0xED \<longrightarrow> b \<le> 0x9F \<Longrightarrow>
    a = 0xF0 \<longrightarrow> 0x90 \<le> b \<Longrightarrow> a = 0xF4 \<longrightarrow> b \<le> 0x8F \<Longrightarrow> utf8_second a (char_of b)"
  by (simp add: utf8_second_def utf8_cont_def byte_char_of)

lemma valid_two:
  "(0xC2 :: nat) \<le> a \<Longrightarrow> a \<le> 0xDF \<Longrightarrow> (0x80 :: nat) \<le> b \<Longrightarrow> b \<le> 0xBF \<Longrightarrow> valid_utf8 [char_of a, char_of b]"
  by (rule valid_seq) (auto simp: utf8_width_def byte_char_of intro!: second_char)

lemma valid_three:
  "(0xE0 :: nat) \<le> a \<Longrightarrow> a \<le> 0xEF \<Longrightarrow> (0x80 :: nat) \<le> b \<Longrightarrow> b \<le> 0xBF \<Longrightarrow> (0x80 :: nat) \<le> c \<Longrightarrow> c \<le> 0xBF \<Longrightarrow>
    a = 0xE0 \<longrightarrow> 0xA0 \<le> b \<Longrightarrow> a = 0xED \<longrightarrow> b \<le> 0x9F \<Longrightarrow>
    valid_utf8 [char_of a, char_of b, char_of c]"
  by (rule valid_seq) (auto simp: utf8_width_def byte_char_of intro!: second_char cont_char)

lemma valid_four:
  "(0xF0 :: nat) \<le> a \<Longrightarrow> a \<le> 0xF4 \<Longrightarrow> (0x80 :: nat) \<le> b \<Longrightarrow> b \<le> 0xBF \<Longrightarrow> (0x80 :: nat) \<le> c \<Longrightarrow> c \<le> 0xBF \<Longrightarrow>
    (0x80 :: nat) \<le> d \<Longrightarrow> d \<le> 0xBF \<Longrightarrow> a = 0xF0 \<longrightarrow> 0x90 \<le> b \<Longrightarrow> a = 0xF4 \<longrightarrow> b \<le> 0x8F \<Longrightarrow>
    valid_utf8 [char_of a, char_of b, char_of c, char_of d]"
  by (rule valid_seq) (auto simp: utf8_width_def byte_char_of intro!: second_char cont_char)

lemma valid_replacement: "valid_utf8 replacement_char"
  by (simp add: replacement_char_def utf8_len_def utf8_width_def utf8_second_def utf8_cont_def Let_def)

lemma low_six: "q mod 0x40 \<le> (0x3F :: nat)"
  using mod_less_divisor [of "0x40" q] by linarith

lemma rune_two: "0x80 \<le> r \<Longrightarrow> r < 0x800 \<Longrightarrow> valid_utf8 [char_of (0xC0 + r div 0x40), char_of (0x80 + r mod 0x40 :: nat)]"
  using low_six [of r] by (intro valid_two) linarith+

lemma rune_three:
  assumes "0x800 \<le> r" and "r < 0x10000" and "\<not> (0xD800 \<le> r \<and> r \<le> 0xDFFF)"
  shows "valid_utf8 [char_of (0xE0 + r div 0x1000), char_of (0x80 + r div 0x40 mod 0x40), char_of (0x80 + r mod 0x40 :: nat)]"
proof -
  define q where "q = r div 0x40"
  have q: "r div 0x1000 = q div 0x40" by (simp add: q_def div_mult2_eq [symmetric])
  have d: "q = 0x40 * (q div 0x40) + q mod 0x40" by simp
  have r: "0x40 * q \<le> r" "r < 0x40 * q + 0x40" unfolding q_def by linarith+
  have six: "q mod 0x40 \<le> 0x3F" "r mod 0x40 \<le> 0x3F" by (rule low_six)+
  have top: "q div 0x40 \<le> 0xF" using assms(2) r d by linarith
  have lo: "0x20 \<le> q mod 0x40" if "q div 0x40 = 0" using assms(1) r d that by linarith
  have hi: "q mod 0x40 \<le> 0x1F" if "q div 0x40 = 0xD" using assms(3) r d six that by linarith
  show ?thesis unfolding q q_def [symmetric]
    using six top lo hi by (intro valid_three) auto
qed

lemma rune_four:
  assumes "0x10000 \<le> r" and "r \<le> 0x10FFFF"
  shows "valid_utf8 [char_of (0xF0 + r div 0x40000), char_of (0x80 + r div 0x1000 mod 0x40),
      char_of (0x80 + r div 0x40 mod 0x40), char_of (0x80 + r mod 0x40 :: nat)]"
proof -
  define q where "q = r div 0x1000"
  have q: "r div 0x40000 = q div 0x40" by (simp add: q_def div_mult2_eq [symmetric])
  have d: "q = 0x40 * (q div 0x40) + q mod 0x40" by simp
  have r: "0x1000 * q \<le> r" "r < 0x1000 * q + 0x1000" unfolding q_def by linarith+
  have six: "q mod 0x40 \<le> 0x3F" "r div 0x40 mod 0x40 \<le> 0x3F" "r mod 0x40 \<le> 0x3F" by (rule low_six)+
  have top: "q div 0x40 \<le> 4" using assms(2) r d by linarith
  have lo: "0x10 \<le> q mod 0x40" if "q div 0x40 = 0" using assms(1) r d that by linarith
  have hi: "q mod 0x40 \<le> 0xF" if "q div 0x40 = 4" using assms(2) r d that by linarith
  show ?thesis unfolding q q_def [symmetric]
    using six top lo hi by (intro valid_four) auto
qed

lemma valid_encode_rune: "valid_utf8 (encode_rune r)"
proof -
  consider "r < 0x80" | "0x80 \<le> r" "r < 0x800" | "0x800 \<le> r" "(0xD800 \<le> r \<and> r \<le> 0xDFFF) \<or> 0x10FFFF < r"
    | "0x800 \<le> r" "r < 0x10000" "\<not> (0xD800 \<le> r \<and> r \<le> 0xDFFF)" | "0x10000 \<le> r" "r \<le> 0x10FFFF"
    by linarith
  then show ?thesis
  proof cases
    case 1
    then show ?thesis by (simp add: encode_rune_def byte_char_of)
  next
    case 2
    with rune_two [OF 2] show ?thesis unfolding encode_rune_def by (simp del: valid_utf8.simps)
  next
    case 3
    then show ?thesis using valid_replacement unfolding encode_rune_def by (auto simp del: valid_utf8.simps)
  next
    case 4
    then have "\<not> r < 0x80" "\<not> r < 0x800" "\<not> ((0xD800 \<le> r \<and> r \<le> 0xDFFF) \<or> 0x10FFFF < r)" by auto
    with rune_three [OF 4] 4(2) show ?thesis unfolding encode_rune_def by (simp only: if_False if_True)
  next
    case 5
    then have "\<not> r < 0x80" "\<not> r < 0x800" "\<not> ((0xD800 \<le> r \<and> r \<le> 0xDFFF) \<or> 0x10FFFF < r)" "\<not> r < 0x10000" by auto
    with rune_four [OF 5] show ?thesis unfolding encode_rune_def by (simp only: if_False)
  qed
qed

section \<open>Parsed strings\<close>

lemma valid_ascii_char: "byte x < 0x80 \<Longrightarrow> valid_utf8 [x]"
  by simp

lemma valid_decode_u4: "valid_utf8 (fst (decode_u4 r cs))"
  by (auto simp: decode_u4_def valid_encode_rune valid_replacement split: option.split
      simp del: valid_utf8.simps)

lemma simple_escape_ascii: "simple_escape e = Some x \<Longrightarrow> byte x < 0x80"
  by (auto simp: simple_escape_def split: if_splits)

lemma valid_rune_copy:
  assumes "utf8_len c cs \<noteq> 0"
  shows "valid_utf8 (c # take (utf8_len c cs - 1) cs)"
proof -
  have "utf8_len c (take (utf8_len c cs - 1) cs) = utf8_len c cs"
    using utf8_len_prefix [OF refl assms, of "[]"] by simp
  with assms show ?thesis by (simp add: Let_def)
qed

lemma unquote_valid: "unquote raw = Some s \<Longrightarrow> valid_utf8 s"
proof (induction raw arbitrary: s rule: unquote.induct)
  case (2 c cs)
  show ?case
  proof (cases "c = backslash")
    case esc: True
    with "2.prems" obtain e r where cs: "cs = e # r" by (auto split: list.splits)
    show ?thesis
    proof (cases "e = CHR ''u''")
      case True
      with "2.prems" esc cs obtain n t where t: "hex4 r = Some n" "s = fst (decode_u4 n (drop 4 r)) @ t"
        "unquote (drop (4 + snd (decode_u4 n (drop 4 r))) r) = Some t"
        by (auto simp: Let_def split: option.splits)
      then have "valid_utf8 t" using "2.IH"(1) [OF esc cs True t(1) refl] by simp
      then show ?thesis unfolding t(2) by (rule valid_utf8_append [OF valid_decode_u4])
    next
      case False
      with "2.prems" esc cs obtain x t where t: "simple_escape e = Some x" "s = [x] @ t" "unquote r = Some t"
        by (auto split: option.splits)
      then have "valid_utf8 t" using "2.IH"(2) [OF esc cs False t(1)] by simp
      then show ?thesis unfolding t(2)
        by (rule valid_utf8_append [OF valid_ascii_char [OF simple_escape_ascii [OF t(1)]]])
    qed
  next
    case False
    with "2.prems" have ok: "\<not> (c = dquote \<or> byte c < 0x20)" by (auto split: if_splits)
    let ?n = "utf8_len c cs"
    show ?thesis
    proof (cases "?n = 0")
      case True
      with "2.prems" False ok obtain t where t: "s = replacement_char @ t" "unquote cs = Some t"
        by (auto simp: Let_def)
      then have "valid_utf8 t" using "2.IH"(3) [OF False ok refl True] by simp
      then show ?thesis unfolding t(1) by (rule valid_utf8_append [OF valid_replacement])
    next
      case n: False
      with "2.prems" False ok obtain t where t: "s = (c # take (?n - 1) cs) @ t"
        "unquote (drop (?n - 1) cs) = Some t"
        by (auto simp: Let_def)
      then have "valid_utf8 t" using "2.IH"(4) [OF False ok refl n] by simp
      then show ?thesis unfolding t(1) by (rule valid_utf8_append [OF valid_rune_copy [OF n]])
    qed
  qed
qed simp

text \<open>The scanner keeps every string it holds in UTF-8.\<close>

fun frame_valid :: "frame \<Rightarrow> bool" where
  "frame_valid (FArr vs) = list_all strings_valid vs"
| "frame_valid (FObjKey kvs) = strings_valid (JObj kvs)"
| "frame_valid (FObjVal kvs k) = (strings_valid (JObj kvs) \<and> valid_utf8 k)"

fun mode_valid :: "mode \<Rightarrow> bool" where
  "mode_valid (EndValue v) = strings_valid v"
| "mode_valid (InLiteral _ _ v) = strings_valid v"
| "mode_valid _ = True"

definition scan_valid :: "scan \<Rightarrow> bool" where
  "scan_valid s \<longleftrightarrow> mode_valid (fst s) \<and> list_all frame_valid (snd s)"

lemma end_value_valid:
  "end_value c v st = Inr s \<Longrightarrow> strings_valid v \<Longrightarrow> list_all frame_valid st \<Longrightarrow> scan_valid s"
  by (induction c v st rule: end_value.induct)
    (auto simp: scan_valid_def syntax_error_def split: if_splits json.splits)

lemma begin_value_valid: "begin_value c st = Inr s \<Longrightarrow> list_all frame_valid st \<Longrightarrow> scan_valid s"
  by (auto simp: begin_value_def push_frame_def scan_valid_def syntax_error_def
      split: if_splits option.splits)

lemma begin_string_valid: "begin_string c st = Inr s \<Longrightarrow> list_all frame_valid st \<Longrightarrow> scan_valid s"
  by (auto simp: begin_string_def scan_valid_def syntax_error_def split: if_splits)

lemma end_string_valid: "end_string raw st = Inr s \<Longrightarrow> list_all frame_valid st \<Longrightarrow> scan_valid s"
  by (auto simp: end_string_def scan_valid_def unquote_valid split: option.splits)

lemma scan_valid_simps [simp]:
  "scan_valid (EndValue v, st) \<longleftrightarrow> strings_valid v \<and> list_all frame_valid st"
  "scan_valid (InLiteral n es v, st) \<longleftrightarrow> strings_valid v \<and> list_all frame_valid st"
  "scan_valid (BeginValue, st) \<longleftrightarrow> list_all frame_valid st"
  "scan_valid (BeginValueOrEmpty, st) \<longleftrightarrow> list_all frame_valid st"
  "scan_valid (BeginStringOrEmpty, st) \<longleftrightarrow> list_all frame_valid st"
  "scan_valid (BeginString, st) \<longleftrightarrow> list_all frame_valid st"
  "scan_valid (InString raw, st) \<longleftrightarrow> list_all frame_valid st"
  "scan_valid (InStringEsc raw, st) \<longleftrightarrow> list_all frame_valid st"
  "scan_valid (InStringEscU raw k, st) \<longleftrightarrow> list_all frame_valid st"
  "scan_valid (InNumber m raw, st) \<longleftrightarrow> list_all frame_valid st"
  by (simp_all add: scan_valid_def)

lemmas scan_valid_dests = end_value_valid begin_value_valid begin_string_valid end_string_valid

lemma scan_step_valid: "scan_step c s = Inr s' \<Longrightarrow> scan_valid s \<Longrightarrow> scan_valid s'"
  by (induction c s rule: scan_step.induct)
    (auto simp: syntax_error_def dest: scan_valid_dests
      split: if_splits option.splits list.splits frame.splits bool.splits)

lemma scan_run_valid: "scan_run cs s = Inr s' \<Longrightarrow> scan_valid s \<Longrightarrow> scan_valid s'"
  by (induction cs arbitrary: s) (auto simp: bind_ok_Inr_iff dest: scan_step_valid)

theorem parsed_strings_valid:
  assumes "parse_json s = Inr j"
  shows "strings_valid j"
proof -
  obtain s1 where s1: "scan_run s (BeginValue, []) = Inr s1" "scan_eof s1 = Inr j"
    using assms unfolding parse_json_def by (auto simp: bind_ok_Inr_iff)
  have "scan_valid s1" using scan_run_valid [OF s1(1)] by simp
  then show ?thesis using scan_step_valid [OF scan_eof_value [OF s1(2)]] by simp
qed

section \<open>Typed decoders\<close>

text \<open>A decoder that keeps a property of the value it fills, whatever valid tree it reads.\<close>

definition decodes_type :: "'a decoder \<Rightarrow> ('a \<Rightarrow> bool) \<Rightarrow> bool" where
  "decodes_type dec ok \<longleftrightarrow>
     (\<forall>ctx j old x. strings_valid j \<longrightarrow> ok old \<longrightarrow> dec ctx j old = Inr x \<longrightarrow> ok x)"

lemma decodes_typeI [intro?]:
  "(\<And>ctx j old x. strings_valid j \<Longrightarrow> ok old \<Longrightarrow> dec ctx j old = Inr x \<Longrightarrow> ok x) \<Longrightarrow> decodes_type dec ok"
  unfolding decodes_type_def by blast

lemma decodes_typeD:
  "decodes_type dec ok \<Longrightarrow> strings_valid j \<Longrightarrow> ok old \<Longrightarrow> dec ctx j old = Inr x \<Longrightarrow> ok x"
  unfolding decodes_type_def by blast

locale typed_decoder =
  fixes dec :: "'a decoder" and ok :: "'a \<Rightarrow> bool"
  assumes typed: "decodes_type dec ok"
begin

lemma unmarshalled:
  assumes "Unmarshal dec zero bs = Inr x" and "ok zero"
  shows "ok x"
proof -
  from assms(1) obtain j where j: "parse_json bs = Inr j" "dec top_ctx j zero = Inr x"
    unfolding Unmarshal_def bind_ok_Inr_iff by (elim exE conjE)
  show ?thesis by (rule decodes_typeD [OF typed parsed_strings_valid [OF j(1)] assms(2) j(2)])
qed

end

lemma find_field_set: "find_field flds k = Some f \<Longrightarrow> f \<in> set flds"
  unfolding find_field_def find_Some_iff by (auto simp: in_set_conv_nth)

lemma decodes_struct:
  assumes fields: "\<And>f. f \<in> set flds \<Longrightarrow> decodes_type (snd f) P"
  shows "decodes_type (dec_struct_of pkg sname flds) P"
proof
  fix ctx j x y
  assume j: "strings_valid j" and P: "P x" and dec: "dec_struct_of pkg sname flds ctx j x = Inr y"
  show "P y"
  proof (cases j)
    case (JObj kvs)
    with dec have "foldM_ok (\<lambda>kv x. case find_field flds (fst kv) of
        None \<Rightarrow> Inr x | Some f \<Rightarrow> snd f (sname, snd ctx @ [fst f]) (snd kv) x) kvs x = Inr y"
      by (simp add: dec_struct_def)
    then show ?thesis
    proof (rule foldM_ok_invariant)
      fix kv s s' assume kv: "kv \<in> set kvs" "P s"
        and step: "(case find_field flds (fst kv) of None \<Rightarrow> Inr s
          | Some f \<Rightarrow> snd f (sname, snd ctx @ [fst f]) (snd kv) s) = Inr s'"
      from kv(1) j JObj have v: "strings_valid (snd kv)" by (auto simp: list_all_iff)
      show "P s'"
      proof (cases "find_field flds (fst kv)")
        case (Some f)
        with step have "snd f (sname, snd ctx @ [fst f]) (snd kv) s = Inr s'" by simp
        from decodes_typeD [OF fields [OF find_field_set [OF Some]] v kv(2) this] show ?thesis .
      qed (use step kv(2) in simp)
    qed (rule P)
  qed (use dec P in \<open>simp_all add: dec_struct_def type_error_def\<close>)
qed

lemma decodes_field:
  assumes "decodes_type dec Q" and "\<And>x. P x \<Longrightarrow> Q (sel x)"
    and "\<And>x v. P x \<Longrightarrow> Q v \<Longrightarrow> P (upd (\<lambda>_. v) x)"
  shows "decodes_type (snd (struct_field name sel upd dec)) P"
proof
  fix ctx j x y
  assume "strings_valid j" "P x" "snd (struct_field name sel upd dec) ctx j x = Inr y"
  moreover from this obtain v where "dec ctx j (sel x) = Inr v" "y = upd (\<lambda>_. v) x"
    by (cases "dec ctx j (sel x)") (simp_all add: bind_ok_Inr_iff)
  ultimately show "P y" using assms(2,3) decodes_typeD [OF assms(1)] by blast
qed

text \<open>A slice keeps a property of its elements, a pointer one of what it points to.\<close>

lemma decodes_elems:
  assumes dec: "decodes_type dec ok" and zero: "ok zero"
  shows "dec_elems dec zero ctx js olds = Inr xs \<Longrightarrow> list_all strings_valid js \<Longrightarrow> list_all ok olds \<Longrightarrow>
    list_all ok xs"
proof (induction js arbitrary: olds xs)
  case (Cons j js)
  define old where "old = (case olds of [] \<Rightarrow> zero | old # _ \<Rightarrow> old)"
  have old: "ok old" "list_all ok (drop 1 olds)"
    using Cons.prems(3) zero by (cases olds; simp add: old_def)+
  from Cons.prems(1) obtain y ys where "dec ctx j old = Inr y"
      "dec_elems dec zero ctx js (drop 1 olds) = Inr ys" "xs = y # ys"
    by (auto simp: bind_ok_Inr_iff old_def)
  with Cons.prems(2) decodes_typeD [OF dec _ old(1), of j ctx y] Cons.IH [OF _ _ old(2), of ys]
  show ?case by simp
qed simp

lemma decodes_slice:
  assumes "decodes_type dec ok" and "ok zero"
  shows "decodes_type (dec_slice dec zero typ) (pred_option (list_all ok))"
proof
  fix ctx j and old x :: "'a list nilable"
  assume "strings_valid j" "pred_option (list_all ok) old" "dec_slice dec zero typ ctx j old = Inr x"
  then show "pred_option (list_all ok) x"
    using decodes_elems [OF assms]
    by (cases j; cases old) (fastforce simp: dec_slice_def type_error_def bind_ok_Inr_iff)+
qed

text \<open>The decoders of the protocol's types, each with the property its strings keep.\<close>

lemma decodes_string: "decodes_type dec_string valid_utf8"
proof
  fix ctx j old x assume "strings_valid j" "valid_utf8 old" "dec_string ctx j old = Inr x"
  then show "valid_utf8 x" by (cases j) (simp_all add: type_error_def)
qed

lemma decodes_any: "decodes_type dec (\<lambda>_. True)"
  by rule simp

lemmas decodes_fields = decodes_field [OF decodes_string] decodes_field [OF decodes_any [of dec_int]]
  decodes_field [OF decodes_any [of "dec_opts fl" for fl]]

lemma decodes_MountRequest:
  "decodes_type dec_MountRequest (\<lambda>x. valid_utf8 (MountRequest_Name x))"
  unfolding dec_MountRequest_def by (rule decodes_struct) (auto intro!: decodes_fields)

lemma decodes_PathRequest:
  "decodes_type dec_PathRequest (\<lambda>x. valid_utf8 (PathRequest_Name x))"
  unfolding dec_PathRequest_def by (rule decodes_struct) (auto intro!: decodes_fields)

lemma decodes_UnmountRequest:
  "decodes_type dec_UnmountRequest (\<lambda>x. valid_utf8 (UnmountRequest_Name x))"
  unfolding dec_UnmountRequest_def by (rule decodes_struct) (auto intro!: decodes_fields)

lemma decodes_RemoveRequest:
  "decodes_type dec_RemoveRequest (\<lambda>x. valid_utf8 (RemoveRequest_Name x))"
  unfolding dec_RemoveRequest_def by (rule decodes_struct) (auto intro!: decodes_fields)

lemma decodes_GetRequest:
  "decodes_type dec_GetRequest (\<lambda>x. valid_utf8 (GetRequest_Name x))"
  unfolding dec_GetRequest_def by (rule decodes_struct) (auto intro!: decodes_fields)

lemma decodes_ErrorResponse:
  "decodes_type dec_ErrorResponse (\<lambda>x. valid_utf8 (ErrorResponse_Err x))"
  unfolding dec_ErrorResponse_def by (rule decodes_struct) (auto intro!: decodes_fields)

lemma decodes_MountResponse:
  "decodes_type dec_MountResponse (\<lambda>x. valid_utf8 (MountResponse_Err x) \<and> valid_utf8 (MountResponse_Mountpoint x))"
  unfolding dec_MountResponse_def by (rule decodes_struct) (auto intro!: decodes_fields)

lemma decodes_PathResponse:
  "decodes_type dec_PathResponse (\<lambda>x. valid_utf8 (PathResponse_Err x) \<and> valid_utf8 (PathResponse_Mountpoint x))"
  unfolding dec_PathResponse_def by (rule decodes_struct) (auto intro!: decodes_fields)

lemma decodes_CreateRequest:
  "decodes_type (dec_CreateRequest fl) (\<lambda>x. valid_utf8 (CreateRequest_Name x))"
  unfolding dec_CreateRequest_def by (rule decodes_struct) (auto intro!: decodes_fields)

text \<open>A volume described in UTF-8.\<close>

definition volume_ok :: "VolumeInfo \<Rightarrow> bool" where
  "volume_ok v \<longleftrightarrow> valid_utf8 (VolumeInfo_Name v) \<and> valid_utf8 (VolumeInfo_Mountpoint v)"

lemma decodes_VolumeInfo: "decodes_type dec_VolumeInfo volume_ok"
  unfolding dec_VolumeInfo_def by (rule decodes_struct) (auto intro!: decodes_fields simp: volume_ok_def)

lemma volume_ok_zero: "volume_ok zero_VolumeInfo"
  by (simp add: volume_ok_def zero_VolumeInfo_def)

lemma decodes_GetResponse:
  "decodes_type dec_GetResponse (\<lambda>x. volume_ok (GetResponse_Volume x) \<and> valid_utf8 (GetResponse_Err x))"
  unfolding dec_GetResponse_def
  by (rule decodes_struct)
    (auto intro!: decodes_fields decodes_field [where Q = volume_ok, OF decodes_VolumeInfo])

lemma decodes_ListResponse:
  "decodes_type dec_ListResponse
    (\<lambda>x. pred_option (list_all volume_ok) (ListResponse_Volumes x) \<and> valid_utf8 (ListResponse_Err x))"
  unfolding dec_ListResponse_def
  by (rule decodes_struct)
    (auto intro!: decodes_fields
      decodes_field [where Q = "pred_option (list_all volume_ok)",
        OF decodes_slice [OF decodes_VolumeInfo volume_ok_zero]])

interpretation typed_CreateRequest: typed_decoder "dec_CreateRequest fl" "\<lambda>x. valid_utf8 (CreateRequest_Name x)"
  by unfold_locales (rule decodes_CreateRequest)

interpretation typed_MountRequest: typed_decoder dec_MountRequest "\<lambda>x. valid_utf8 (MountRequest_Name x)"
  by unfold_locales (rule decodes_MountRequest)

interpretation typed_PathRequest: typed_decoder dec_PathRequest "\<lambda>x. valid_utf8 (PathRequest_Name x)"
  by unfold_locales (rule decodes_PathRequest)

interpretation typed_UnmountRequest: typed_decoder dec_UnmountRequest "\<lambda>x. valid_utf8 (UnmountRequest_Name x)"
  by unfold_locales (rule decodes_UnmountRequest)

interpretation typed_RemoveRequest: typed_decoder dec_RemoveRequest "\<lambda>x. valid_utf8 (RemoveRequest_Name x)"
  by unfold_locales (rule decodes_RemoveRequest)

interpretation typed_GetRequest: typed_decoder dec_GetRequest "\<lambda>x. valid_utf8 (GetRequest_Name x)"
  by unfold_locales (rule decodes_GetRequest)

interpretation typed_GetResponse: typed_decoder dec_GetResponse
  "\<lambda>x. volume_ok (GetResponse_Volume x) \<and> valid_utf8 (GetResponse_Err x)"
  by unfold_locales (rule decodes_GetResponse)

interpretation typed_ListResponse: typed_decoder dec_ListResponse
  "\<lambda>x. pred_option (list_all volume_ok) (ListResponse_Volumes x) \<and> valid_utf8 (ListResponse_Err x)"
  by unfold_locales (rule decodes_ListResponse)

end
