(* ===== verification/Typed_Protocol.thy ===== *)
theory Typed_Protocol
  imports End_To_End Json_Utf8
begin

text \<open>
  What the two ends guarantee of the strings that cross the wire. The server calls a driver
  only with names in UTF-8, at most once per request: \<open>driver_step\<close> is one operation of a driver
  on such a request, with the JSON form of its answer, and \<open>handler_steps\<close> the contract of a
  handler that makes at most one such step. An invariant of the driver that its operations keep
  therefore holds however many requests of whatever content the server has handled. The client
  returns only volumes and mount points in UTF-8, whatever the server sends: \<open>typed_method\<close>.
\<close>

section \<open>The server\<close>

inductive driver_step :: "('f, 's) Driver \<Rightarrow> Env \<Rightarrow> 's \<Rightarrow> json \<Rightarrow> 's \<Rightarrow> bool"
  for drv :: "('f, 's) Driver" and env :: Env where
  step_Activate: "run_state (Driver_Activate drv env) d = (r, d') \<Longrightarrow>
    driver_step drv env d (ActivateResponse_json r) d'"
| step_List: "run_state (Driver_List drv env) d = (r, d') \<Longrightarrow>
    driver_step drv env d (ListResponse_json r) d'"
| step_Capabilities: "run_state (Driver_Capabilities drv env) d = (r, d') \<Longrightarrow>
    driver_step drv env d (CapabilitiesResponse_json r) d'"
| step_Create: "valid_utf8 (CreateRequest_Name q) \<Longrightarrow> run_state (Driver_Create drv env q) d = (r, d') \<Longrightarrow>
    driver_step drv env d (ErrorResponse_json r) d'"
| step_Mount: "valid_utf8 (MountRequest_Name q) \<Longrightarrow> run_state (Driver_Mount drv env q) d = (r, d') \<Longrightarrow>
    driver_step drv env d (MountResponse_json r) d'"
| step_Path: "valid_utf8 (PathRequest_Name q) \<Longrightarrow> run_state (Driver_Path drv env q) d = (r, d') \<Longrightarrow>
    driver_step drv env d (PathResponse_json r) d'"
| step_Unmount: "valid_utf8 (UnmountRequest_Name q) \<Longrightarrow> run_state (Driver_Unmount drv env q) d = (r, d') \<Longrightarrow>
    driver_step drv env d (ErrorResponse_json r) d'"
| step_Remove: "valid_utf8 (RemoveRequest_Name q) \<Longrightarrow> run_state (Driver_Remove drv env q) d = (r, d') \<Longrightarrow>
    driver_step drv env d (ErrorResponse_json r) d'"
| step_Get: "valid_utf8 (GetRequest_Name q) \<Longrightarrow> run_state (Driver_Get drv env q) d = (r, d') \<Longrightarrow>
    driver_step drv env d (GetResponse_json r) d'"

definition one_step_handler :: "('f, 's) Driver \<Rightarrow> (server_request \<Rightarrow> ('s server_state, unit) state) \<Rightarrow> bool" where
  "one_step_handler drv h \<longleftrightarrow>
     (\<forall>req s. let s' = snd (run_state (h req) s) in
        srv_driver s' = srv_driver s \<or>
        (\<exists>env j. Env_Context env = CancelCtx (req_Context req) \<and>
          driver_step drv env (srv_driver s) j (srv_driver s') \<and> srv_rw s' = json_response j (srv_rw s)))"

locale handler_steps = json_handler +
  fixes drv :: "('f, 's) Driver"
  assumes step: "accept b = Inr q \<Longrightarrow> run_state (op env q) d = (r, d') \<Longrightarrow> driver_step drv env d (enc r) d'"
begin

lemma at_most_one_step:
  "srv_driver (snd (run_state (h req) s)) = srv_driver s \<or>
    (\<exists>j. driver_step drv (monitor_env lg (req_Context req)) (srv_driver s) j (srv_driver (snd (run_state (h req) s))) \<and>
      srv_rw (snd (run_state (h req) s)) = json_response j (srv_rw s))"
proof (cases "accept (req_Body req)")
  case (Inl e)
  obtain action err j where "e = (action, err, j)" by (cases e)
  with rejects(1) [of req action err j s] Inl show ?thesis by simp
next
  case (Inr q)
  obtain r d where run: "run_state (op (monitor_env lg (req_Context req)) q) (srv_driver s) = (r, d)"
    by fastforce
  from accepts(1,2) [OF Inr run] step [OF Inr run] show ?thesis by auto
qed

lemma one_step: "one_step_handler drv h"
  unfolding one_step_handler_def Let_def
proof (intro allI)
  fix req :: server_request and s
  have "Env_Context (monitor_env lg (req_Context req)) = CancelCtx (req_Context req)"
    by (simp add: monitor_env_def)
  with at_most_one_step [of req s] show "srv_driver (snd (run_state (h req) s)) = srv_driver s \<or>
      (\<exists>env j. Env_Context env = CancelCtx (req_Context req) \<and>
        driver_step drv env (srv_driver s) j (srv_driver (snd (run_state (h req) s))) \<and>
        srv_rw (snd (run_state (h req) s)) = json_response j (srv_rw s))"
    by blast
qed

end

lemma accept_json_typed:
  assumes "decodes_type dec ok" and "ok zero" and "accept_json dec zero a f b g body = Inr q"
  shows "ok q"
  using assms(3) typed_decoder.unmarshalled [OF typed_decoder.intro [OF assms(1)] _ assms(2)]
  by (auto simp: accept_json_def split: option.splits sum.splits)

lemma accepted_names:
  "accept_create fl b = Inr qCreate \<Longrightarrow> valid_utf8 (CreateRequest_Name qCreate)"
  "accept_mount b = Inr qMount \<Longrightarrow> valid_utf8 (MountRequest_Name qMount)"
  "accept_path b = Inr qPath \<Longrightarrow> valid_utf8 (PathRequest_Name qPath)"
  "accept_unmount b = Inr qUnmount \<Longrightarrow> valid_utf8 (UnmountRequest_Name qUnmount)"
  "accept_remove b = Inr qRemove \<Longrightarrow> valid_utf8 (RemoveRequest_Name qRemove)"
  "accept_get b = Inr qGet \<Longrightarrow> valid_utf8 (GetRequest_Name qGet)"
  unfolding accept_create_def accept_mount_def accept_path_def accept_unmount_def accept_remove_def accept_get_def
  by (auto dest!: accept_json_typed [OF decodes_CreateRequest, rotated] accept_json_typed [OF decodes_MountRequest, rotated] accept_json_typed [OF decodes_PathRequest, rotated] accept_json_typed [OF decodes_UnmountRequest, rotated] accept_json_typed [OF decodes_RemoveRequest, rotated] accept_json_typed [OF decodes_GetRequest, rotated] simp: zero_defs)

interpretation steps_activate: handler_steps "newActivateHandler lg client" DEBUG "Session lg ''handle-activate''"
  accept_any "\<lambda>env _. Driver_Activate client env" ActivateResponse_json
  "\<lambda>r. if ActivateResponse_Err r \<noteq> ''''
       then error_note (Session lg ''handle-activate'') ''failed-activating-driver'' (ActivateResponse_Err r)
       else [LogEntry DEBUG (Session lg ''handle-activate'' @ ''.activate-response'') None]" client
  by unfold_locales (erule step_Activate)

interpretation steps_list: handler_steps "newListHandler lg client" INFO "Session lg ''handle-list''"
  accept_any "\<lambda>env _. Driver_List client env" ListResponse_json
  "\<lambda>r. error_note (Session lg ''handle-list'') ''failed-listing-volumes'' (ListResponse_Err r)" client
  by unfold_locales (erule step_List)

interpretation steps_capabilities: handler_steps "newCapabilitiesHandler lg client" INFO "Session lg ''handle-capabilities''"
  accept_any "\<lambda>env _. Driver_Capabilities client env" CapabilitiesResponse_json
  "\<lambda>r. [LogEntry DEBUG (Session lg ''handle-capabilities'' @ ''.capabilities-response'') None]" client
  by unfold_locales (erule step_Capabilities)

interpretation steps_create: handler_steps "newCreateHandler fl lg client" INFO "Session lg ''handle-create''"
  "accept_create fl" "Driver_Create client" ErrorResponse_json
  "\<lambda>r. error_note (Session lg ''handle-create'') ''failed-creating-volume'' (ErrorResponse_Err r)" client
  by unfold_locales (rule step_Create [OF accepted_names(1)])

interpretation steps_mount: handler_steps "newMountHandler lg client" INFO "Session lg ''handle-mount''"
  accept_mount "Driver_Mount client" MountResponse_json
  "\<lambda>r. error_note (Session lg ''handle-mount'') ''failed-mounting-volume'' (MountResponse_Err r)" client
  by unfold_locales (rule step_Mount [OF accepted_names(2)])

interpretation steps_path: handler_steps "newPathHandler lg client" INFO "Session lg ''handle-path''"
  accept_path "Driver_Path client" PathResponse_json
  "\<lambda>r. error_note (Session lg ''handle-path'') ''failed-activating-driver'' (PathResponse_Err r)" client
  by unfold_locales (rule step_Path [OF accepted_names(3)])

interpretation steps_unmount: handler_steps "newUnmountHandler lg client" INFO "Session lg ''handle-unmount''"
  accept_unmount "Driver_Unmount client" ErrorResponse_json
  "\<lambda>r. error_note (Session lg ''handle-unmount'') ''failed-unmount-volume'' (ErrorResponse_Err r)" client
  by unfold_locales (rule step_Unmount [OF accepted_names(4)])

interpretation steps_remove: handler_steps "newRemoveHandler lg client" INFO "Session lg ''handle-remove''"
  accept_remove "Driver_Remove client" ErrorResponse_json
  "\<lambda>r. error_note (Session lg ''handle-remove'') ''failed-remove-volume'' (ErrorResponse_Err r)" client
  by unfold_locales (rule step_Remove [OF accepted_names(5)])

interpretation steps_get: handler_steps "newGetHandler lg client" INFO "Session lg ''handle-get''"
  accept_get "Driver_Get client" GetResponse_json
  "\<lambda>r. if GetResponse_Err r \<noteq> '''' then [LogEntry ERROR (Session lg ''handle-get'' @ ''.failed-getting-volume'') None] else []" client
  by unfold_locales (rule step_Get [OF accepted_names(6)])

lemma table_one_step: "list_all (\<lambda>(name, h). one_step_handler client h) (server_handlers fl lg client)"
  by (simp add: server_handlers_def steps_activate.one_step steps_get.one_step steps_list.one_step
      steps_path.one_step steps_create.one_step steps_mount.one_step steps_unmount.one_step
      steps_remove.one_step steps_capabilities.one_step)

text \<open>The whole server is such a handler: a request that reaches none does nothing to the driver.\<close>

lemma server_one_step: "one_step_handler client (ServeHTTP (server_mux fl lg0 client))"
  unfolding one_step_handler_def Let_def
proof (intro allI)
  fix req s
  let ?s' = "snd (run_state (ServeHTTP (server_mux fl lg0 client) req) s)"
  show "srv_driver ?s' = srv_driver s \<or>
      (\<exists>env j. Env_Context env = CancelCtx (req_Context req) \<and>
        driver_step client env (srv_driver s) j (srv_driver ?s') \<and> srv_rw ?s' = json_response j (srv_rw s))"
  proof (cases "req_Path req \<in> Route_Path ` set Routes")
    case False
    then show ?thesis by (simp add: ServeHTTP_unknown run_http_Error)
  next
    case True
    then obtain rt where rt: "rt \<in> set Routes" "req_Path req = Route_Path rt" by blast
    show ?thesis
    proof (cases "req_Method req = ''POST''")
      case False
      then show ?thesis
        using find_Routes_path [OF rt(1)] rt(2)
        by (simp add: ServeHTTP_def server_mux_def mux_choose_Routes run_http_Error)
    next
      case True
      let ?hs = "server_handlers fl (Session lg0 ''server'') client"
      obtain h where h: "map_of ?hs (Route_Name rt) = Some h"
        using server_handlers_complete [OF rt(1)] by fastforce
      have "one_step_handler client h"
        using table_one_step [where fl = fl and lg = "Session lg0 ''server''" and client = client] map_of_SomeD [OF h]
        by (auto simp: list_all_iff)
      then show ?thesis
        using ServeHTTP_route [OF rt(1) True rt(2), of fl lg0 client] h
        by (simp add: one_step_handler_def Let_def)
    qed
  qed
qed

text \<open>A server at work: each request comes with a fresh response writer.\<close>

fun serve_requests ::
  "(server_request \<Rightarrow> ('s server_state, unit) state) mux \<Rightarrow> (bool \<times> server_request) list \<Rightarrow>
    's server_state \<Rightarrow> 's server_state" where
  "serve_requests m [] s = s"
| "serve_requests m ((closeNotifier, req) # reqs) s =
     serve_requests m reqs (snd (run_state (ServeHTTP m req) (s\<lparr>srv_rw := fresh_writer closeNotifier\<rparr>)))"

section \<open>The client\<close>

locale typed_method = remote_method m lib client task route payload dec zero fail finish
  for m :: "Env \<Rightarrow> 'q \<Rightarrow> ('n client_state, 'r) state"
    and lib :: "'n http_lib" and client :: remoteClient and task :: string and route :: string
    and payload :: "'q \<Rightarrow> go_error + string nilable" and dec :: "'a decoder" and zero :: 'a
    and fail :: "go_error \<Rightarrow> 'r" and finish :: "'a \<Rightarrow> 'r" +
  fixes sent :: "'a \<Rightarrow> bool" and ok :: "'r \<Rightarrow> bool"
  assumes decodes: "decodes_type dec sent" and zero_sent: "sent zero"
    and fail_ok: "ok (fail e)" and finish_ok: "sent a \<Longrightarrow> ok (finish a)"
begin

sublocale reply: typed_decoder dec sent
  by unfold_locales (rule decodes)

lemma returns: "ok (fst (run_state (m env q) s))"
proof (cases "payload q")
  case (Inl e)
  then show ?thesis using unencodable(1) [OF Inl, of env s] fail_ok by simp
next
  case (Inr p)
  then show ?thesis
    using reply.unmarshalled [OF _ zero_sent] fail_ok finish_ok
    by (auto simp: result remote_call_def bind_ok_case split: prod.split sum.split)
qed

end

interpretation typed_Mount: typed_method "rc_Mount lib r" lib r "''remoteclient-mount''" MountRoute
  "json_payload MountRequest_json" dec_MountResponse zero_MountResponse
  "\<lambda>e. zero_MountResponse\<lparr>MountResponse_Err := Error e\<rparr>" "\<lambda>a. a"
  "\<lambda>x. valid_utf8 (MountResponse_Err x) \<and> valid_utf8 (MountResponse_Mountpoint x)"
  "\<lambda>x. valid_utf8 (MountResponse_Mountpoint x)"
  by unfold_locales (rule decodes_MountResponse, simp_all add: zero_defs)

interpretation typed_Path: typed_method "rc_Path lib r" lib r "''path''" PathRoute
  "json_payload PathRequest_json" dec_PathResponse zero_PathResponse
  "\<lambda>e. zero_PathResponse\<lparr>PathResponse_Err := Error e\<rparr>" "\<lambda>a. a"
  "\<lambda>x. valid_utf8 (PathResponse_Err x) \<and> valid_utf8 (PathResponse_Mountpoint x)"
  "\<lambda>x. valid_utf8 (PathResponse_Mountpoint x)"
  by unfold_locales (rule decodes_PathResponse, simp_all add: zero_defs)

interpretation typed_Get: typed_method "rc_Get lib r" lib r "''get''" GetRoute
  "json_payload GetRequest_json" dec_GetResponse zero_GetResponse
  "\<lambda>e. zero_GetResponse\<lparr>GetResponse_Err := Error e\<rparr>" "\<lambda>a. a"
  "\<lambda>x. volume_ok (GetResponse_Volume x) \<and> valid_utf8 (GetResponse_Err x)"
  "\<lambda>x. volume_ok (GetResponse_Volume x)"
  by unfold_locales (rule decodes_GetResponse, simp_all add: zero_GetResponse_def volume_ok_zero)

interpretation typed_List: typed_method "\<lambda>env _. rc_List lib r env" lib r "''remoteclient-list''" ListRoute
  no_payload dec_ListResponse zero_ListResponse
  "\<lambda>e. zero_ListResponse\<lparr>ListResponse_Err := Error e\<rparr>" "\<lambda>a. a"
  "\<lambda>x. pred_option (list_all volume_ok) (ListResponse_Volumes x) \<and> valid_utf8 (ListResponse_Err x)"
  "\<lambda>x. pred_option (list_all volume_ok) (ListResponse_Volumes x)"
  by unfold_locales (rule decodes_ListResponse, simp_all add: zero_defs)

section \<open>Properties\<close>

text \<open>Property C11. Whatever the request, the server's driver is left alone or makes one step: one
  operation, on a request with a name in UTF-8 if it has one, in a child of the request's
  context, whose answer is what is written.\<close>

theorem server_typed:
  "let s' = snd (run_state (ServeHTTP (server_mux fl lg0 client) req) s) in
    srv_driver s' = srv_driver s \<or>
    (\<exists>env j. Env_Context env = CancelCtx (req_Context req) \<and>
      driver_step client env (srv_driver s) j (srv_driver s') \<and> srv_rw s' = json_response j (srv_rw s))"
  using server_one_step [of client fl lg0] unfolding one_step_handler_def by blast

text \<open>What every operation of a driver keeps on requests with names in UTF-8 holds
  after any sequence of requests to the server, malformed and stray ones included.\<close>

theorem server_keeps_invariant:
  assumes kept: "\<And>env d j d'. driver_step client env d j d' \<Longrightarrow> I d \<Longrightarrow> I d'"
    and "I (srv_driver s)"
  shows "I (srv_driver (serve_requests (server_mux fl lg0 client) reqs s))"
  using assms(2)
proof (induction reqs arbitrary: s)
  case (Cons r reqs)
  obtain b req where r: "r = (b, req)" by (cases r)
  let ?s' = "snd (run_state (ServeHTTP (server_mux fl lg0 client) req) (s\<lparr>srv_rw := fresh_writer b\<rparr>))"
  have "srv_driver ?s' = srv_driver s \<or> (\<exists>env j. driver_step client env (srv_driver s) j (srv_driver ?s'))"
    using server_one_step [of client fl lg0]
    unfolding one_step_handler_def Let_def by (metis server_state.select_convs(1) server_state.surjective server_state.update_convs(2))
  with kept Cons.prems have "I (srv_driver ?s')" by metis
  from Cons.IH [OF this] show ?case by (simp add: r)
qed simp

text \<open>Property C12. The client returns mount points and volumes in UTF-8 only, whatever the
  network answers; its error texts may come from below and are not constrained.\<close>

theorem client_typed:
  "valid_utf8 (MountResponse_Mountpoint (fst (run_state (rc_Mount lib r env mq) s))) \<and>
   valid_utf8 (PathResponse_Mountpoint (fst (run_state (rc_Path lib r env pq) s))) \<and>
   volume_ok (GetResponse_Volume (fst (run_state (rc_Get lib r env gq) s))) \<and>
   pred_option (list_all volume_ok) (ListResponse_Volumes (fst (run_state (rc_List lib r env) s)))"
  using typed_Mount.returns typed_Path.returns typed_Get.returns typed_List.returns by blast

text \<open>The demonstration driver keeps its volumes' names in UTF-8.\<close>

lemma demo_names_kept:
  assumes "driver_step demo_driver env d j d'" and "list_all (\<lambda>e. valid_utf8 (fst e)) d"
  shows "list_all (\<lambda>e. valid_utf8 (fst e)) d'"
  using assms
  by cases (auto simp: demo_driver_def demo_change_def list_all_iff split: if_splits)

theorem server_keeps_invariant_witness:
  "list_all (\<lambda>e. valid_utf8 (fst e))
    (srv_driver (serve_requests (server_mux no_floats ''srv'' demo_driver)
      [(True, demo_request ''{'' None), (False, (demo_request (print_json (JObj [(''Name'', JStr [CHR 0xFF])])) None)\<lparr>req_Path := ''/VolumeDriver.Create''\<rparr>)]
      (demo_server_state [(''v'', 1)])))"
  by (rule server_keeps_invariant [where I = "list_all (\<lambda>e. valid_utf8 (fst e))", OF demo_names_kept])
    (simp_all add: valid_utf8_ascii)

end
