(* ===== verification/Server_Threads.thy ===== *)
theory Server_Threads
  imports Env "HOL-Library.Multiset"
begin

text \<open>
  Requests served at the same time. \<open>net/http\<close> runs a goroutine per request; the requests share
  the driver, the log and the list of goroutines started, and each has its own response writer.
  A \<open>thread\<close> is what a goroutine has left to do, one effect at a time; \<open>world_step\<close> lets any of
  them do its next one. The theorem is that threads with at most one driver call each
  (\<open>one_call\<close>) are serialisable in the order of their driver calls. That a driver call is one step
  is what the server expects of its driver, which it calls without a lock of its own.
\<close>

section \<open>Threads\<close>

datatype 's thread =
    Returned
  | Log log_entry "'s thread"
  | StartMonitor "ctx \<times> ctx" "'s thread"
  | Write "response_writer \<Rightarrow> response_writer" "'s thread"
  | Invoke "'s \<Rightarrow> 's" "'s \<Rightarrow> 's thread"

text \<open>\<open>Invoke f k\<close> calls the driver: in state \<open>d\<close> it moves to \<open>f d\<close> and its answer makes the
  thread go on as \<open>k d\<close>.\<close>

definition call_driver :: "('s, 'r) state \<Rightarrow> ('r \<Rightarrow> 's thread) \<Rightarrow> 's thread" where
  "call_driver m k = Invoke (\<lambda>d. snd (run_state m d)) (\<lambda>d. k (fst (run_state m d)))"

primrec log_all :: "log_entry list \<Rightarrow> 's thread \<Rightarrow> 's thread" where
  "log_all [] t = t"
| "log_all (e # es) t = Log e (log_all es t)"

text \<open>The next effect of a thread on the state it sees. The monitor is started only when the
  writer can notice a closed connection.\<close>

fun next_effect :: "'s thread \<Rightarrow> 's server_state \<Rightarrow> ('s thread \<times> 's server_state) option" where
  "next_effect Returned s = None"
| "next_effect (Log e t) s = Some (t, s\<lparr>log := log s @ [e]\<rparr>)"
| "next_effect (StartMonitor p t) s =
     Some (t, s\<lparr>srv_monitors := srv_monitors s @ (if rw_close_notifier (srv_rw s) then [p] else [])\<rparr>)"
| "next_effect (Write f t) s = Some (t, s\<lparr>srv_rw := f (srv_rw s)\<rparr>)"
| "next_effect (Invoke f k) s = Some (k (srv_driver s), s\<lparr>srv_driver := f (srv_driver s)\<rparr>)"

text \<open>A thread run to its end with nobody else about.\<close>

primrec solo :: "'s thread \<Rightarrow> 's server_state \<Rightarrow> 's server_state" where
  "solo Returned s = s"
| "solo (Log e t) s = solo t (s\<lparr>log := log s @ [e]\<rparr>)"
| "solo (StartMonitor p t) s =
     solo t (s\<lparr>srv_monitors := srv_monitors s @ (if rw_close_notifier (srv_rw s) then [p] else [])\<rparr>)"
| "solo (Write f t) s = solo t (s\<lparr>srv_rw := f (srv_rw s)\<rparr>)"
| "solo (Invoke f k) s = solo (k (srv_driver s)) (s\<lparr>srv_driver := f (srv_driver s)\<rparr>)"

lemma solo_effect: "next_effect t s = Some (t', s') \<Longrightarrow> solo t s = solo t' s'"
  by (cases t) auto

lemma solo_log_all [simp]: "solo (log_all es t) s = solo t (s\<lparr>log := log s @ es\<rparr>)"
  by (induction es arbitrary: s) simp_all

lemma solo_call_driver [simp]:
  "solo (call_driver m k) s =
    (case run_state m (srv_driver s) of (r, d) \<Rightarrow> solo (k r) (s\<lparr>srv_driver := d\<rparr>))"
  by (simp add: call_driver_def case_prod_beta)

lemma effect_returned: "next_effect t s = None \<longleftrightarrow> t = Returned"
  by (cases t) simp_all

text \<open>Threads that leave the driver alone, and threads that call it at most once.\<close>

primrec quiet :: "'s thread \<Rightarrow> bool" where
  "quiet Returned \<longleftrightarrow> True"
| "quiet (Log e t) \<longleftrightarrow> quiet t"
| "quiet (StartMonitor p t) \<longleftrightarrow> quiet t"
| "quiet (Write f t) \<longleftrightarrow> quiet t"
| "quiet (Invoke f k) \<longleftrightarrow> False"

primrec one_call :: "'s thread \<Rightarrow> bool" where
  "one_call Returned \<longleftrightarrow> True"
| "one_call (Log e t) \<longleftrightarrow> one_call t"
| "one_call (StartMonitor p t) \<longleftrightarrow> one_call t"
| "one_call (Write f t) \<longleftrightarrow> one_call t"
| "one_call (Invoke f k) \<longleftrightarrow> (\<forall>d. quiet (k d))"

lemma quiet_one_call: "quiet t \<Longrightarrow> one_call t"
  by (induction t) simp_all

lemma quiet_log_all [simp]: "quiet (log_all es t) = quiet t" "one_call (log_all es t) = one_call t"
  by (induction es) simp_all

lemma one_call_driver [simp]: "(\<And>r. quiet (k r)) \<Longrightarrow> one_call (call_driver m k)"
  by (simp add: call_driver_def)

lemma driver_update_commute:
  "s\<lparr>srv_driver := d, log := l\<rparr> = s\<lparr>log := l, srv_driver := d\<rparr>"
  "s\<lparr>srv_driver := d, srv_monitors := ms\<rparr> = s\<lparr>srv_monitors := ms, srv_driver := d\<rparr>"
  "s\<lparr>srv_driver := d, srv_rw := w\<rparr> = s\<lparr>srv_rw := w, srv_driver := d\<rparr>"
  by (cases s; simp)+

lemma solo_quiet: "quiet t \<Longrightarrow> solo t (s\<lparr>srv_driver := d\<rparr>) = (solo t s)\<lparr>srv_driver := d\<rparr>"
  by (induction t arbitrary: s) (simp_all add: driver_update_commute)

lemma quiet_effect:
  assumes "quiet t" and "next_effect t s = Some (t', s')"
  shows "quiet t'" and "srv_driver s' = srv_driver s"
  using assms by (cases t; auto)+

lemma one_call_effect:
  assumes "one_call t" and "next_effect t s = Some (t', s')"
  shows "one_call t'" and "quiet t' \<or> srv_driver s' = srv_driver s"
  using assms by (cases t; auto simp: quiet_one_call)+

section \<open>The world\<close>

text \<open>Each entry of the log and of the list of goroutines carries the request it came from.\<close>

record 's world =
  w_driver :: 's
  w_log :: "(nat \<times> log_entry) list"
  w_monitors :: "(nat \<times> ctx \<times> ctx) list"
  w_threads :: "('s thread \<times> response_writer) list"

definition own :: "nat \<Rightarrow> (nat \<times> 'b) list \<Rightarrow> 'b list" where
  "own i es = map snd (filter (\<lambda>e. fst e = i) es)"

lemma own_simps [simp]:
  "own i [] = []" "own i (xs @ ys) = own i xs @ own i ys"
  "own i (map (Pair j) zs) = (if i = j then zs else [])"
  by (induction zs) (auto simp: own_def)

text \<open>What request \<open>i\<close> has done and sees.\<close>

definition view :: "'s world \<Rightarrow> nat \<Rightarrow> 's server_state" where
  "view c i = \<lparr>log = own i (w_log c), srv_driver = w_driver c, srv_rw = snd (w_threads c ! i),
     srv_monitors = own i (w_monitors c)\<rparr>"

definition remaining :: "'s world \<Rightarrow> nat \<Rightarrow> 's thread" where
  "remaining c i = fst (w_threads c ! i)"

definition world_of :: "'s \<Rightarrow> ('s thread \<times> response_writer) list \<Rightarrow> 's world" where
  "world_of d ts = \<lparr>w_driver = d, w_log = [], w_monitors = [], w_threads = ts\<rparr>"

definition local_state :: "'s \<Rightarrow> response_writer \<Rightarrow> 's server_state" where
  "local_state d w = \<lparr>log = [], srv_driver = d, srv_rw = w, srv_monitors = []\<rparr>"

inductive world_step :: "'s world \<Rightarrow> nat \<Rightarrow> 's world \<Rightarrow> bool" where
  effect: "i < length (w_threads c) \<Longrightarrow>
    next_effect (remaining c i) (local_state (w_driver c) (snd (w_threads c ! i))) = Some (t, s) \<Longrightarrow>
    world_step c i (c\<lparr>w_driver := srv_driver s, w_log := w_log c @ map (Pair i) (log s),
      w_monitors := w_monitors c @ map (Pair i) (srv_monitors s),
      w_threads := (w_threads c)[i := (t, srv_rw s)]\<rparr>)"

inductive_cases world_stepE: "world_step c i c'"

inductive world_run :: "'s world \<Rightarrow> nat list \<Rightarrow> 's world \<Rightarrow> bool" where
  nil: "world_run c [] c"
| snoc: "world_run c is c' \<Longrightarrow> world_step c' i c'' \<Longrightarrow> world_run c (is @ [i]) c''"

definition all_served :: "'s world \<Rightarrow> bool" where
  "all_served c \<longleftrightarrow> list_all (\<lambda>(t, w). t = Returned) (w_threads c)"

lemma effect_local:
  "next_effect t (local_state d w) = Some (t', s') \<Longrightarrow>
    next_effect t \<lparr>log = l, srv_driver = d, srv_rw = w, srv_monitors = ms\<rparr> =
      Some (t', \<lparr>log = l @ log s', srv_driver = srv_driver s', srv_rw = srv_rw s', srv_monitors = ms @ srv_monitors s'\<rparr>)"
  by (cases t) (auto simp: local_state_def)

text \<open>A step, as each request sees it.\<close>

lemma world_step_views:
  assumes "world_step c i c'"
  shows "i < length (w_threads c)" and "length (w_threads c') = length (w_threads c)"
    and "next_effect (remaining c i) (view c i) = Some (remaining c' i, view c' i)"
    and "j \<noteq> i \<Longrightarrow> remaining c' j = remaining c j"
    and "j \<noteq> i \<Longrightarrow> view c' j = (view c j)\<lparr>srv_driver := w_driver c'\<rparr>"
  using assms by (auto elim!: world_stepE dest!: effect_local simp: view_def remaining_def)

section \<open>One request after the other\<close>

text \<open>What a request would leave if it had the world to itself from driver state \<open>d\<close> on.\<close>

definition alone :: "'s world \<Rightarrow> nat \<Rightarrow> 's \<Rightarrow> 's server_state" where
  "alone c i d = solo (remaining c i) ((view c i)\<lparr>srv_driver := d\<rparr>)"

text \<open>The requests of a list run one at a time, request \<open>i\<close> by \<open>R i\<close>.\<close>

primrec driver_after :: "(nat \<Rightarrow> 's \<Rightarrow> 's server_state) \<Rightarrow> nat list \<Rightarrow> 's \<Rightarrow> 's" where
  "driver_after R [] d = d"
| "driver_after R (i # is) d = driver_after R is (srv_driver (R i d))"

primrec one_by_one :: "(nat \<Rightarrow> 's \<Rightarrow> 's server_state) \<Rightarrow> nat list \<Rightarrow> 's \<Rightarrow> (nat \<times> 's server_state) list" where
  "one_by_one R [] d = []"
| "one_by_one R (i # is) d = (i, R i d) # one_by_one R is (srv_driver (R i d))"

lemma driver_after_append [simp]: "driver_after R (xs @ ys) d = driver_after R ys (driver_after R xs d)"
  by (induction xs arbitrary: d) simp_all

lemma one_by_one_append [simp]:
  "one_by_one R (xs @ ys) d = one_by_one R xs d @ one_by_one R ys (driver_after R xs d)"
  by (induction xs arbitrary: d) simp_all

lemma one_by_one_mem: "i \<in> set is \<longleftrightarrow> (\<exists>s. (i, s) \<in> set (one_by_one R is d))"
  by (induction "is" arbitrary: d) auto

text \<open>\<open>serialised c0 is ord c\<close>: the requests of \<open>ord\<close> have called the driver or have returned, in this
  order, and what is left of them ends as if they had run one by one; the others are where they
  would have got to without them.\<close>

definition called_as :: "'s world \<Rightarrow> nat \<times> 's server_state \<Rightarrow> bool" where
  "called_as c r \<longleftrightarrow> quiet (remaining c (fst r)) \<and> (\<forall>d. alone c (fst r) d = (snd r)\<lparr>srv_driver := d\<rparr>)"

definition serialised :: "'s world \<Rightarrow> nat list \<Rightarrow> nat list \<Rightarrow> 's world \<Rightarrow> bool" where
  "serialised c0 is ord c \<longleftrightarrow>
     length (w_threads c) = length (w_threads c0) \<and>
     distinct ord \<and> list_all (\<lambda>i. i < length (w_threads c0)) ord \<and>
     timely is ord \<and>
     w_driver c = driver_after (alone c0) ord (w_driver c0) \<and>
     list_all (called_as c) (one_by_one (alone c0) ord (w_driver c0)) \<and>
     (\<forall>i < length (w_threads c0). i \<notin> set ord \<longrightarrow>
        remaining c i \<noteq> Returned \<and> one_call (remaining c i) \<and> alone c i = alone c0 i)"

lemma alone_other:
  assumes "world_step c i c'" and "j \<noteq> i"
  shows "remaining c' j = remaining c j" and "alone c' j = alone c j"
  using world_step_views(4,5) [OF assms] by (simp_all add: alone_def fun_eq_iff)

lemma called_as_other: "world_step c i c' \<Longrightarrow> fst r \<noteq> i \<Longrightarrow> called_as c r \<Longrightarrow> called_as c' r"
  by (simp add: called_as_def alone_other)

text \<open>An effect that is not a driver call does not see the driver.\<close>

lemma effect_driver:
  assumes "next_effect t s = Some (t', s')" and "\<nexists>f k. t = Invoke f k"
  shows "next_effect t (s\<lparr>srv_driver := d\<rparr>) = Some (t', s'\<lparr>srv_driver := d\<rparr>)" and "srv_driver s' = srv_driver s"
  using assms by (cases t; auto simp: driver_update_commute)+

lemma alone_private:
  assumes "world_step c i c'" and "\<nexists>f k. remaining c i = Invoke f k"
  shows "alone c' i = alone c i" and "w_driver c' = w_driver c"
proof -
  note adv = effect_driver [OF world_step_views(3) [OF assms(1)] assms(2)]
  show "alone c' i = alone c i"
    using solo_effect [OF adv(1)] by (simp add: alone_def fun_eq_iff)
  show "w_driver c' = w_driver c" using adv(2) by (simp add: view_def)
qed

lemma alone_call:
  assumes "world_step c i c'" and "remaining c i = Invoke f k" and "one_call (remaining c i)"
  shows "called_as c' (i, alone c i (w_driver c))" and "w_driver c' = srv_driver (alone c i (w_driver c))"
proof -
  have D: "srv_driver (view c i) = w_driver c" "(view c i)\<lparr>srv_driver := w_driver c\<rparr> = view c i"
    by (simp_all add: view_def)
  have next_state: "remaining c' i = k (w_driver c)" "view c' i = (view c i)\<lparr>srv_driver := f (w_driver c)\<rparr>"
    using world_step_views(3) [OF assms(1)] assms(2) D by simp_all
  have quiet: "quiet (remaining c' i)" using assms(2,3) next_state(1) by simp
  have now: "alone c i (w_driver c) = solo (remaining c' i) (view c' i)"
    by (simp add: alone_def D assms(2) next_state)
  show "called_as c' (i, alone c i (w_driver c))"
    unfolding called_as_def now by (simp add: quiet alone_def solo_quiet [OF quiet])
  have "view c' i = (view c' i)\<lparr>srv_driver := w_driver c'\<rparr>" by (simp add: view_def)
  from arg_cong [OF this, of "solo (remaining c' i)"] show "w_driver c' = srv_driver (alone c i (w_driver c))"
    unfolding now solo_quiet [OF quiet] by (metis server_state.select_convs(1) server_state.surjective server_state.update_convs(1))
qed

section \<open>Serialisability\<close>

lemma alone_returned: "remaining c i = Returned \<Longrightarrow> alone c i d = (view c i)\<lparr>srv_driver := d\<rparr>"
  by (simp add: alone_def)

lemma view_driver [simp]: "(view c i)\<lparr>srv_driver := w_driver c\<rparr> = view c i"
  by (simp add: view_def)

lemma serialised_start:
  assumes "list_all (\<lambda>(t, w). one_call t \<and> t \<noteq> Returned) (w_threads c)"
  shows "serialised c [] [] c"
  using assms by (auto simp: serialised_def timely_def in_real_time_def list_all_length remaining_def case_prod_beta)

lemma serialised_called:
  assumes "serialised c0 is ord c" and "i \<in> set ord"
  shows "quiet (remaining c i)"
proof -
  from assms(2) obtain s where s: "(i, s) \<in> set (one_by_one (alone c0) ord (w_driver c0))"
    unfolding one_by_one_mem [of i ord "alone c0" "w_driver c0"] ..
  from assms(1) have "list_all (called_as c) (one_by_one (alone c0) ord (w_driver c0))"
    by (simp add: serialised_def)
  with s have "called_as c (i, s)" by (simp add: list_all_iff)
  then show ?thesis by (simp add: called_as_def)
qed

text \<open>Adding a request to the order: it has just called the driver, or returned without.\<close>

lemma serialised_append:
  assumes ser: "serialised c0 is ord c" and step: "world_step c i c'" and new: "i \<notin> set ord"
    and called: "called_as c' (i, alone c0 i (w_driver c))" and driver: "w_driver c' = srv_driver (alone c0 i (w_driver c))"
  shows "serialised c0 (is @ [i]) (ord @ [i]) c'"
proof -
  note views = world_step_views [OF step]
  from ser have i: "i < length (w_threads c0)" using views(1) by (simp add: serialised_def)
  let ?rs = "one_by_one (alone c0) ord (w_driver c0)"
  have "fst r \<noteq> i" if "r \<in> set ?rs" for r
  proof -
    have "fst r \<in> set ord"
      unfolding one_by_one_mem [of "fst r" ord "alone c0" "w_driver c0"] using that by (intro exI [of _ "snd r"]) simp
    with new show ?thesis by blast
  qed
  moreover have "list_all (called_as c) ?rs" using ser by (simp add: serialised_def)
  ultimately have "list_all (called_as c') ?rs"
    using called_as_other [OF step] by (simp add: list_all_iff)
  moreover have "remaining c' j \<noteq> Returned \<and> one_call (remaining c' j) \<and> alone c' j = alone c0 j"
    if "j < length (w_threads c0)" "j \<notin> set (ord @ [i])" for j
    using that ser alone_other [OF step, of j] by (auto simp: serialised_def)
  moreover have "timely (is @ [i]) (ord @ [i])"
    using ser timely_snoc(2) [OF _ new] by (simp add: serialised_def)
  ultimately show ?thesis
    using ser i new called driver views(2) by (simp add: serialised_def)
qed

lemma serialised_private:
  assumes ser: "serialised c0 is ord c" and step: "world_step c i c'" and priv: "\<nexists>f k. remaining c i = Invoke f k"
  shows "\<exists>ord'. serialised c0 (is @ [i]) ord' c'"
proof -
  note views = world_step_views [OF step] and same = alone_private [OF step priv]
  have i: "i < length (w_threads c0)" using ser views(1) by (simp add: serialised_def)
  show ?thesis
  proof (cases "i \<notin> set ord \<and> remaining c' i = Returned")
    case True
    with ser i same(1) have R: "alone c0 i = alone c' i" by (simp add: serialised_def)
    have "called_as c' (i, alone c0 i (w_driver c))" "w_driver c' = srv_driver (alone c0 i (w_driver c))"
      using True same(2) alone_returned [of c' i] by (simp_all add: called_as_def R)
    with True serialised_append [OF ser step] show ?thesis by blast
  next
    case False
    have quiet: "quiet (remaining c i) \<Longrightarrow> quiet (remaining c' i)" by (rule quiet_effect(1) [OF _ views(3)])
    have called: "called_as c r \<Longrightarrow> called_as c' r" for r
      using called_as_other [OF step, of r] quiet by (cases "fst r = i") (auto simp: called_as_def same(1))
    have called_list: "list_all (called_as c) rs \<Longrightarrow> list_all (called_as c') rs" for rs
      using called by (simp add: list_all_iff)
    have rest: "remaining c' j \<noteq> Returned \<and> one_call (remaining c' j) \<and> alone c' j = R"
      if "remaining c j \<noteq> Returned \<and> one_call (remaining c j) \<and> alone c j = R" and "j \<notin> set ord" for j R
      using that False one_call_effect(1) [OF _ views(3)] same(1) alone_other [OF step, of j] by (cases "j = i") auto
    have times: "timely (is @ [i]) ord"
      using ser timely_snoc(1) [of "is" ord i] by (simp add: serialised_def)
    have "serialised c0 (is @ [i]) ord c'"
      using ser times unfolding serialised_def same(2) views(2)
      by (intro conjI allI impI) (simp_all add: rest called_list)
    then show ?thesis ..
  qed
qed

lemma serialised_call:
  assumes ser: "serialised c0 is ord c" and step: "world_step c i c'" and call: "remaining c i = Invoke f k"
  shows "serialised c0 (is @ [i]) (ord @ [i]) c'"
proof -
  note views = world_step_views [OF step]
  from ser have i: "i < length (w_threads c0)" using views(1) by (simp add: serialised_def)
  have new: "i \<notin> set ord" using serialised_called [OF ser, of i] call by auto
  with ser i have start: "one_call (remaining c i)" "alone c i = alone c0 i" by (auto simp: serialised_def)
  from serialised_append [OF ser step new] alone_call [OF step call start(1)] show ?thesis
    by (simp add: start(2))
qed

lemma serialised_step: "serialised c0 is ord c \<Longrightarrow> world_step c i c' \<Longrightarrow> \<exists>ord'. serialised c0 (is @ [i]) ord' c'"
  using serialised_private serialised_call by meson

lemma serialised_run:
  "world_run c is c' \<Longrightarrow> list_all (\<lambda>(t, w). one_call t \<and> t \<noteq> Returned) (w_threads c) \<Longrightarrow> \<exists>ord. serialised c is ord c'"
proof (induction rule: world_run.induct)
  case (nil c)
  then show ?case using serialised_start by blast
next
  case (snoc c "is" c' i c'')
  then show ?case using serialised_step by blast
qed

theorem serialisable:
  assumes run: "world_run c0 is c" and calls: "list_all (\<lambda>(t, w). one_call t \<and> t \<noteq> Returned) (w_threads c0)"
    and "all_served c"
  shows "\<exists>ord. mset ord = mset [0..<length (w_threads c0)] \<and> in_real_time is ord \<and>
    w_driver c = driver_after (alone c0) ord (w_driver c0) \<and>
    list_all (\<lambda>(i, s). view c i = s\<lparr>srv_driver := w_driver c\<rparr>) (one_by_one (alone c0) ord (w_driver c0))"
proof -
  let ?n = "length (w_threads c0)" and ?R = "alone c0"
  obtain ord where ser: "serialised c0 is ord c" using serialised_run [OF run calls] by blast
  have returned: "i < ?n \<Longrightarrow> remaining c i = Returned" for i
    using ser assms(3) by (auto simp: serialised_def all_served_def list_all_length remaining_def case_prod_beta)
  then have all: "set ord = {0..<?n}" using ser by (auto simp: serialised_def list_all_iff)
  have "view c i = s\<lparr>srv_driver := w_driver c\<rparr>" if "(i, s) \<in> set (one_by_one ?R ord (w_driver c0))" for i s
  proof -
    have "i \<in> set ord" using that one_by_one_mem [of i ord ?R "w_driver c0"] by blast
    with all have "i < ?n" by simp
    moreover have "called_as c (i, s)" using ser that by (auto simp: serialised_def list_all_iff)
    ultimately show ?thesis
      using alone_returned [OF returned, of i "w_driver c"] by (simp add: called_as_def)
  qed
  then have "list_all (\<lambda>(i, s). view c i = s\<lparr>srv_driver := w_driver c\<rparr>) (one_by_one ?R ord (w_driver c0))"
    by (auto simp: list_all_iff)
  moreover have "mset ord = mset [0..<?n]"
    by (rule set_eq_iff_mset_eq_distinct [THEN iffD1]) (use ser all in \<open>simp_all add: serialised_def\<close>)
  ultimately show ?thesis using ser by (auto simp: serialised_def timely_def)
qed

section \<open>Every schedule ends\<close>

text \<open>\<open>at_most t n\<close>: the thread has at most \<open>n\<close> effects left, whatever the driver does.\<close>

primrec at_most :: "'s thread \<Rightarrow> nat \<Rightarrow> bool" where
  "at_most Returned = (\<lambda>n. True)"
| "at_most (Log e t) = (\<lambda>n. 0 < n \<and> at_most t (n - 1))"
| "at_most (StartMonitor p t) = (\<lambda>n. 0 < n \<and> at_most t (n - 1))"
| "at_most (Write f t) = (\<lambda>n. 0 < n \<and> at_most t (n - 1))"
| "at_most (Invoke f k) = (\<lambda>n. 0 < n \<and> (\<forall>d. at_most (k d) (n - 1)))"

lemma at_most_log_all [simp]: "at_most (log_all es t) n \<longleftrightarrow> length es \<le> n \<and> at_most t (n - length es)"
  by (induction es arbitrary: n) (auto simp: Suc_le_eq)

lemma at_most_call_driver [simp]: "at_most (call_driver m k) n \<longleftrightarrow> 0 < n \<and> (\<forall>d. at_most (k (fst (run_state m d))) (n - 1))"
  by (simp add: call_driver_def)

lemma at_most_effect: "at_most t n \<Longrightarrow> next_effect t s = Some (t', s') \<Longrightarrow> 0 < n \<and> at_most t' (n - 1)"
  by (cases t) auto

lemma world_run_bound:
  "world_run c is c' \<Longrightarrow> \<forall>i < length (w_threads c). at_most (remaining c i) n \<Longrightarrow>
    length (w_threads c') = length (w_threads c) \<and>
    (\<forall>i < length (w_threads c). count_list is i \<le> n \<and> at_most (remaining c' i) (n - count_list is i)) \<and>
    list_all (\<lambda>i. i < length (w_threads c)) is"
proof (induction rule: world_run.induct)
  case (snoc c "is" c' j c'')
  note views = world_step_views [OF snoc.hyps(2)] and IH = snoc.IH [OF snoc.prems]
  have "count_list (is @ [j]) i \<le> n \<and> at_most (remaining c'' i) (n - count_list (is @ [j]) i)"
    if "i < length (w_threads c)" for i
  proof (cases "i = j")
    case True
    with IH that have "at_most (remaining c' j) (n - count_list is j)" by simp
    from at_most_effect [OF this views(3)] True show ?thesis by simp
  next
    case False
    with IH that views(4) [of i] show ?thesis by simp
  qed
  with IH views(1,2) show ?case by simp
qed simp

text \<open>A thread that has not returned can make its next effect, wherever the others are.\<close>

lemma thread_progress:
  assumes "i < length (w_threads c)" and "remaining c i \<noteq> Returned"
  shows "\<exists>c'. world_step c i c'"
proof -
  from assms(2) have "next_effect (remaining c i) (local_state (w_driver c) (snd (w_threads c ! i))) \<noteq> None"
    by (simp add: effect_returned)
  then obtain t s where "next_effect (remaining c i) (local_state (w_driver c) (snd (w_threads c ! i))) = Some (t, s)"
    by auto
  from effect [OF assms(1) this] show ?thesis by blast
qed

section \<open>Schedules\<close>

text \<open>The run of a schedule, computed.\<close>

definition step_at :: "'s world \<Rightarrow> nat \<Rightarrow> 's world option" where
  "step_at c i =
     (if i < length (w_threads c)
      then (case next_effect (remaining c i) (local_state (w_driver c) (snd (w_threads c ! i))) of
              None \<Rightarrow> None
            | Some (t, s) \<Rightarrow> Some (c\<lparr>w_driver := srv_driver s, w_log := w_log c @ map (Pair i) (log s),
                w_monitors := w_monitors c @ map (Pair i) (srv_monitors s),
                w_threads := (w_threads c)[i := (t, srv_rw s)]\<rparr>))
      else None)"

fun schedule :: "'s world \<Rightarrow> nat list \<Rightarrow> 's world option" where
  "schedule c [] = Some c"
| "schedule c (i # is) = (case step_at c i of None \<Rightarrow> None | Some c' \<Rightarrow> schedule c' is)"

lemma step_at_sound: "step_at c i = Some c' \<Longrightarrow> world_step c i c'"
  using effect [of i c] by (auto simp: step_at_def split: if_splits option.splits)

lemma world_run_cons: "world_run c' is c'' \<Longrightarrow> world_step c i c' \<Longrightarrow> world_run c (i # is) c''"
proof (induction rule: world_run.induct)
  case (nil c')
  from world_run.snoc [OF world_run.nil nil] show ?case by simp
next
  case (snoc c' "is" c'' j c''')
  from world_run.snoc [OF snoc.IH [OF snoc.prems] snoc.hyps(2)] show ?case by simp
qed

lemma schedule_sound: "schedule c is = Some c' \<Longrightarrow> world_run c is c'"
proof (induction "is" arbitrary: c)
  case Nil
  then show ?case using world_run.nil [of c] by simp
next
  case (Cons i "is")
  then obtain c1 where "step_at c i = Some c1" "schedule c1 is = Some c'" by (auto split: option.splits)
  from world_run_cons [OF Cons.IH [OF this(2)] step_at_sound [OF this(1)]] show ?case .
qed

end
