(* ===== verification/Env_Monitor.thy ===== *)
theory Env_Monitor
  imports Env
begin

text \<open>
  The goroutine \<open>EnvWithMonitor\<close> starts when the response writer is a \<open>http.CloseNotifier\<close>
  (\<^verbatim>\<open>driverhttp/handlers.go\<close>): it waits for the parent context or for the client to go away,
  whichever the \<open>select\<close> picks, and in the second case logs and cancels the child context. The
  environment's moves and the goroutine's interleave as an inductive step relation.
\<close>

datatype goroutine = Selecting | Signalling | Cancelling | Exited

text \<open>
  \<open>mon_parent\<close>: the parent context is done. \<open>mon_channel\<close>: a value waits in the channel of
  \<open>CloseNotify\<close>. \<open>mon_gone\<close> records that the client has gone, also after the value was
  received. \<open>mon_cancelled\<close>: \<open>cancel\<close> was called. \<open>mon_signals\<close> counts the entries logged.
\<close>

record monitor =
  mon_routine :: goroutine
  mon_parent :: bool
  mon_channel :: bool
  mon_gone :: bool
  mon_cancelled :: bool
  mon_signals :: nat

definition monitor_start :: monitor where
  "monitor_start =
     \<lparr>mon_routine = Selecting, mon_parent = False, mon_channel = False, mon_gone = False,
      mon_cancelled = False, mon_signals = 0\<rparr>"

text \<open>The child of \<open>context.WithCancel\<close> is done when it was cancelled or its parent is done.\<close>

definition child_done :: "monitor \<Rightarrow> bool" where
  "child_done m \<longleftrightarrow> mon_cancelled m \<or> mon_parent m"

text \<open>Two moves of the environment and four of the goroutine.\<close>

datatype move =
    ParentDone | ClientGone
  | SelectParent | SelectCancel | SignalCancel | CallCancel

inductive monitor_step :: "monitor \<Rightarrow> move \<Rightarrow> monitor \<Rightarrow> bool" where
  parent_done: "\<not> mon_parent m \<Longrightarrow> monitor_step m ParentDone (m\<lparr>mon_parent := True\<rparr>)"
| client_gone: "\<not> mon_gone m \<Longrightarrow>
    monitor_step m ClientGone (m\<lparr>mon_channel := True, mon_gone := True\<rparr>)"
| select_parent: "mon_routine m = Selecting \<Longrightarrow> mon_parent m \<Longrightarrow>
    monitor_step m SelectParent (m\<lparr>mon_routine := Exited\<rparr>)"
| select_cancel: "mon_routine m = Selecting \<Longrightarrow> mon_channel m \<Longrightarrow>
    monitor_step m SelectCancel (m\<lparr>mon_routine := Signalling, mon_channel := False\<rparr>)"
| signal_cancel: "mon_routine m = Signalling \<Longrightarrow>
    monitor_step m SignalCancel (m\<lparr>mon_routine := Cancelling, mon_signals := Suc (mon_signals m)\<rparr>)"
| call_cancel: "mon_routine m = Cancelling \<Longrightarrow>
    monitor_step m CallCancel (m\<lparr>mon_routine := Exited, mon_cancelled := True\<rparr>)"

code_pred (modes: i \<Rightarrow> i \<Rightarrow> o \<Rightarrow> bool) monitor_step .

inductive_simps monitor_step_simps:
  "monitor_step m ParentDone m'" "monitor_step m ClientGone m'" "monitor_step m SelectParent m'"
  "monitor_step m SelectCancel m'" "monitor_step m SignalCancel m'" "monitor_step m CallCancel m'"

inductive_cases monitor_stepE: "monitor_step m e m'"

inductive monitor_run :: "monitor \<Rightarrow> move list \<Rightarrow> monitor \<Rightarrow> bool" where
  nil: "monitor_run m [] m"
| snoc: "monitor_run m es m' \<Longrightarrow> monitor_step m' e m'' \<Longrightarrow> monitor_run m (es @ [e]) m''"

abbreviation reaches :: "move list \<Rightarrow> monitor \<Rightarrow> bool" where
  "reaches es m \<equiv> monitor_run monitor_start es m"

definition goroutine_move :: "move \<Rightarrow> bool" where
  "goroutine_move e \<longleftrightarrow> e \<in> {SelectParent, SelectCancel, SignalCancel, CallCancel}"

section \<open>The invariant\<close>

text \<open>What the goroutine's position says of the contexts, the log and the client.\<close>

definition monitor_inv :: "monitor \<Rightarrow> bool" where
  "monitor_inv m \<longleftrightarrow>
     (mon_channel m \<longrightarrow> mon_gone m) \<and>
     (mon_cancelled m \<longrightarrow> mon_gone m \<and> mon_routine m = Exited) \<and>
     mon_signals m = (if mon_routine m = Cancelling \<or> mon_cancelled m then 1 else 0) \<and>
     (mon_routine m = Selecting \<longrightarrow> mon_channel m = mon_gone m) \<and>
     (mon_routine m = Signalling \<or> mon_routine m = Cancelling \<longrightarrow> mon_gone m) \<and>
     (mon_routine m = Exited \<longrightarrow> child_done m)"

lemma monitor_inv_start: "monitor_inv monitor_start"
  by (simp add: monitor_inv_def monitor_start_def)

lemma monitor_inv_step: "monitor_step m e m' \<Longrightarrow> monitor_inv m \<Longrightarrow> monitor_inv m'"
  by (erule monitor_stepE) (auto simp: monitor_inv_def child_done_def)

lemma monitor_run_inv: "monitor_run m es m' \<Longrightarrow> monitor_inv m \<Longrightarrow> monitor_inv m'"
  by (induction rule: monitor_run.induct) (auto intro: monitor_inv_step)

lemma reaches_inv: "reaches es m \<Longrightarrow> monitor_inv m"
  by (rule monitor_run_inv [OF _ monitor_inv_start])

section \<open>The history of a run\<close>

text \<open>The flags of a reached state are the environment's moves of the run.\<close>

lemma monitor_run_history:
  "monitor_run m es m' \<Longrightarrow> m = monitor_start \<Longrightarrow>
    (mon_parent m' \<longleftrightarrow> ParentDone \<in> set es) \<and> (mon_gone m' \<longleftrightarrow> ClientGone \<in> set es) \<and>
    (mon_cancelled m' \<longleftrightarrow> CallCancel \<in> set es)"
proof (induction rule: monitor_run.induct)
  case (snoc m es m' e m'')
  from snoc.hyps(2) snoc.IH [OF snoc.prems] show ?case by (elim monitor_stepE) auto
qed (simp add: monitor_start_def)

section \<open>Progress\<close>

text \<open>The moves the goroutine has left.\<close>

definition moves_left :: "monitor \<Rightarrow> nat" where
  "moves_left m =
     (case mon_routine m of Selecting \<Rightarrow> 3 | Signalling \<Rightarrow> 2 | Cancelling \<Rightarrow> 1 | Exited \<Rightarrow> 0)"

lemma goroutine_move_decreases:
  "monitor_step m e m' \<Longrightarrow> goroutine_move e \<Longrightarrow> moves_left m' < moves_left m"
  by (erule monitor_stepE) (auto simp: goroutine_move_def moves_left_def)

lemma environment_move_keeps:
  "monitor_step m e m' \<Longrightarrow> \<not> goroutine_move e \<Longrightarrow> moves_left m' = moves_left m"
  by (erule monitor_stepE) (auto simp: goroutine_move_def moves_left_def)

lemma moves_left_bound: "moves_left m \<le> 3"
  by (simp add: moves_left_def split: goroutine.split)

lemma goroutine_moves_bounded:
  "monitor_run m es m' \<Longrightarrow> length (filter goroutine_move es) + moves_left m' \<le> moves_left m"
proof (induction rule: monitor_run.induct)
  case (snoc m es m' e m'')
  then show ?case
    using goroutine_move_decreases [of m' e m''] environment_move_keeps [of m' e m'']
    by (cases "goroutine_move e") auto
qed simp

text \<open>The goroutine is blocked exactly while neither of its channels is ready, or when it has
  exited.\<close>

lemma goroutine_blocked_iff:
  "(\<nexists>e m'. goroutine_move e \<and> monitor_step m e m') \<longleftrightarrow>
    mon_routine m = Exited \<or> (mon_routine m = Selecting \<and> \<not> mon_parent m \<and> \<not> mon_channel m)"
proof -
  have "(\<exists>e m'. goroutine_move e \<and> monitor_step m e m') \<longleftrightarrow>
      (mon_routine m = Selecting \<and> (mon_parent m \<or> mon_channel m)) \<or>
      mon_routine m = Signalling \<or> mon_routine m = Cancelling"
    by (auto simp: goroutine_move_def monitor_step_simps)
  then show ?thesis by (cases "mon_routine m") auto
qed

lemma stuck_child_done:
  assumes "monitor_inv m" and "mon_gone m \<or> mon_parent m"
    and "\<nexists>e m'. goroutine_move e \<and> monitor_step m e m'"
  shows "mon_routine m = Exited \<and> child_done m"
  using assms unfolding goroutine_blocked_iff by (auto simp: monitor_inv_def)

text \<open>With the parent context done the goroutine can finish on its own.\<close>

lemma goroutine_finishes:
  assumes "mon_parent m"
  shows "\<exists>es' m'. monitor_run m es' m' \<and> mon_routine m' = Exited \<and> list_all goroutine_move es' \<and> length es' \<le> 3"
proof -
  have one: "monitor_run m' [e] m''" if "monitor_step m' e m''" for m' e m''
    using monitor_run.snoc [OF monitor_run.nil that] by simp
  show ?thesis
  proof (cases "mon_routine m")
    case Selecting
    show ?thesis
      by (rule exI, rule exI, rule conjI [OF one [OF select_parent [OF Selecting assms]]]) (simp add: goroutine_move_def)
  next
    case Signalling
    let ?m = "m\<lparr>mon_routine := Cancelling, mon_signals := Suc (mon_signals m)\<rparr>"
    have run: "monitor_run m ([SignalCancel] @ [CallCancel]) (?m\<lparr>mon_routine := Exited, mon_cancelled := True\<rparr>)"
      by (rule monitor_run.snoc [OF one [OF signal_cancel [OF Signalling]] call_cancel]) simp
    show ?thesis by (rule exI, rule exI, rule conjI [OF run]) (simp add: goroutine_move_def)
  next
    case Cancelling
    show ?thesis
      by (rule exI, rule exI, rule conjI [OF one [OF call_cancel [OF Cancelling]]]) (simp add: goroutine_move_def)
  next
    case Exited
    show ?thesis by (rule exI, rule exI, rule conjI [OF monitor_run.nil]) (simp add: Exited)
  qed
qed

section \<open>Properties\<close>

text \<open>\<open>EnvWithMonitor\<close> gives the operation a cancellable child of the request's context
  and starts one goroutine, on that pair of contexts, exactly when the response writer can
  notice a closed connection.\<close>

theorem monitor_started:
  "let (env, s') = run_state (EnvWithMonitor lg cx) s
   in Env_Context env = CancelCtx cx \<and> Env_Logger env = Session lg ''with-cancel'' \<and>
     srv_monitors s' = srv_monitors s @
       (if rw_close_notifier (srv_rw s) then [(cx, CancelCtx cx)] else []) \<and>
     srv_driver s' = srv_driver s \<and> srv_rw s' = srv_rw s"
  by (simp add: monitor_env_def after_monitor_def)

text \<open>Property C17. The operation's context ends only for a reason: in every reachable state it is done
  only if the request's context is done or the client has gone, \<open>cancel\<close> was called only
  after the client had gone and the signal was logged, and the signal is logged at most once.\<close>

theorem monitor_safety:
  assumes "reaches es m"
  shows "(child_done m \<longleftrightarrow> ParentDone \<in> set es \<or> CallCancel \<in> set es) \<and>
    (mon_cancelled m \<longrightarrow> ClientGone \<in> set es \<and> mon_signals m = 1 \<and> mon_routine m = Exited) \<and>
    mon_signals m \<le> 1"
  using reaches_inv [OF assms] monitor_run_history [OF assms refl]
  by (auto simp: monitor_inv_def child_done_def)

text \<open>The goroutine makes at most three moves in any run.\<close>

theorem monitor_terminates:
  assumes "reaches es m"
  shows "length (filter goroutine_move es) + moves_left m \<le> 3"
  using goroutine_moves_bounded [OF assms] moves_left_bound [of monitor_start] by simp

text \<open>Property C16. Once the client has gone or the request's context is done the goroutine does not
  get stuck: while it has not exited it can move, and when it has the operation's context is
  done.\<close>

theorem monitor_cancels:
  assumes "reaches es m" and "ClientGone \<in> set es \<or> ParentDone \<in> set es"
  shows "if mon_routine m = Exited then child_done m
    else \<exists>e m'. goroutine_move e \<and> monitor_step m e m'"
proof (cases "mon_routine m = Exited")
  case True
  then show ?thesis using reaches_inv [OF assms(1)] by (simp add: monitor_inv_def)
next
  case False
  have "mon_gone m \<or> mon_parent m"
    using monitor_run_history [OF assms(1) refl] assms(2) by blast
  with False stuck_child_done [OF reaches_inv [OF assms(1)]] show ?thesis by auto
qed

section \<open>Instances\<close>

text \<open>The client goes away and the goroutine cancels.\<close>

definition cancelled_monitor :: monitor where
  "cancelled_monitor =
     \<lparr>mon_routine = Exited, mon_parent = False, mon_channel = False, mon_gone = True,
      mon_cancelled = True, mon_signals = 1\<rparr>"

lemma cancel_run: "reaches [ClientGone, SelectCancel, SignalCancel, CallCancel] cancelled_monitor"
proof -
  let ?m1 = "monitor_start\<lparr>mon_channel := True, mon_gone := True\<rparr>"
  let ?m2 = "?m1\<lparr>mon_routine := Signalling, mon_channel := False\<rparr>"
  let ?m3 = "?m2\<lparr>mon_routine := Cancelling, mon_signals := 1\<rparr>"
  have 1: "reaches [ClientGone] ?m1"
    using monitor_run.snoc [OF monitor_run.nil client_gone [of monitor_start]] by (simp add: monitor_start_def)
  have 2: "reaches [ClientGone, SelectCancel] ?m2"
    using monitor_run.snoc [OF 1 select_cancel] by (simp add: monitor_start_def)
  have 3: "reaches [ClientGone, SelectCancel, SignalCancel] ?m3"
    using monitor_run.snoc [OF 2 signal_cancel] by (simp add: monitor_start_def)
  show ?thesis
    using monitor_run.snoc [OF 3 call_cancel] by (simp add: monitor_start_def cancelled_monitor_def)
qed

lemma gone_run: "reaches [ClientGone] (monitor_start\<lparr>mon_channel := True, mon_gone := True\<rparr>)"
  using monitor_run.snoc [OF monitor_run.nil client_gone [of monitor_start]] by (simp add: monitor_start_def)

theorem monitor_safety_witness: "child_done cancelled_monitor \<and> mon_signals cancelled_monitor \<le> 1"
  using monitor_safety [OF cancel_run] by simp

theorem monitor_terminates_witness: "(3::nat) + moves_left cancelled_monitor \<le> 3"
  using monitor_terminates [OF cancel_run] by (simp add: goroutine_move_def)

theorem monitor_cancels_witness:
  "\<exists>e m'. goroutine_move e \<and> monitor_step (monitor_start\<lparr>mon_channel := True, mon_gone := True\<rparr>) e m'"
  using monitor_cancels [OF gone_run] by (simp add: monitor_start_def)

end
