(* ===== verification/Server_Concurrent.thy ===== *)
theory Server_Concurrent
  imports Typed_Protocol Server_Threads Env_Monitor
begin

text \<open>
  The server of \<^verbatim>\<open>handlers.go\<close> with its requests interleaved. Each handler is a thread of
  effects in the order of its code (\<open>serve_thread\<close>), which run alone is the handler
  (\<open>threaded_handler\<close>, with an interpretation for each of the nine); \<open>request_thread\<close> is a request
  to the multiplexer. However the effects of many requests interleave, the answers, each request's
  log and the driver's state are those of the requests served one at a time in some order.
\<close>

section \<open>Handlers as threads\<close>

definition serve_thread ::
  "log_level \<Rightarrow> logger \<Rightarrow> (reader \<Rightarrow> reject + 'q) \<Rightarrow> (Env \<Rightarrow> 'q \<Rightarrow> ('s, 'r) state) \<Rightarrow>
    ('r \<Rightarrow> json) \<Rightarrow> ('r \<Rightarrow> log_entry list) \<Rightarrow> server_request \<Rightarrow> 's thread" where
  "serve_thread lvl lg accept op enc entries req =
     (let fin = LogEntry lvl (lg @ ''.end'') None; cx = req_Context req; wc = Session lg ''with-cancel''
      in Log (LogEntry lvl (lg @ ''.start'') None)
        (case accept (req_Body req) of
           Inl (action, err, j) \<Rightarrow>
             Log (LogEntry ERROR (lg @ ''.'' @ action) (Some (Error err)))
               (Write (json_response j) (Log fin Returned))
         | Inr q \<Rightarrow>
             Log (LogEntry DEBUG (wc @ ''.start'') None)
               (StartMonitor (cx, CancelCtx cx)
                 (Log (LogEntry DEBUG (wc @ ''.end'') None)
                   (call_driver (op (monitor_env lg cx) q)
                     (\<lambda>r. log_all (entries r) (Write (json_response (enc r)) (Log fin Returned))))))))"

text \<open>A handler that is a thread: run alone it is the handler, and it makes at most one driver
  call and eight effects.\<close>

definition thread_of :: "(server_request \<Rightarrow> ('s server_state, unit) state) \<Rightarrow> (server_request \<Rightarrow> 's thread) \<Rightarrow> bool" where
  "thread_of h t \<longleftrightarrow>
     (\<forall>req. (\<forall>s. snd (run_state (h req) s) = solo (t req) s) \<and> t req \<noteq> Returned \<and> one_call (t req) \<and> at_most (t req) 8)"

locale threaded_handler = json_handler +
  assumes one_entry: "length (entries r) \<le> 1"
begin

lemma solo_serve: "solo (serve_thread lvl lg accept op enc entries req) s = snd (run_state (h req) s)"
  unfolding refines serve_thread_def serve_def Let_def
  by (simp add: after_monitor_def split: sum.split prod.split)

lemma thread: "thread_of h (serve_thread lvl lg accept op enc entries)"
  unfolding thread_of_def solo_serve
proof (intro allI conjI refl)
  fix req
  show "serve_thread lvl lg accept op enc entries req \<noteq> Returned"
    by (simp add: serve_thread_def Let_def)
  show "one_call (serve_thread lvl lg accept op enc entries req)"
    by (simp add: serve_thread_def Let_def split: sum.split)
  have "length (entries r) \<le> 3 \<and> length (entries r) < 3 \<and> Suc 0 < 3 - length (entries r)" for r
    using one_entry [of r] by linarith
  then show "at_most (serve_thread lvl lg accept op enc entries req) 8"
    by (simp add: serve_thread_def Let_def split: sum.split)
qed

end

section \<open>The nine handlers\<close>

interpretation thread_activate: threaded_handler "newActivateHandler lg client" DEBUG "Session lg ''handle-activate''"
  accept_any "\<lambda>env _. Driver_Activate client env" ActivateResponse_json
  "\<lambda>r. if ActivateResponse_Err r \<noteq> '''' then error_note (Session lg ''handle-activate'') ''failed-activating-driver'' (ActivateResponse_Err r) else [LogEntry DEBUG (Session lg ''handle-activate'' @ ''.activate-response'') None]"
  by unfold_locales (simp add: error_note_def)

interpretation thread_get: threaded_handler "newGetHandler lg client" INFO "Session lg ''handle-get''"
  accept_get "Driver_Get client" GetResponse_json
  "\<lambda>r. if GetResponse_Err r \<noteq> '''' then [LogEntry ERROR (Session lg ''handle-get'' @ ''.failed-getting-volume'') None] else []"
  by unfold_locales (simp add: error_note_def)

interpretation thread_list: threaded_handler "newListHandler lg client" INFO "Session lg ''handle-list''"
  accept_any "\<lambda>env _. Driver_List client env" ListResponse_json
  "\<lambda>r. error_note (Session lg ''handle-list'') ''failed-listing-volumes'' (ListResponse_Err r)"
  by unfold_locales (simp add: error_note_def)

interpretation thread_path: threaded_handler "newPathHandler lg client" INFO "Session lg ''handle-path''"
  accept_path "Driver_Path client" PathResponse_json
  "\<lambda>r. error_note (Session lg ''handle-path'') ''failed-activating-driver'' (PathResponse_Err r)"
  by unfold_locales (simp add: error_note_def)

interpretation thread_create: threaded_handler "newCreateHandler fl lg client" INFO "Session lg ''handle-create''"
  "accept_create fl" "Driver_Create client" ErrorResponse_json
  "\<lambda>r. error_note (Session lg ''handle-create'') ''failed-creating-volume'' (ErrorResponse_Err r)"
  by unfold_locales (simp add: error_note_def)

interpretation thread_mount: threaded_handler "newMountHandler lg client" INFO "Session lg ''handle-mount''"
  accept_mount "Driver_Mount client" MountResponse_json
  "\<lambda>r. error_note (Session lg ''handle-mount'') ''failed-mounting-volume'' (MountResponse_Err r)"
  by unfold_locales (simp add: error_note_def)

interpretation thread_unmount: threaded_handler "newUnmountHandler lg client" INFO "Session lg ''handle-unmount''"
  accept_unmount "Driver_Unmount client" ErrorResponse_json
  "\<lambda>r. error_note (Session lg ''handle-unmount'') ''failed-unmount-volume'' (ErrorResponse_Err r)"
  by unfold_locales (simp add: error_note_def)

interpretation thread_remove: threaded_handler "newRemoveHandler lg client" INFO "Session lg ''handle-remove''"
  accept_remove "Driver_Remove client" ErrorResponse_json
  "\<lambda>r. error_note (Session lg ''handle-remove'') ''failed-remove-volume'' (ErrorResponse_Err r)"
  by unfold_locales (simp add: error_note_def)

interpretation thread_capabilities: threaded_handler "newCapabilitiesHandler lg client" INFO "Session lg ''handle-capabilities''"
  accept_any "\<lambda>env _. Driver_Capabilities client env" CapabilitiesResponse_json
  "\<lambda>r. [LogEntry DEBUG (Session lg ''handle-capabilities'' @ ''.capabilities-response'') None]"
  by unfold_locales (simp add: error_note_def)

definition server_threads ::
  "'f strconv \<Rightarrow> logger \<Rightarrow> ('f, 's) Driver \<Rightarrow> (string \<times> (server_request \<Rightarrow> 's thread)) list" where
  "server_threads fl lg client =
     [(ActivateRoute, serve_thread DEBUG (Session lg ''handle-activate'') accept_any
        (\<lambda>env _. Driver_Activate client env) ActivateResponse_json
        (\<lambda>r. if ActivateResponse_Err r \<noteq> '''' then error_note (Session lg ''handle-activate'') ''failed-activating-driver'' (ActivateResponse_Err r) else [LogEntry DEBUG (Session lg ''handle-activate'' @ ''.activate-response'') None])),
      (GetRoute, serve_thread INFO (Session lg ''handle-get'') accept_get
        (Driver_Get client) GetResponse_json
        (\<lambda>r. if GetResponse_Err r \<noteq> '''' then [LogEntry ERROR (Session lg ''handle-get'' @ ''.failed-getting-volume'') None] else [])),
      (ListRoute, serve_thread INFO (Session lg ''handle-list'') accept_any
        (\<lambda>env _. Driver_List client env) ListResponse_json
        (\<lambda>r. error_note (Session lg ''handle-list'') ''failed-listing-volumes'' (ListResponse_Err r))),
      (PathRoute, serve_thread INFO (Session lg ''handle-path'') accept_path
        (Driver_Path client) PathResponse_json
        (\<lambda>r. error_note (Session lg ''handle-path'') ''failed-activating-driver'' (PathResponse_Err r))),
      (CreateRoute, serve_thread INFO (Session lg ''handle-create'') (accept_create fl)
        (Driver_Create client) ErrorResponse_json
        (\<lambda>r. error_note (Session lg ''handle-create'') ''failed-creating-volume'' (ErrorResponse_Err r))),
      (MountRoute, serve_thread INFO (Session lg ''handle-mount'') accept_mount
        (Driver_Mount client) MountResponse_json
        (\<lambda>r. error_note (Session lg ''handle-mount'') ''failed-mounting-volume'' (MountResponse_Err r))),
      (UnmountRoute, serve_thread INFO (Session lg ''handle-unmount'') accept_unmount
        (Driver_Unmount client) ErrorResponse_json
        (\<lambda>r. error_note (Session lg ''handle-unmount'') ''failed-unmount-volume'' (ErrorResponse_Err r))),
      (RemoveRoute, serve_thread INFO (Session lg ''handle-remove'') accept_remove
        (Driver_Remove client) ErrorResponse_json
        (\<lambda>r. error_note (Session lg ''handle-remove'') ''failed-remove-volume'' (ErrorResponse_Err r))),
      (CapabilitiesRoute, serve_thread INFO (Session lg ''handle-capabilities'') accept_any
        (\<lambda>env _. Driver_Capabilities client env) CapabilitiesResponse_json
        (\<lambda>r. [LogEntry DEBUG (Session lg ''handle-capabilities'' @ ''.capabilities-response'') None]))]"

lemma threads_match:
  "list_all2 (\<lambda>(n, h) (n', t). n = n' \<and> thread_of h t) (server_handlers fl lg client) (server_threads fl lg client)"
  unfolding server_handlers_def server_threads_def
  by (simp add: thread_activate.thread thread_get.thread thread_list.thread thread_path.thread
      thread_create.thread thread_mount.thread thread_unmount.thread thread_remove.thread
      thread_capabilities.thread)

lemma map_of_match:
  "list_all2 (\<lambda>(n, h) (n', t). n = n' \<and> P h t) hs ts \<Longrightarrow> map_of hs n = Some h \<Longrightarrow>
    \<exists>t. map_of ts n = Some t \<and> P h t"
  by (induction hs ts rule: list_all2_induct) (auto split: if_splits)

section \<open>Requests as threads\<close>

definition error_page :: "string \<Rightarrow> nat \<Rightarrow> response_writer \<Rightarrow> response_writer" where
  "error_page msg code w =
     write_body (msg @ [CHR 0x0A]) (write_header code
       (set_header ''X-Content-Type-Options'' ''nosniff''
         (set_header ''Content-Type'' ''text/plain; charset=utf-8'' (del_header ''Content-Length'' w))))"

definition request_thread :: "'f strconv \<Rightarrow> logger \<Rightarrow> ('f, 's) Driver \<Rightarrow> server_request \<Rightarrow> 's thread" where
  "request_thread fl lg0 client req =
     (case mux_choose [(''POST'', route_handlers Routes (server_threads fl (Session lg0 ''server'') client))]
         (req_Method req) (req_Path req) of
        Dispatch t ps \<Rightarrow> t req
      | Redirect \<Rightarrow> Write (\<lambda>w. write_header 301 (set_header ''Location'' (req_Path req @ ''/'') w)) Returned
      | NotFound \<Rightarrow> Write (error_page ''404 page not found'' 404) Returned
      | MethodNotAllowed allowed \<Rightarrow>
          Write (\<lambda>w. error_page ''Method Not Allowed'' 405 (set_header ''Allow'' (Join allowed '', '') w)) Returned)"

lemma request_threads: "thread_of (ServeHTTP (server_mux fl lg0 client)) (request_thread fl lg0 client)"
  unfolding thread_of_def
proof
  fix req :: server_request
  let ?lg = "Session lg0 ''server''"
  let ?ok = "\<lambda>h t. (\<forall>s. snd (run_state (h req) s) = solo (t req) s) \<and> t req \<noteq> Returned \<and> one_call (t req) \<and> at_most (t req) 8"
  show "?ok (ServeHTTP (server_mux fl lg0 client)) (request_thread fl lg0 client)"
  proof (cases "find (\<lambda>r. Route_Path r = req_Path req) Routes")
    case None
    then show ?thesis
      by (simp add: ServeHTTP_def server_mux_def request_thread_def mux_choose_Routes run_http_Error error_page_def)
  next
    case (Some rt)
    then have rt: "rt \<in> set Routes" by (auto simp: find_Some_iff)
    obtain h where h: "map_of (server_handlers fl ?lg client) (Route_Name rt) = Some h"
      using server_handlers_complete [OF rt] by fastforce
    from map_of_match [OF threads_match h] obtain t where
      t: "map_of (server_threads fl ?lg client) (Route_Name rt) = Some t" "thread_of h t" by blast
    then have "?ok h t" unfolding thread_of_def by blast
    with Some h t(1) show ?thesis
      by (simp add: ServeHTTP_def server_mux_def request_thread_def mux_choose_Routes run_http_Error error_page_def)
  qed
qed

section \<open>A server at work\<close>

text \<open>Requests that have arrived, each with its writer: does it notice a closed connection?\<close>

definition serving ::
  "'f strconv \<Rightarrow> logger \<Rightarrow> ('f, 's) Driver \<Rightarrow> (bool \<times> server_request) list \<Rightarrow> 's \<Rightarrow> 's world" where
  "serving fl lg0 client reqs d =
     world_of d (map (\<lambda>(closeNotifier, req). (request_thread fl lg0 client req, fresh_writer closeNotifier)) reqs)"

text \<open>Request \<open>i\<close> served with nothing else about, by the handler as the code has it.\<close>

definition serve_one ::
  "(server_request \<Rightarrow> ('s server_state, unit) state) mux \<Rightarrow> (bool \<times> server_request) list \<Rightarrow> nat \<Rightarrow> 's \<Rightarrow> 's server_state" where
  "serve_one m reqs i d =
     (case reqs ! i of (closeNotifier, req) \<Rightarrow>
        snd (run_state (ServeHTTP m req) (local_state d (fresh_writer closeNotifier))))"

lemma serving_threads [simp]:
  "length (w_threads (serving fl lg0 client reqs d)) = length reqs"
  "w_driver (serving fl lg0 client reqs d) = d"
  "i < length reqs \<Longrightarrow> remaining (serving fl lg0 client reqs d) i = request_thread fl lg0 client (snd (reqs ! i))"
  by (simp_all add: serving_def world_of_def remaining_def case_prod_beta)

lemma alone_serving:
  "i < length reqs \<Longrightarrow> alone (serving fl lg0 client reqs d0) i = serve_one (server_mux fl lg0 client) reqs i"
  using request_threads [of fl lg0 client, unfolded thread_of_def]
  by (simp add: alone_def serve_one_def view_def local_state_def fun_eq_iff case_prod_beta)
    (simp add: serving_def world_of_def case_prod_beta)

lemma serving_one_call: "list_all (\<lambda>(t, w). one_call t \<and> t \<noteq> Returned) (w_threads (serving fl lg0 client reqs d))"
  using request_threads [of fl lg0 client, unfolded thread_of_def]
  by (simp add: serving_def world_of_def list_all_iff case_prod_beta)

lemma one_by_one_cong:
  "list_all (\<lambda>i. R i = R' i) is \<Longrightarrow> one_by_one R is d = one_by_one R' is d \<and> driver_after R is d = driver_after R' is d"
  by (induction "is" arbitrary: d) simp_all

text \<open>The goroutines a handler starts watch the request's own context.\<close>

definition watches_own :: "(server_request \<Rightarrow> ('s server_state, unit) state) \<Rightarrow> bool" where
  "watches_own h \<longleftrightarrow>
     (\<forall>req s. srv_monitors (snd (run_state (h req) s)) = srv_monitors s \<or>
        srv_monitors (snd (run_state (h req) s)) = srv_monitors s @ [(req_Context req, CancelCtx (req_Context req))])"

context json_handler
begin

lemma watches: "watches_own h"
  unfolding watches_own_def
proof (intro allI)
  fix req s
  show "srv_monitors (snd (run_state (h req) s)) = srv_monitors s \<or>
      srv_monitors (snd (run_state (h req) s)) = srv_monitors s @ [(req_Context req, CancelCtx (req_Context req))]"
  proof (cases "accept (req_Body req)")
    case (Inl e)
    obtain action err j where "e = (action, err, j)" by (cases e)
    with rejects(2) [of req action err j s] Inl show ?thesis by simp
  next
    case (Inr q)
    obtain r d where "run_state (op (monitor_env lg (req_Context req)) q) (srv_driver s) = (r, d)" by fastforce
    from accepts(3) [OF Inr this] show ?thesis by simp
  qed
qed

end

lemma table_watches: "list_all (\<lambda>(name, h). watches_own h) (server_handlers fl lg client)"
  by (simp add: server_handlers_def serve_activate.watches serve_get.watches serve_list.watches
      serve_path.watches serve_create.watches serve_mount.watches serve_unmount.watches
      serve_remove.watches serve_capabilities.watches)

lemma ServeHTTP_watches: "watches_own (ServeHTTP (server_mux fl lg0 client))"
  unfolding watches_own_def
proof (intro allI)
  fix req :: server_request and s
  let ?s' = "snd (run_state (ServeHTTP (server_mux fl lg0 client) req) s)"
  show "srv_monitors ?s' = srv_monitors s \<or>
      srv_monitors ?s' = srv_monitors s @ [(req_Context req, CancelCtx (req_Context req))]"
  proof (cases "find (\<lambda>r. Route_Path r = req_Path req) Routes")
    case None
    then show ?thesis by (simp add: ServeHTTP_def server_mux_def mux_choose_Routes run_http_Error)
  next
    case (Some rt)
    then have rt: "rt \<in> set Routes" by (auto simp: find_Some_iff)
    obtain h where h: "map_of (server_handlers fl (Session lg0 ''server'') client) (Route_Name rt) = Some h"
      using server_handlers_complete [OF rt] by fastforce
    have "watches_own h"
      using table_watches [where fl = fl and lg = "Session lg0 ''server''" and client = client] map_of_SomeD [OF h]
      by (auto simp: list_all_iff)
    with Some h show ?thesis
      by (simp add: ServeHTTP_def server_mux_def mux_choose_Routes run_http_Error watches_own_def)
  qed
qed

section \<open>Serialisability of the server\<close>

lemma serving_order:
  assumes "world_run (serving fl lg0 client reqs d) is c" and "all_served c"
  shows "\<exists>ord. mset ord = mset [0..<length reqs] \<and> in_real_time is ord \<and>
    w_driver c = driver_after (serve_one (server_mux fl lg0 client) reqs) ord d \<and>
    list_all (\<lambda>(i, s). view c i = s\<lparr>srv_driver := w_driver c\<rparr>)
      (one_by_one (serve_one (server_mux fl lg0 client) reqs) ord d)"
proof -
  let ?c0 = "serving fl lg0 client reqs d" and ?serve = "serve_one (server_mux fl lg0 client) reqs"
  from serialisable [OF assms(1) serving_one_call assms(2)] obtain ord where
    ord: "mset ord = mset [0..<length reqs]" "in_real_time is ord" "w_driver c = driver_after (alone ?c0) ord d"
      "list_all (\<lambda>(i, s). view c i = s\<lparr>srv_driver := w_driver c\<rparr>) (one_by_one (alone ?c0) ord d)" by auto
  have "set ord = {0..<length reqs}" using mset_eq_setD [OF ord(1)] by simp
  then have "list_all (\<lambda>i. alone ?c0 i = ?serve i) ord"
    by (simp add: list_all_iff alone_serving)
  from one_by_one_cong [OF this, of d] ord show ?thesis by auto
qed

lemma serving_driver:
  assumes "world_run (serving fl lg0 client reqs d) is c"
  shows "\<exists>ord. w_driver c = driver_after (serve_one (server_mux fl lg0 client) reqs) ord d"
proof -
  let ?c0 = "serving fl lg0 client reqs d"
  obtain ord where ser: "serialised ?c0 is ord c"
    using serialised_run [OF assms serving_one_call] by blast
  then have "list_all (\<lambda>i. alone ?c0 i = serve_one (server_mux fl lg0 client) reqs i) ord"
    by (simp add: serialised_def list_all_iff alone_serving)
  from one_by_one_cong [OF this, of d] ser show ?thesis by (auto simp: serialised_def)
qed

lemma one_by_one_some: "r \<in> set (one_by_one R is d) \<Longrightarrow> \<exists>d'. snd r = R (fst r) d'"
  by (induction "is" arbitrary: d) auto

lemma serve_one_monitors:
  "srv_monitors (serve_one (server_mux fl lg0 client) reqs i d) \<in>
    {[], [(req_Context (snd (reqs ! i)), CancelCtx (req_Context (snd (reqs ! i))))]}"
proof -
  obtain b req where r: "reqs ! i = (b, req)" by (cases "reqs ! i")
  have none: "srv_monitors (local_state d (fresh_writer b)) = []" by (simp add: local_state_def)
  from ServeHTTP_watches [of fl lg0 client, unfolded watches_own_def, rule_format, of req "local_state d (fresh_writer b)"]
  show ?thesis by (auto simp: serve_one_def r none)
qed

lemma serving_monitors:
  assumes "world_run (serving fl lg0 client reqs d) is c" and "all_served c" and "i < length reqs"
  shows "own i (w_monitors c) \<in> {[], [(req_Context (snd (reqs ! i)), CancelCtx (req_Context (snd (reqs ! i))))]}"
proof -
  let ?serve = "serve_one (server_mux fl lg0 client) reqs"
  obtain ord where ord: "mset ord = mset [0..<length reqs]"
    "list_all (\<lambda>(i, s). view c i = s\<lparr>srv_driver := w_driver c\<rparr>) (one_by_one ?serve ord d)"
    using serving_order [OF assms(1,2)] by blast
  have "i \<in> set ord" using mset_eq_setD [OF ord(1)] assms(3) by simp
  then obtain s where s: "(i, s) \<in> set (one_by_one ?serve ord d)"
    unfolding one_by_one_mem [of i ord ?serve d] ..
  with ord(2) have "view c i = s\<lparr>srv_driver := w_driver c\<rparr>" by (auto simp: list_all_iff)
  from arg_cong [OF this, of srv_monitors] have "own i (w_monitors c) = srv_monitors s" by (simp add: view_def)
  moreover obtain d' where "s = ?serve i d'" using one_by_one_some [OF s] by auto
  ultimately show ?thesis using serve_one_monitors [of fl lg0 client reqs i d'] by simp
qed

section \<open>The answer of a request\<close>

definition answer_status :: "server_request \<Rightarrow> nat" where
  "answer_status req =
     (case find (\<lambda>r. Route_Path r = req_Path req) Routes of
        None \<Rightarrow> 404
      | Some r \<Rightarrow> if req_Method req = ''POST'' then 200 else 405)"

lemma serve_one_status: "rw_status (srv_rw (serve_one (server_mux fl lg0 client) reqs i d)) = Some (answer_status (snd (reqs ! i)))"
proof -
  obtain b req where r: "reqs ! i = (b, req)" by (cases "reqs ! i")
  let ?s = "local_state d (fresh_writer b)"
  have fresh: "srv_rw ?s = fresh_writer b" by (simp add: local_state_def)
  show ?thesis
  proof (cases "find (\<lambda>r. Route_Path r = req_Path req) Routes")
    case None
    then show ?thesis
      by (simp add: serve_one_def r answer_status_def ServeHTTP_def server_mux_def mux_choose_Routes run_http_Error
          local_state_def writer_defs)
  next
    case (Some rt)
    then have rt: "rt \<in> set Routes" by (auto simp: find_Some_iff)
    obtain h where h: "map_of (server_handlers fl (Session lg0 ''server'') client) (Route_Name rt) = Some h"
      using server_handlers_complete [OF rt] by fastforce
    have "answers_in (route_answers (Route_Name rt)) h"
      using handlers_answer_in [where fl = fl and lg = "Session lg0 ''server''" and client = client] map_of_SomeD [OF h]
      by (auto simp: list_all_iff)
    then obtain j where "srv_rw (snd (run_state (h req) ?s)) = json_response j (srv_rw ?s)"
      unfolding answers_in_def by blast
    moreover have "rw_status (json_response j (fresh_writer b)) = Some 200"
      by (simp add: json_response_def writer_defs)
    ultimately have "rw_status (srv_rw (snd (run_state (h req) ?s))) = Some 200" by (simp only: fresh)
    with Some h show ?thesis
      by (simp add: serve_one_def r answer_status_def ServeHTTP_def server_mux_def mux_choose_Routes run_http_Error
          fresh write_body_def write_header_def set_header_def del_header_def) (simp add: fresh_writer_def)
  qed
qed

text \<open>A request that has returned has done what it does when served alone in some state of the driver,
  whatever the others have still to do.\<close>

lemma returned_view:
  assumes "world_run (serving fl lg0 client reqs d) is c" and "i < length reqs" and "remaining c i = Returned"
  shows "\<exists>d'. view c i = (serve_one (server_mux fl lg0 client) reqs i d')\<lparr>srv_driver := w_driver c\<rparr>"
proof -
  let ?c0 = "serving fl lg0 client reqs d"
  obtain ord where ser: "serialised ?c0 is ord c"
    using serialised_run [OF assms(1) serving_one_call] by blast
  then have "i \<in> set ord" using assms(2,3) by (auto simp: serialised_def)
  then obtain s where s: "(i, s) \<in> set (one_by_one (alone ?c0) ord (w_driver ?c0))"
    unfolding one_by_one_mem [of i ord "alone ?c0" "w_driver ?c0"] ..
  with ser have "called_as c (i, s)" by (auto simp: serialised_def list_all_iff)
  then have "view c i = s\<lparr>srv_driver := w_driver c\<rparr>"
    using alone_returned [OF assms(3), of "w_driver c"] by (simp add: called_as_def)
  moreover obtain d' where "s = alone ?c0 i d'" using one_by_one_some [OF s] by auto
  ultimately show ?thesis using alone_serving [OF assms(2), of fl lg0 client d] by auto
qed

section \<open>Properties\<close>

text \<open>Property C4. However the effects of concurrent requests interleave, there is an order of the
  requests, in which one that returned before another began comes first, such that serving them
  one at a time in it gives the driver's final state and, for each request, the same response,
  the same log entries in their order and the same goroutines.\<close>

theorem concurrent_requests:
  assumes "world_run (serving fl lg0 client reqs d) is c" and "all_served c"
    and "alone_serve = serve_one (server_mux fl lg0 client) reqs"
  shows "\<exists>ord. mset ord = mset [0..<length reqs] \<and> in_real_time is ord \<and>
    w_driver c = driver_after alone_serve ord d \<and>
    list_all (\<lambda>(i, s). view c i = s\<lparr>srv_driver := w_driver c\<rparr>) (one_by_one alone_serve ord d)"
  unfolding assms(3) by (rule serving_order [OF assms(1,2)])

text \<open>Property C5. What every operation of a driver keeps on requests with names in UTF-8 holds in every
  state concurrent requests can bring it to, finished or not.\<close>

theorem concurrent_invariant:
  assumes kept: "\<And>env d j d'. driver_step client env d j d' \<Longrightarrow> I d \<Longrightarrow> I d'" and "I d"
    and "world_run (serving fl lg0 client reqs d) is c"
  shows "I (w_driver c)"
proof -
  let ?serve = "serve_one (server_mux fl lg0 client) reqs"
  have step: "I (srv_driver (?serve i d))" if "I d" for i d
  proof -
    obtain b req where r: "reqs ! i = (b, req)" by (cases "reqs ! i")
    let ?s = "local_state d (fresh_writer b)"
    have "srv_driver ?s = d" by (simp add: local_state_def)
    moreover have "srv_driver (?serve i d) = srv_driver ?s \<or>
        (\<exists>env j. driver_step client env (srv_driver ?s) j (srv_driver (?serve i d)))"
      using server_one_step [of client fl lg0] unfolding one_step_handler_def Let_def serve_one_def r prod.case by blast
    ultimately show ?thesis using that kept by auto
  qed
  have "I (driver_after ?serve ord d)" for ord
    using assms(2) by (induction ord arbitrary: d) (simp_all add: step)
  with serving_driver [OF assms(3)] show ?thesis by auto
qed

text \<open>Property C6. Every request is answered. In any schedule it makes at most eight effects; until it has
  returned it can make the next one itself, wherever the others are; and once it has returned its
  response has been written, with status 200 for a POST to one of the nine paths, 405 for another
  method on such a path and 404 for any other path. That it need not wait for the others rests on
  the code: a handler takes no lock, and a call of the driver is one step here.\<close>

theorem concurrent_ends:
  assumes "world_run (serving fl lg0 client reqs d) is c"
  shows "list_all (\<lambda>i. i < length reqs) is \<and>
    list_all (\<lambda>i. count_list is i \<le> 8 \<and>
      (if remaining c i = Returned then rw_status (srv_rw (view c i)) = Some (answer_status (snd (reqs ! i)))
       else \<exists>c'. world_step c i c')) [0..<length reqs]"
proof -
  have "\<forall>i < length reqs. at_most (remaining (serving fl lg0 client reqs d) i) 8"
    using request_threads [of fl lg0 client, unfolded thread_of_def] by simp
  from world_run_bound [OF assms, of 8] this have bounds: "list_all (\<lambda>i. i < length reqs) is"
    "\<forall>i < length reqs. count_list is i \<le> 8" and len: "length (w_threads c) = length reqs" by simp_all
  have "rw_status (srv_rw (view c i)) = Some (answer_status (snd (reqs ! i)))"
    if i: "i < length reqs" "remaining c i = Returned" for i
  proof -
    obtain d' where "view c i = (serve_one (server_mux fl lg0 client) reqs i d')\<lparr>srv_driver := w_driver c\<rparr>"
      using returned_view [OF assms i] by blast
    from arg_cong [OF this, of "\<lambda>s. rw_status (srv_rw s)"] show ?thesis by (simp add: serve_one_status)
  qed
  with bounds thread_progress [of _ c] show ?thesis unfolding len by (simp add: list_all_iff)
qed

text \<open>Property C7. A finished request has started at most one goroutine, whatever ran beside it, and that
  one watches the request's own context and cancels its child; once \<^verbatim>\<open>net/http\<close> has ended the
  context, as it does when the handler has returned, the goroutine can exit with no more than
  three moves of its own, from any state it can be in.\<close>

theorem concurrent_monitors:
  assumes "world_run (serving fl lg0 client reqs d) is c" and "all_served c" and "i < length reqs"
    and "cx = req_Context (snd (reqs ! i))" and "reaches es m" and "ParentDone \<in> set es"
  shows "own i (w_monitors c) \<in> {[], [(cx, CancelCtx cx)]} \<and>
    (\<exists>es' m'. monitor_run m es' m' \<and> mon_routine m' = Exited \<and> list_all goroutine_move es' \<and> length es' \<le> 3)"
proof
  show "own i (w_monitors c) \<in> {[], [(cx, CancelCtx cx)]}"
    unfolding assms(4) by (rule serving_monitors [OF assms(1-3)])
  have "mon_parent m" using monitor_run_history [OF assms(5) refl] assms(6) by blast
  then show "\<exists>es' m'. monitor_run m es' m' \<and> mon_routine m' = Exited \<and> list_all goroutine_move es' \<and> length es' \<le> 3"
    by (rule goroutine_finishes)
qed

section \<open>Instances\<close>

text \<open>Two requests to mount the same volume, their effects alternating, and the second one first
  at the driver.\<close>

definition demo_mount :: server_request where
  "demo_mount = (demo_request (print_json (MountRequest_json \<lparr>MountRequest_Name = ''v''\<rparr>)) None)\<lparr>req_Path := ''/VolumeDriver.Mount''\<rparr>"

definition demo_serving :: "demo_state world" where
  "demo_serving = serving no_floats ''srv'' demo_driver [(True, demo_mount), (False, demo_mount)] [(''v'', 0)]"

abbreviation demo_schedule :: "nat list" where
  "demo_schedule \<equiv> [0, 1, 0, 1, 0, 1, 0, 1, 1, 0, 0, 1, 0, 1]"

lemma demo_accepted: "accept_mount (req_Body demo_mount) = Inr \<lparr>MountRequest_Name = ''v''\<rparr>"
  using demo_name_body(1)
  by (simp add: demo_mount_def demo_request_def accept_mount_def accept_json_marshalled del: print_json.simps)

lemma demo_mount_thread:
  "request_thread no_floats ''srv'' demo_driver demo_mount =
    (let lg = Session (Session ''srv'' ''server'') ''handle-mount''; wc = Session lg ''with-cancel'';
         fin = LogEntry INFO (lg @ ''.end'') None; cx = req_Context demo_mount
     in Log (LogEntry INFO (lg @ ''.start'') None) (Log (LogEntry DEBUG (wc @ ''.start'') None)
       (StartMonitor (cx, CancelCtx cx) (Log (LogEntry DEBUG (wc @ ''.end'') None)
         (call_driver (Driver_Mount demo_driver (monitor_env lg cx) \<lparr>MountRequest_Name = ''v''\<rparr>)
           (\<lambda>r. log_all (error_note lg ''failed-mounting-volume'' (MountResponse_Err r))
             (Write (json_response (MountResponse_json r)) (Log fin Returned))))))))"
proof -
  have "req_Method demo_mount = ''POST''" "req_Path demo_mount = ''/VolumeDriver.Mount''"
    by (simp_all add: demo_mount_def demo_request_def)
  moreover have "find (\<lambda>r. Route_Path r = ''/VolumeDriver.Mount'') Routes = Some (post_route ''/VolumeDriver.Mount'' MountRoute)"
    by (simp add: Routes_def post_route_def)
  ultimately have "request_thread no_floats ''srv'' demo_driver demo_mount =
      serve_thread INFO (Session (Session ''srv'' ''server'') ''handle-mount'') accept_mount (Driver_Mount demo_driver)
        MountResponse_json (\<lambda>r. error_note (Session (Session ''srv'' ''server'') ''handle-mount'')
          ''failed-mounting-volume'' (MountResponse_Err r)) demo_mount"
    by (simp add: request_thread_def mux_choose_Routes) (simp add: post_route_def server_threads_def route_name_defs)
  then show ?thesis by (simp add: serve_thread_def demo_accepted Let_def)
qed

lemma demo_mount_run:
  "run_state (Driver_Mount demo_driver env \<lparr>MountRequest_Name = ''v''\<rparr>) [(''v'', n)] =
    (\<lparr>MountResponse_Err = '''', MountResponse_Mountpoint = ''/mnt/v''\<rparr>, [(''v'', Suc n)])"
  by (simp add: demo_driver_def)

lemma demo_scheduled:
  "\<exists>c. schedule demo_serving demo_schedule = Some c \<and> all_served c \<and> w_driver c = [(''v'', 2)]"
  by (simp add: demo_serving_def serving_def world_of_def demo_mount_thread Let_def step_at_def remaining_def
      local_state_def all_served_def call_driver_def demo_mount_run error_note_def)

lemma demo_served:
  "\<exists>c. world_run (serving no_floats ''srv'' demo_driver [(True, demo_mount), (False, demo_mount)] [(''v'', 0)]) demo_schedule c \<and>
    all_served c \<and> w_driver c = [(''v'', 2)]"
  using demo_scheduled schedule_sound unfolding demo_serving_def by blast

theorem concurrent_requests_witness:
  "\<exists>ord. mset ord = {#0, 1#} \<and>
    driver_after (serve_one (server_mux no_floats ''srv'' demo_driver) [(True, demo_mount), (False, demo_mount)]) ord [(''v'', 0)] = [(''v'', 2)]"
proof -
  obtain c where c: "world_run (serving no_floats ''srv'' demo_driver [(True, demo_mount), (False, demo_mount)] [(''v'', 0)]) demo_schedule c"
    "all_served c" "w_driver c = [(''v'', 2)]" using demo_served by blast
  from concurrent_requests [OF c(1,2) refl] c(3) show ?thesis by (auto simp: upt_rec)
qed

theorem concurrent_invariant_witness:
  "\<exists>c. world_run (serving no_floats ''srv'' demo_driver [(True, demo_mount), (False, demo_mount)] [(''v'', 0)]) demo_schedule c \<and>
    list_all (\<lambda>e. valid_utf8 (fst e)) (w_driver c)"
proof -
  obtain c where c: "world_run (serving no_floats ''srv'' demo_driver [(True, demo_mount), (False, demo_mount)] [(''v'', 0)]) demo_schedule c"
    using demo_served by blast
  have "list_all (\<lambda>e. valid_utf8 (fst e)) (w_driver c)"
    by (rule concurrent_invariant [where I = "list_all (\<lambda>e. valid_utf8 (fst e))", OF demo_names_kept _ c])
      (simp_all add: valid_utf8_ascii)
  with c show ?thesis by blast
qed

theorem concurrent_ends_witness:
  "\<exists>c. world_run (serving no_floats ''srv'' demo_driver [(True, demo_mount), (False, demo_mount)] [(''v'', 0)]) demo_schedule c \<and>
    rw_status (srv_rw (view c 1)) = Some 200 \<and> list_all (\<lambda>i. count_list demo_schedule i \<le> 8) [0, 1]"
proof -
  obtain c where c: "world_run (serving no_floats ''srv'' demo_driver [(True, demo_mount), (False, demo_mount)] [(''v'', 0)]) demo_schedule c"
    and served: "all_served c" using demo_served by blast
  note ends = concurrent_ends [OF c]
  have "length (w_threads c) = 2"
    using world_run_bound [OF c, of 8] request_threads [of no_floats "''srv''" demo_driver, unfolded thread_of_def] by auto
  then have "remaining c 1 = Returned"
    using served by (auto simp: all_served_def list_all_length remaining_def case_prod_beta)
  moreover have "answer_status demo_mount = 200"
    by (simp add: answer_status_def demo_mount_def demo_request_def Routes_def post_route_def)
  ultimately have "rw_status (srv_rw (view c 1)) = Some 200" using ends by (simp add: upt_rec)
  with c ends show ?thesis by (auto simp: upt_rec)
qed

theorem concurrent_monitors_witness:
  "\<exists>c es' m'. own 0 (w_monitors c) \<in> {[], [(RootCtx 0, CancelCtx (RootCtx 0))]} \<and> all_served (c :: demo_state world) \<and>
    monitor_run (monitor_start\<lparr>mon_parent := True\<rparr>) es' m' \<and> mon_routine m' = Exited"
proof -
  obtain c where c: "world_run (serving no_floats ''srv'' demo_driver [(True, demo_mount), (False, demo_mount)] [(''v'', 0)]) demo_schedule c"
    "all_served c" using demo_served by blast
  have ended: "reaches [ParentDone] (monitor_start\<lparr>mon_parent := True\<rparr>)"
    using monitor_run.snoc [OF monitor_run.nil parent_done [of monitor_start]] by (simp add: monitor_start_def)
  have cx: "0 < length [(True, demo_mount), (False, demo_mount)]"
    "RootCtx 0 = req_Context (snd ([(True, demo_mount), (False, demo_mount)] ! 0))"
    by (simp_all add: demo_mount_def demo_request_def)
  have "ParentDone \<in> set [ParentDone]" by simp
  from concurrent_monitors [OF c cx ended this] c(2) show ?thesis by meson
qed

end
