(* ===== verification/Server_Jobs.thy ===== *)
theory Server_Jobs
  imports Server_Concurrent Driver_Programs
begin

text \<open>
  What the server does for a request, apart from the driver it does it with. A \<open>job\<close> is a thread
  whose driver calls are names of calls, \<open>JobCall\<close>: the handlers of \<^verbatim>\<open>handlers.go\<close> as jobs do not
  depend on the driver (\<open>request_job\<close>), and with any driver they are the threads of
  \<open>Server_Concurrent\<close> (\<open>request_jobs\<close>). A driver whose calls take many steps can so be put behind
  the same server.
\<close>

section \<open>Jobs\<close>

datatype 'f job =
    JobDone
  | JobLog log_entry "'f job"
  | JobMonitor "ctx \<times> ctx" "'f job"
  | JobWrite "response_writer \<Rightarrow> response_writer" "'f job"
  | JobCall Env "'f call" "answer \<Rightarrow> 'f job"

primrec job_log_all :: "log_entry list \<Rightarrow> 'f job \<Rightarrow> 'f job" where
  "job_log_all [] t = t"
| "job_log_all (e # es) t = JobLog e (job_log_all es t)"

text \<open>The thread of a job over a driver.\<close>

primrec job_thread :: "('f, 's) Driver \<Rightarrow> 'f job \<Rightarrow> 's thread" where
  "job_thread drv JobDone = Returned"
| "job_thread drv (JobLog e t) = Log e (job_thread drv t)"
| "job_thread drv (JobMonitor p t) = StartMonitor p (job_thread drv t)"
| "job_thread drv (JobWrite f t) = Write f (job_thread drv t)"
| "job_thread drv (JobCall env c k) = call_driver (exec_call drv env c) (\<lambda>a. job_thread drv (k a))"

lemma job_thread_log_all [simp]: "job_thread drv (job_log_all es t) = log_all es (job_thread drv t)"
  by (induction es) simp_all

text \<open>The call a job makes first, if any, and jobs that make no other.\<close>

primrec job_call :: "'f job \<Rightarrow> (Env \<times> 'f call) option" where
  "job_call JobDone = None"
| "job_call (JobLog e t) = job_call t"
| "job_call (JobMonitor p t) = job_call t"
| "job_call (JobWrite f t) = job_call t"
| "job_call (JobCall env c k) = Some (env, c)"

primrec single_call :: "'f job \<Rightarrow> bool" where
  "single_call JobDone \<longleftrightarrow> True"
| "single_call (JobLog e t) \<longleftrightarrow> single_call t"
| "single_call (JobMonitor p t) \<longleftrightarrow> single_call t"
| "single_call (JobWrite f t) \<longleftrightarrow> single_call t"
| "single_call (JobCall env c k) \<longleftrightarrow> (\<forall>a. job_call (k a) = None \<and> single_call (k a))"

lemma job_call_log_all [simp]: "job_call (job_log_all es t) = job_call t" "single_call (job_log_all es t) = single_call t"
  by (induction es) simp_all

text \<open>The effects of a job whose call is answered \<open>a\<close>.\<close>

primrec job_effects :: "'f job \<Rightarrow> answer \<Rightarrow> 's server_state \<Rightarrow> 's server_state" where
  "job_effects JobDone a s = s"
| "job_effects (JobLog e t) a s = job_effects t a (s\<lparr>log := log s @ [e]\<rparr>)"
| "job_effects (JobMonitor p t) a s =
     job_effects t a (s\<lparr>srv_monitors := srv_monitors s @ (if rw_close_notifier (srv_rw s) then [p] else [])\<rparr>)"
| "job_effects (JobWrite f t) a s = job_effects t a (s\<lparr>srv_rw := f (srv_rw s)\<rparr>)"
| "job_effects (JobCall env c k) a s = job_effects (k a) a s"

lemma job_effects_driver: "job_effects t a (s\<lparr>srv_driver := d\<rparr>) = (job_effects t a s)\<lparr>srv_driver := d\<rparr>"
  by (induction t arbitrary: s) (simp_all add: driver_update_commute)

lemma job_effects_quiet: "job_call t = None \<Longrightarrow> job_effects t a s = job_effects t b s"
  by (induction t arbitrary: s) simp_all

lemma solo_quiet_job: "job_call t = None \<Longrightarrow> solo (job_thread drv t) s = job_effects t a s"
  by (induction t arbitrary: s) simp_all

lemma solo_job:
  assumes "single_call t" and "job_call t = Some (env, c)" and "run_state (exec_call drv env c) (srv_driver s) = (a, d)"
  shows "solo (job_thread drv t) s = (job_effects t a s)\<lparr>srv_driver := d\<rparr>"
  using assms
proof (induction t arbitrary: s)
  case (JobCall env' c' k)
  then show ?case using solo_quiet_job [of "k a" drv _ a] by (simp add: job_effects_driver)
qed simp_all

section \<open>The handlers as jobs\<close>

definition serve_job ::
  "log_level \<Rightarrow> logger \<Rightarrow> (reader \<Rightarrow> reject + 'q) \<Rightarrow> ('q \<Rightarrow> 'f call) \<Rightarrow> (answer \<Rightarrow> log_entry list) \<Rightarrow>
    server_request \<Rightarrow> 'f job" where
  "serve_job lvl lg accept mk remark req =
     (let fin = LogEntry lvl (lg @ ''.end'') None; cx = req_Context req; wc = Session lg ''with-cancel''
      in JobLog (LogEntry lvl (lg @ ''.start'') None)
        (case accept (req_Body req) of
           Inl (action, err, j) \<Rightarrow>
             JobLog (LogEntry ERROR (lg @ ''.'' @ action) (Some (Error err)))
               (JobWrite (json_response j) (JobLog fin JobDone))
         | Inr q \<Rightarrow>
             JobLog (LogEntry DEBUG (wc @ ''.start'') None)
               (JobMonitor (cx, CancelCtx cx)
                 (JobLog (LogEntry DEBUG (wc @ ''.end'') None)
                   (JobCall (monitor_env lg cx) (mk q)
                     (\<lambda>a. job_log_all (remark a) (JobWrite (json_response (answer_json a)) (JobLog fin JobDone))))))))"

lemma serve_job_single: "single_call (serve_job lvl lg accept mk remark req)"
  by (simp add: serve_job_def Let_def split: sum.split)

text \<open>With a driver whose operation \<open>op\<close> the call names, it is the handler's thread.\<close>

lemma serve_job_thread:
  assumes "\<And>env q. exec_call drv env (mk q) = do { r \<leftarrow> op env q; State_Monad.return (wrap r) }"
    and "\<And>r. answer_json (wrap r) = enc r" and "\<And>r. remark (wrap r) = entries r"
  shows "job_thread drv (serve_job lvl lg accept mk remark req) = serve_thread lvl lg accept op enc entries req"
  by (simp add: serve_job_def serve_thread_def Let_def assms call_driver_def case_prod_beta split: sum.split)

text \<open>The entry a handler makes of its answer: the error of the operation, or what it logs on success.\<close>

fun answer_error :: "answer \<Rightarrow> string" where
  "answer_error (ActivateAnswer r) = ActivateResponse_Err r"
| "answer_error (GetAnswer r) = GetResponse_Err r"
| "answer_error (ListAnswer r) = ListResponse_Err r"
| "answer_error (MountAnswer r) = MountResponse_Err r"
| "answer_error (PathAnswer r) = PathResponse_Err r"
| "answer_error (ErrorAnswer r) = ErrorResponse_Err r"
| "answer_error (CapabilitiesAnswer r) = ''''"

definition server_jobs :: "'f strconv \<Rightarrow> logger \<Rightarrow> (string \<times> (server_request \<Rightarrow> 'f job)) list" where
  "server_jobs fl lg =
     [(ActivateRoute, serve_job DEBUG (Session lg ''handle-activate'') accept_any (\<lambda>_. CallActivate)
        (\<lambda>a. if answer_error a \<noteq> '''' then error_note (Session lg ''handle-activate'') ''failed-activating-driver'' (answer_error a)
             else [LogEntry DEBUG (Session lg ''handle-activate'' @ ''.activate-response'') None])),
      (GetRoute, serve_job INFO (Session lg ''handle-get'') accept_get CallGet
        (\<lambda>a. if answer_error a \<noteq> '''' then [LogEntry ERROR (Session lg ''handle-get'' @ ''.failed-getting-volume'') None] else [])),
      (ListRoute, serve_job INFO (Session lg ''handle-list'') accept_any (\<lambda>_. CallList)
        (\<lambda>a. error_note (Session lg ''handle-list'') ''failed-listing-volumes'' (answer_error a))),
      (PathRoute, serve_job INFO (Session lg ''handle-path'') accept_path CallPath
        (\<lambda>a. error_note (Session lg ''handle-path'') ''failed-activating-driver'' (answer_error a))),
      (CreateRoute, serve_job INFO (Session lg ''handle-create'') (accept_create fl) CallCreate
        (\<lambda>a. error_note (Session lg ''handle-create'') ''failed-creating-volume'' (answer_error a))),
      (MountRoute, serve_job INFO (Session lg ''handle-mount'') accept_mount CallMount
        (\<lambda>a. error_note (Session lg ''handle-mount'') ''failed-mounting-volume'' (answer_error a))),
      (UnmountRoute, serve_job INFO (Session lg ''handle-unmount'') accept_unmount CallUnmount
        (\<lambda>a. error_note (Session lg ''handle-unmount'') ''failed-unmount-volume'' (answer_error a))),
      (RemoveRoute, serve_job INFO (Session lg ''handle-remove'') accept_remove CallRemove
        (\<lambda>a. error_note (Session lg ''handle-remove'') ''failed-remove-volume'' (answer_error a))),
      (CapabilitiesRoute, serve_job INFO (Session lg ''handle-capabilities'') accept_any (\<lambda>_. CallCapabilities)
        (\<lambda>a. [LogEntry DEBUG (Session lg ''handle-capabilities'' @ ''.capabilities-response'') None]))]"

text \<open>\<open>job_of t j\<close>: the job \<open>j\<close> is the thread \<open>t\<close> over the driver.\<close>

definition job_of :: "('f, 's) Driver \<Rightarrow> (server_request \<Rightarrow> 's thread) \<Rightarrow> (server_request \<Rightarrow> 'f job) \<Rightarrow> bool" where
  "job_of drv t j \<longleftrightarrow> (\<forall>req. job_thread drv (j req) = t req \<and> single_call (j req))"

lemma job_of_serve:
  assumes "\<And>env q. exec_call drv env (mk q) = do { r \<leftarrow> op env q; State_Monad.return (wrap r) }"
    and "\<And>r. answer_json (wrap r) = enc r" and "\<And>r. remark (wrap r) = entries r"
  shows "job_of drv (serve_thread lvl lg accept op enc entries) (serve_job lvl lg accept mk remark)"
proof -
  note thread = serve_job_thread [where drv = drv and mk = mk and op = op and wrap = wrap and enc = enc
      and remark = remark and entries = entries, OF assms]
  show ?thesis unfolding job_of_def by (simp add: thread serve_job_single)
qed

lemma jobs_match:
  "list_all2 (\<lambda>(n, t) (n', j). n = n' \<and> job_of client t j) (server_threads fl lg client) (server_jobs fl lg)"
  unfolding server_threads_def server_jobs_def list_all2_Cons list_all2_Nil prod.case
  by (intro conjI refl TrueI
      job_of_serve [where wrap = ActivateAnswer] job_of_serve [where wrap = GetAnswer] job_of_serve [where wrap = ListAnswer]
      job_of_serve [where wrap = PathAnswer] job_of_serve [where wrap = MountAnswer] job_of_serve [where wrap = ErrorAnswer]
      job_of_serve [where wrap = CapabilitiesAnswer]) simp_all

section \<open>Requests as jobs\<close>

definition request_job :: "'f strconv \<Rightarrow> logger \<Rightarrow> server_request \<Rightarrow> 'f job" where
  "request_job fl lg0 req =
     (case mux_choose [(''POST'', route_handlers Routes (server_jobs fl (Session lg0 ''server'')))]
         (req_Method req) (req_Path req) of
        Dispatch j ps \<Rightarrow> j req
      | Redirect \<Rightarrow> JobWrite (\<lambda>w. write_header 301 (set_header ''Location'' (req_Path req @ ''/'') w)) JobDone
      | NotFound \<Rightarrow> JobWrite (error_page ''404 page not found'' 404) JobDone
      | MethodNotAllowed allowed \<Rightarrow>
          JobWrite (\<lambda>w. error_page ''Method Not Allowed'' 405 (set_header ''Allow'' (Join allowed '', '') w)) JobDone)"

lemma request_jobs: "job_of client (request_thread fl lg0 client) (request_job fl lg0)"
  unfolding job_of_def
proof
  fix req :: server_request
  let ?lg = "Session lg0 ''server''"
  let ?ok = "\<lambda>t j. job_thread client (j req) = t req \<and> single_call (j req)"
  show "?ok (request_thread fl lg0 client) (request_job fl lg0)"
  proof (cases "find (\<lambda>r. Route_Path r = req_Path req) Routes")
    case None
    then show ?thesis by (simp add: request_thread_def request_job_def mux_choose_Routes)
  next
    case (Some rt)
    then have rt: "rt \<in> set Routes" by (auto simp: find_Some_iff)
    obtain h where h: "map_of (server_handlers fl ?lg client) (Route_Name rt) = Some h"
      using server_handlers_complete [OF rt] by fastforce
    from map_of_match [OF threads_match h] obtain t where
      t: "map_of (server_threads fl ?lg client) (Route_Name rt) = Some t" by blast
    from map_of_match [OF jobs_match t] obtain j where
      j: "map_of (server_jobs fl ?lg) (Route_Name rt) = Some j" "job_of client t j" by blast
    then have "?ok t j" unfolding job_of_def by blast
    with Some t j(1) show ?thesis by (simp add: request_thread_def request_job_def mux_choose_Routes)
  qed
qed

text \<open>Serving a request: what its job does, with the answer of its call if it makes one.\<close>

lemma serve_one_job:
  assumes "i < length reqs" and "reqs ! i = (closeNotifier, req)"
  shows "job_call (request_job fl lg0 req) = None \<Longrightarrow>
      serve_one (server_mux fl lg0 client) reqs i d = job_effects (request_job fl lg0 req) a (local_state d (fresh_writer closeNotifier))"
    and "job_call (request_job fl lg0 req) = Some (env, c) \<Longrightarrow> run_state (exec_call client env c) d = (a, d') \<Longrightarrow>
      serve_one (server_mux fl lg0 client) reqs i d =
        (job_effects (request_job fl lg0 req) a (local_state d (fresh_writer closeNotifier)))\<lparr>srv_driver := d'\<rparr>"
proof -
  have thread: "job_thread client (request_job fl lg0 req) = request_thread fl lg0 client req"
    and single: "single_call (request_job fl lg0 req)"
    using request_jobs [of client fl lg0] unfolding job_of_def by blast+
  have serve: "serve_one (server_mux fl lg0 client) reqs i d =
      solo (job_thread client (request_job fl lg0 req)) (local_state d (fresh_writer closeNotifier))"
    using request_threads [of fl lg0 client] unfolding thread_of_def thread by (simp add: serve_one_def assms(2))
  have driver: "srv_driver (local_state d (fresh_writer closeNotifier)) = d" by (simp add: local_state_def)
  show "serve_one (server_mux fl lg0 client) reqs i d = job_effects (request_job fl lg0 req) a (local_state d (fresh_writer closeNotifier))"
    if "job_call (request_job fl lg0 req) = None"
    unfolding serve by (rule solo_quiet_job [OF that])
  show "serve_one (server_mux fl lg0 client) reqs i d =
      (job_effects (request_job fl lg0 req) a (local_state d (fresh_writer closeNotifier)))\<lparr>srv_driver := d'\<rparr>"
    if "job_call (request_job fl lg0 req) = Some (env, c)" and "run_state (exec_call client env c) d = (a, d')"
    unfolding serve by (rule solo_job [OF single that(1)]) (simp add: driver that(2))
qed

end
