(* ===== verification/Fake_Method.thy ===== *)
theory Fake_Method
  imports Client_Spec
begin

text \<open>
  A method of a test double of \<^verbatim>\<open>dockerdriverfakes\<close>, as counterfeiter generates it. Every method
  of every fake keeps the same four pieces of state, the record \<open>fake_method\<close>, and a fake adds
  the invocations by method name. A stub is a function of the caller's and runs on the caller's
  state, the world \<open>'w\<close>; the mutexes are left to \<open>Fake_Locks\<close>, each method being one step here. The locale
  \<open>fake_call\<close> is what a test relies on in one call, \<open>fake_api\<close> what it relies on in any use of the
  method; every faked method of the five fakes interprets it.
\<close>

section \<open>The state of a faked method\<close>

record ('w, 'a, 'r) fake_method =
  fm_Stub :: "('a \<Rightarrow> ('w, 'r) state) nilable"
  fm_ArgsForCall :: "'a list"
  fm_Returns :: 'r
  fm_ReturnsOnCall :: "(int \<times> 'r) list nilable"

definition fm_new :: "'r \<Rightarrow> ('w, 'a, 'r) fake_method" where
  "fm_new zero = \<lparr>fm_Stub = None, fm_ArgsForCall = [], fm_Returns = zero, fm_ReturnsOnCall = None\<rparr>"

definition fm_specific :: "('w, 'a, 'r) fake_method \<Rightarrow> int \<Rightarrow> 'r option" where
  "fm_specific m i = (case fm_ReturnsOnCall m of None \<Rightarrow> None | Some rs \<Rightarrow> map_of rs i)"

text \<open>What a call does: look up the answer for its number, record the arguments, then run the
  stub, or return the specific answer, or the general one.\<close>

definition fm_record :: "'a \<Rightarrow> ('w, 'a, 'r) fake_method \<Rightarrow> ('w, 'a, 'r) fake_method" where
  "fm_record a m = m\<lparr>fm_ArgsForCall := fm_ArgsForCall m @ [a]\<rparr>"

definition fm_answer :: "('w, 'a, 'r) fake_method \<Rightarrow> 'a \<Rightarrow> ('w, 'r) state" where
  "fm_answer m a =
     (case fm_Stub m of
        Some stub \<Rightarrow> stub a
      | None \<Rightarrow>
          (case fm_specific m (int (length (fm_ArgsForCall m))) of
             Some r \<Rightarrow> State_Monad.return r
           | None \<Rightarrow> State_Monad.return (fm_Returns m)))"

definition fm_CallCount :: "('w, 'a, 'r) fake_method \<Rightarrow> nat" where
  "fm_CallCount m = length (fm_ArgsForCall m)"

definition fm_Calls :: "('a \<Rightarrow> ('w, 'r) state) nilable \<Rightarrow> ('w, 'a, 'r) fake_method \<Rightarrow> ('w, 'a, 'r) fake_method" where
  "fm_Calls stub m = m\<lparr>fm_Stub := stub\<rparr>"

text \<open>\<open>None\<close> is the panic of an index out of range.\<close>

definition fm_ArgsAt :: "int \<Rightarrow> ('w, 'a, 'r) fake_method \<Rightarrow> 'a option" where
  "fm_ArgsAt i m =
     (if 0 \<le> i \<and> i < int (length (fm_ArgsForCall m)) then Some (fm_ArgsForCall m ! nat i) else None)"

definition fm_SetReturns :: "'r \<Rightarrow> ('w, 'a, 'r) fake_method \<Rightarrow> ('w, 'a, 'r) fake_method" where
  "fm_SetReturns r m = m\<lparr>fm_Stub := None, fm_Returns := r\<rparr>"

definition fm_SetReturnsOnCall :: "int \<Rightarrow> 'r \<Rightarrow> ('w, 'a, 'r) fake_method \<Rightarrow> ('w, 'a, 'r) fake_method" where
  "fm_SetReturnsOnCall i r m =
     m\<lparr>fm_Stub := None,
       fm_ReturnsOnCall := Some ((i, r) # (case fm_ReturnsOnCall m of None \<Rightarrow> [] | Some rs \<Rightarrow> filter (\<lambda>e. fst e \<noteq> i) rs))\<rparr>"

lemma fm_ArgsForCall_simps [simp]:
  "fm_ArgsForCall (fm_record a m) = fm_ArgsForCall m @ [a]"
  "fm_ArgsForCall (fm_Calls stub m) = fm_ArgsForCall m"
  "fm_ArgsForCall (fm_SetReturns r m) = fm_ArgsForCall m"
  "fm_ArgsForCall (fm_SetReturnsOnCall i r m) = fm_ArgsForCall m"
  "fm_ArgsForCall (fm_new zero) = []"
  by (simp_all add: fm_record_def fm_Calls_def fm_SetReturns_def fm_SetReturnsOnCall_def fm_new_def)

section \<open>Invocations\<close>

datatype 'f fake_arg =
    ArgEnv Env | ArgLogger logger | ArgString string | ArgTLS "TLSConfig nilable"
  | ArgCreate "'f CreateRequest" | ArgGet GetRequest | ArgMount MountRequest | ArgPath PathRequest
  | ArgRemove RemoveRequest | ArgUnmount UnmountRequest

type_synonym 'f invocations = "(string \<times> 'f fake_arg list list) list nilable"

definition record_invocation :: "string \<Rightarrow> 'f fake_arg list \<Rightarrow> 'f invocations \<Rightarrow> 'f invocations" where
  "record_invocation key args invs =
     (let m = (case invs of None \<Rightarrow> [] | Some m \<Rightarrow> m);
          calls = (case map_of m key of None \<Rightarrow> [] | Some cs \<Rightarrow> cs)
      in Some ((key, calls @ [args]) # filter (\<lambda>e. fst e \<noteq> key) m))"

definition invocations_of :: "string \<Rightarrow> 'f invocations \<Rightarrow> 'f fake_arg list list" where
  "invocations_of key invs =
     (case invs of None \<Rightarrow> [] | Some m \<Rightarrow> (case map_of m key of None \<Rightarrow> [] | Some cs \<Rightarrow> cs))"

lemma map_of_filter_key: "map_of (filter (\<lambda>e. fst e \<noteq> k) m) k' = (if k' = k then None else map_of m k')"
  by (induction m) auto

lemma invocations_of_record:
  "invocations_of k (record_invocation key args invs) =
    (if k = key then invocations_of key invs @ [args] else invocations_of k invs)"
  by (auto simp: invocations_of_def record_invocation_def Let_def map_of_filter_key split: option.split)

section \<open>What a test relies on\<close>

locale fake_call =
  fixes call :: "'a \<Rightarrow> ('k \<times> 'w, 'r) state"
    and get :: "'k \<Rightarrow> ('w, 'a, 'r) fake_method" and invs :: "'k \<Rightarrow> 'f invocations"
    and name :: string and args :: "'a \<Rightarrow> 'f fake_arg list"
  assumes result: "fst (run_state (call a) (k, w)) = fst (run_state (fm_answer (get k) a) w)"
    and world: "snd (snd (run_state (call a) (k, w))) = snd (run_state (fm_answer (get k) a) w)"
    and recorded: "get (fst (snd (run_state (call a) (k, w)))) = fm_record a (get k)"
    and invoked: "invs (fst (snd (run_state (call a) (k, w)))) = record_invocation name (args a) (invs k)"
begin

lemma count: "fm_CallCount (get (fst (snd (run_state (call a) (k, w))))) = Suc (fm_CallCount (get k))"
  by (simp add: recorded fm_CallCount_def)

lemma last_args: "fm_ArgsAt (int (fm_CallCount (get k))) (get (fst (snd (run_state (call a) (k, w))))) = Some a"
  by (simp add: recorded fm_ArgsAt_def fm_CallCount_def)

lemma earlier_args:
  "i < int (fm_CallCount (get k)) \<Longrightarrow>
    fm_ArgsAt i (get (fst (snd (run_state (call a) (k, w))))) = fm_ArgsAt i (get k)"
  by (auto simp: recorded fm_ArgsAt_def fm_CallCount_def nth_append nat_less_iff)

text \<open>Without a stub the answer set for this call wins over the general one, and the world
  does not change.\<close>

lemma unstubbed:
  "fm_Stub (get k) = None \<Longrightarrow>
    fst (run_state (call a) (k, w)) =
      (case fm_specific (get k) (int (fm_CallCount (get k))) of Some r \<Rightarrow> r | None \<Rightarrow> fm_Returns (get k)) \<and>
    snd (snd (run_state (call a) (k, w))) = w"
  by (simp add: result world fm_answer_def fm_CallCount_def split: option.split)

text \<open>With a stub the answer and the effect are the stub's.\<close>

lemma stubbed:
  "fm_Stub (get k) = Some stub \<Longrightarrow>
    fst (run_state (call a) (k, w)) = fst (run_state (stub a) w) \<and>
    snd (snd (run_state (call a) (k, w))) = snd (run_state (stub a) w)"
  by (simp add: result world fm_answer_def)

lemma invocations: "invocations_of name (invs (fst (snd (run_state (call a) (k, w))))) = invocations_of name (invs k) @ [args a]"
  by (simp add: invoked invocations_of_record)

end

text \<open>
  The uses of one method: calling it and setting what it answers. \<open>calls_of\<close> is what the fake
  remembers of all its methods, by name: the arguments of every call, read off the fields
  \<open>ArgsForCall\<close>.
\<close>

definition method_uses ::
  "('a \<Rightarrow> ('k \<times> 'w, 'r) state) \<Rightarrow> (('a \<Rightarrow> ('w, 'r) state) nilable \<Rightarrow> 'k \<Rightarrow> 'k) \<Rightarrow>
    ('r \<Rightarrow> 'k \<Rightarrow> 'k) \<Rightarrow> (int \<Rightarrow> 'r \<Rightarrow> 'k \<Rightarrow> 'k) \<Rightarrow> ('k \<times> 'w \<Rightarrow> 'k \<times> 'w) set" where
  "method_uses call Calls Rets RetsOn =
     range (\<lambda>a s. snd (run_state (call a) s)) \<union> range (\<lambda>stub. apfst (Calls stub)) \<union>
     range (\<lambda>r. apfst (Rets r)) \<union> range (\<lambda>(i, r). apfst (RetsOn i r))"

definition records_agree ::
  "('k \<Rightarrow> 'f invocations) \<Rightarrow> ('k \<Rightarrow> string \<Rightarrow> 'f fake_arg list list) \<Rightarrow> 'k \<times> 'w \<Rightarrow> bool" where
  "records_agree invs calls_of s \<longleftrightarrow> (\<forall>n. invocations_of n (invs (fst s)) = calls_of (fst s) n)"

locale fake_api = fake_call call get invs name args
  for call :: "'a \<Rightarrow> ('k \<times> 'w, 'r) state"
    and get :: "'k \<Rightarrow> ('w, 'a, 'r) fake_method" and invs :: "'k \<Rightarrow> 'f invocations"
    and name :: string and args :: "'a \<Rightarrow> 'f fake_arg list" +
  fixes Calls :: "('a \<Rightarrow> ('w, 'r) state) nilable \<Rightarrow> 'k \<Rightarrow> 'k"
    and Rets :: "'r \<Rightarrow> 'k \<Rightarrow> 'k" and RetsOn :: "int \<Rightarrow> 'r \<Rightarrow> 'k \<Rightarrow> 'k"
    and calls_of :: "'k \<Rightarrow> string \<Rightarrow> 'f fake_arg list list"
  assumes set_Calls: "get (Calls stub k) = fm_Calls stub (get k)"
      "invs (Calls stub k) = invs k" "calls_of (Calls stub k) = calls_of k"
    and set_Returns: "get (Rets r k) = fm_SetReturns r (get k)"
      "invs (Rets r k) = invs k" "calls_of (Rets r k) = calls_of k"
    and set_ReturnsOnCall: "get (RetsOn i r k) = fm_SetReturnsOnCall i r (get k)"
      "invs (RetsOn i r k) = invs k" "calls_of (RetsOn i r k) = calls_of k"
    and remembered: "calls_of (fst (snd (run_state (call a) (k, w)))) =
      (calls_of k)(name := calls_of k name @ [args a])"
begin

text \<open>After \<open>Returns\<close> and \<open>ReturnsOnCall\<close> the next call gets the answer for its number, if it is
  the one set, and the general answer otherwise.\<close>

lemma configured:
  assumes "fm_ReturnsOnCall (get k) = None"
  shows "fst (run_state (call a) (RetsOn i r (Rets g k), w)) = (if i = int (fm_CallCount (get k)) then r else g)"
  using unstubbed [of "RetsOn i r (Rets g k)" a w] assms
  by (simp add: set_Returns set_ReturnsOnCall fm_SetReturns_def fm_SetReturnsOnCall_def fm_specific_def
      fm_CallCount_def)

text \<open>No use lets the two records of the calls drift apart.\<close>

lemma use_keeps_records:
  assumes "u \<in> method_uses call Calls Rets RetsOn" and agree: "records_agree invs calls_of s"
  shows "records_agree invs calls_of (u s)"
proof -
  obtain k w where s: "s = (k, w)" by (cases s)
  from agree have k: "invocations_of n (invs k) = calls_of k n" for n
    by (simp add: s records_agree_def)
  consider (call) a where "u = (\<lambda>s. snd (run_state (call a) s))"
    | (stub) stub where "u = apfst (Calls stub)" | (ret) r where "u = apfst (Rets r)"
    | (on) i r where "u = apfst (RetsOn i r)"
    using assms(1) unfolding method_uses_def by (auto split: prod.splits)
  then show ?thesis
  proof cases
    case call
    then show ?thesis by (simp add: s records_agree_def invoked remembered invocations_of_record k)
  qed (simp_all add: s records_agree_def set_Calls set_Returns set_ReturnsOnCall k)
qed

end

text \<open>The states a test can bring about by a set of uses.\<close>

inductive fake_run :: "('s \<Rightarrow> 's) set \<Rightarrow> 's \<Rightarrow> 's \<Rightarrow> bool" for uses :: "('s \<Rightarrow> 's) set" where
  fake_run_start: "fake_run uses s s"
| fake_run_step: "fake_run uses s t \<Longrightarrow> u \<in> uses \<Longrightarrow> fake_run uses s (u t)"

lemma fake_run_invariant:
  assumes "fake_run uses s t" and "P s" and "\<And>u t. u \<in> uses \<Longrightarrow> P t \<Longrightarrow> P (u t)"
  shows "P t"
  using assms by induction auto

end
