(* ===== verification/Fake_Drivers.thy ===== *)
theory Fake_Drivers
  imports Fake_Method
begin

text \<open>
  The test doubles of \<open>Driver\<close> and \<open>MatchableDriver\<close>: \<^verbatim>\<open>fake_driver_client.go\<close> and
  \<^verbatim>\<open>fake_matchable_driver_client.go\<close> of \<^verbatim>\<open>dockerdriverfakes\<close>.
\<close>

section \<open>\<open>FakeDriver\<close>\<close>

record ('f, 'w) FakeDriver =
  fd_Activate :: "('w, Env, ActivateResponse) fake_method"
  fd_Capabilities :: "('w, Env, CapabilitiesResponse) fake_method"
  fd_Create :: "('w, Env \<times> 'f CreateRequest, ErrorResponse) fake_method"
  fd_Get :: "('w, Env \<times> GetRequest, GetResponse) fake_method"
  fd_List :: "('w, Env, ListResponse) fake_method"
  fd_Mount :: "('w, Env \<times> MountRequest, MountResponse) fake_method"
  fd_Path :: "('w, Env \<times> PathRequest, PathResponse) fake_method"
  fd_Remove :: "('w, Env \<times> RemoveRequest, ErrorResponse) fake_method"
  fd_Unmount :: "('w, Env \<times> UnmountRequest, ErrorResponse) fake_method"
  fd_invocations :: "'f invocations"

definition new_FakeDriver :: "('f, 'w) FakeDriver" where
  "new_FakeDriver =
     \<lparr>fd_Activate = fm_new zero_ActivateResponse,
      fd_Capabilities = fm_new zero_CapabilitiesResponse,
      fd_Create = fm_new zero_ErrorResponse,
      fd_Get = fm_new zero_GetResponse,
      fd_List = fm_new zero_ListResponse,
      fd_Mount = fm_new zero_MountResponse,
      fd_Path = fm_new zero_PathResponse,
      fd_Remove = fm_new zero_ErrorResponse,
      fd_Unmount = fm_new zero_ErrorResponse,
      fd_invocations = None\<rparr>"

definition FakeDriver_recordInvocation :: "string \<Rightarrow> 'f fake_arg list \<Rightarrow> ('f, 'w) FakeDriver \<Rightarrow> ('f, 'w) FakeDriver" where
  "FakeDriver_recordInvocation key args fake = fake\<lparr>fd_invocations := record_invocation key args (fd_invocations fake)\<rparr>"

definition FakeDriver_Invocations :: "('f, 'w) FakeDriver \<Rightarrow> (string \<times> 'f fake_arg list list) list" where
  "FakeDriver_Invocations fake = (case fd_invocations fake of None \<Rightarrow> [] | Some m \<Rightarrow> m)"

definition FakeDriver_calls :: "('f, 'w) FakeDriver \<Rightarrow> string \<Rightarrow> 'f fake_arg list list" where
  "FakeDriver_calls fake =
     (\<lambda>_. [])(''Activate'' := map (\<lambda>a. [ArgEnv a]) (fm_ArgsForCall (fd_Activate fake)),
       ''Capabilities'' := map (\<lambda>a. [ArgEnv a]) (fm_ArgsForCall (fd_Capabilities fake)),
       ''Create'' := map (\<lambda>a. [ArgEnv (fst a), ArgCreate (snd a)]) (fm_ArgsForCall (fd_Create fake)),
       ''Get'' := map (\<lambda>a. [ArgEnv (fst a), ArgGet (snd a)]) (fm_ArgsForCall (fd_Get fake)),
       ''List'' := map (\<lambda>a. [ArgEnv a]) (fm_ArgsForCall (fd_List fake)),
       ''Mount'' := map (\<lambda>a. [ArgEnv (fst a), ArgMount (snd a)]) (fm_ArgsForCall (fd_Mount fake)),
       ''Path'' := map (\<lambda>a. [ArgEnv (fst a), ArgPath (snd a)]) (fm_ArgsForCall (fd_Path fake)),
       ''Remove'' := map (\<lambda>a. [ArgEnv (fst a), ArgRemove (snd a)]) (fm_ArgsForCall (fd_Remove fake)),
       ''Unmount'' := map (\<lambda>a. [ArgEnv (fst a), ArgUnmount (snd a)]) (fm_ArgsForCall (fd_Unmount fake)))"

subsection \<open>\<open>Activate\<close>\<close>

definition FakeDriver_Activate :: "Env \<Rightarrow> (('f, 'w) FakeDriver \<times> 'w, ActivateResponse) state" where
  "FakeDriver_Activate a = State (\<lambda>(fake, w).
     let fake' = FakeDriver_recordInvocation ''Activate'' [ArgEnv a]
           (fake\<lparr>fd_Activate := fm_record a (fd_Activate fake)\<rparr>);
         (r, w') = run_state (fm_answer (fd_Activate fake) a) w
     in (r, (fake', w')))"

definition FakeDriver_ActivateCallCount :: "('f, 'w) FakeDriver \<Rightarrow> nat" where
  "FakeDriver_ActivateCallCount fake = fm_CallCount (fd_Activate fake)"

definition FakeDriver_ActivateCalls :: "(Env \<Rightarrow> ('w, ActivateResponse) state) nilable \<Rightarrow> ('f, 'w) FakeDriver \<Rightarrow> ('f, 'w) FakeDriver" where
  "FakeDriver_ActivateCalls stub fake = fake\<lparr>fd_Activate := fm_Calls stub (fd_Activate fake)\<rparr>"

definition FakeDriver_ActivateArgsForCall :: "int \<Rightarrow> ('f, 'w) FakeDriver \<Rightarrow> Env option" where
  "FakeDriver_ActivateArgsForCall i fake = fm_ArgsAt i (fd_Activate fake)"

definition FakeDriver_ActivateReturns :: "ActivateResponse \<Rightarrow> ('f, 'w) FakeDriver \<Rightarrow> ('f, 'w) FakeDriver" where
  "FakeDriver_ActivateReturns r fake = fake\<lparr>fd_Activate := fm_SetReturns r (fd_Activate fake)\<rparr>"

definition FakeDriver_ActivateReturnsOnCall :: "int \<Rightarrow> ActivateResponse \<Rightarrow> ('f, 'w) FakeDriver \<Rightarrow> ('f, 'w) FakeDriver" where
  "FakeDriver_ActivateReturnsOnCall i r fake = fake\<lparr>fd_Activate := fm_SetReturnsOnCall i r (fd_Activate fake)\<rparr>"

interpretation fd_Activate: fake_api FakeDriver_Activate fd_Activate fd_invocations "''Activate''" "\<lambda>a. [ArgEnv a]"
  FakeDriver_ActivateCalls FakeDriver_ActivateReturns FakeDriver_ActivateReturnsOnCall FakeDriver_calls
  by unfold_locales
    (simp_all add: FakeDriver_Activate_def FakeDriver_ActivateCalls_def FakeDriver_ActivateReturns_def FakeDriver_ActivateReturnsOnCall_def
      FakeDriver_recordInvocation_def FakeDriver_calls_def Let_def fun_eq_iff split: prod.split)

subsection \<open>\<open>Capabilities\<close>\<close>

definition FakeDriver_Capabilities :: "Env \<Rightarrow> (('f, 'w) FakeDriver \<times> 'w, CapabilitiesResponse) state" where
  "FakeDriver_Capabilities a = State (\<lambda>(fake, w).
     let fake' = FakeDriver_recordInvocation ''Capabilities'' [ArgEnv a]
           (fake\<lparr>fd_Capabilities := fm_record a (fd_Capabilities fake)\<rparr>);
         (r, w') = run_state (fm_answer (fd_Capabilities fake) a) w
     in (r, (fake', w')))"

definition FakeDriver_CapabilitiesCallCount :: "('f, 'w) FakeDriver \<Rightarrow> nat" where
  "FakeDriver_CapabilitiesCallCount fake = fm_CallCount (fd_Capabilities fake)"

definition FakeDriver_CapabilitiesCalls :: "(Env \<Rightarrow> ('w, CapabilitiesResponse) state) nilable \<Rightarrow> ('f, 'w) FakeDriver \<Rightarrow> ('f, 'w) FakeDriver" where
  "FakeDriver_CapabilitiesCalls stub fake = fake\<lparr>fd_Capabilities := fm_Calls stub (fd_Capabilities fake)\<rparr>"

definition FakeDriver_CapabilitiesArgsForCall :: "int \<Rightarrow> ('f, 'w) FakeDriver \<Rightarrow> Env option" where
  "FakeDriver_CapabilitiesArgsForCall i fake = fm_ArgsAt i (fd_Capabilities fake)"

definition FakeDriver_CapabilitiesReturns :: "CapabilitiesResponse \<Rightarrow> ('f, 'w) FakeDriver \<Rightarrow> ('f, 'w) FakeDriver" where
  "FakeDriver_CapabilitiesReturns r fake = fake\<lparr>fd_Capabilities := fm_SetReturns r (fd_Capabilities fake)\<rparr>"

definition FakeDriver_CapabilitiesReturnsOnCall :: "int \<Rightarrow> CapabilitiesResponse \<Rightarrow> ('f, 'w) FakeDriver \<Rightarrow> ('f, 'w) FakeDriver" where
  "FakeDriver_CapabilitiesReturnsOnCall i r fake = fake\<lparr>fd_Capabilities := fm_SetReturnsOnCall i r (fd_Capabilities fake)\<rparr>"

interpretation fd_Capabilities: fake_api FakeDriver_Capabilities fd_Capabilities fd_invocations "''Capabilities''" "\<lambda>a. [ArgEnv a]"
  FakeDriver_CapabilitiesCalls FakeDriver_CapabilitiesReturns FakeDriver_CapabilitiesReturnsOnCall FakeDriver_calls
  by unfold_locales
    (simp_all add: FakeDriver_Capabilities_def FakeDriver_CapabilitiesCalls_def FakeDriver_CapabilitiesReturns_def FakeDriver_CapabilitiesReturnsOnCall_def
      FakeDriver_recordInvocation_def FakeDriver_calls_def Let_def fun_eq_iff split: prod.split)

subsection \<open>\<open>Create\<close>\<close>

definition FakeDriver_Create :: "Env \<times> 'f CreateRequest \<Rightarrow> (('f, 'w) FakeDriver \<times> 'w, ErrorResponse) state" where
  "FakeDriver_Create a = State (\<lambda>(fake, w).
     let fake' = FakeDriver_recordInvocation ''Create'' [ArgEnv (fst a), ArgCreate (snd a)]
           (fake\<lparr>fd_Create := fm_record a (fd_Create fake)\<rparr>);
         (r, w') = run_state (fm_answer (fd_Create fake) a) w
     in (r, (fake', w')))"

definition FakeDriver_CreateCallCount :: "('f, 'w) FakeDriver \<Rightarrow> nat" where
  "FakeDriver_CreateCallCount fake = fm_CallCount (fd_Create fake)"

definition FakeDriver_CreateCalls :: "(Env \<times> 'f CreateRequest \<Rightarrow> ('w, ErrorResponse) state) nilable \<Rightarrow> ('f, 'w) FakeDriver \<Rightarrow> ('f, 'w) FakeDriver" where
  "FakeDriver_CreateCalls stub fake = fake\<lparr>fd_Create := fm_Calls stub (fd_Create fake)\<rparr>"

definition FakeDriver_CreateArgsForCall :: "int \<Rightarrow> ('f, 'w) FakeDriver \<Rightarrow> (Env \<times> 'f CreateRequest) option" where
  "FakeDriver_CreateArgsForCall i fake = fm_ArgsAt i (fd_Create fake)"

definition FakeDriver_CreateReturns :: "ErrorResponse \<Rightarrow> ('f, 'w) FakeDriver \<Rightarrow> ('f, 'w) FakeDriver" where
  "FakeDriver_CreateReturns r fake = fake\<lparr>fd_Create := fm_SetReturns r (fd_Create fake)\<rparr>"

definition FakeDriver_CreateReturnsOnCall :: "int \<Rightarrow> ErrorResponse \<Rightarrow> ('f, 'w) FakeDriver \<Rightarrow> ('f, 'w) FakeDriver" where
  "FakeDriver_CreateReturnsOnCall i r fake = fake\<lparr>fd_Create := fm_SetReturnsOnCall i r (fd_Create fake)\<rparr>"

interpretation fd_Create: fake_api FakeDriver_Create fd_Create fd_invocations "''Create''" "\<lambda>a. [ArgEnv (fst a), ArgCreate (snd a)]"
  FakeDriver_CreateCalls FakeDriver_CreateReturns FakeDriver_CreateReturnsOnCall FakeDriver_calls
  by unfold_locales
    (simp_all add: FakeDriver_Create_def FakeDriver_CreateCalls_def FakeDriver_CreateReturns_def FakeDriver_CreateReturnsOnCall_def
      FakeDriver_recordInvocation_def FakeDriver_calls_def Let_def fun_eq_iff split: prod.split)

subsection \<open>\<open>Get\<close>\<close>

definition FakeDriver_Get :: "Env \<times> GetRequest \<Rightarrow> (('f, 'w) FakeDriver \<times> 'w, GetResponse) state" where
  "FakeDriver_Get a = State (\<lambda>(fake, w).
     let fake' = FakeDriver_recordInvocation ''Get'' [ArgEnv (fst a), ArgGet (snd a)]
           (fake\<lparr>fd_Get := fm_record a (fd_Get fake)\<rparr>);
         (r, w') = run_state (fm_answer (fd_Get fake) a) w
     in (r, (fake', w')))"

definition FakeDriver_GetCallCount :: "('f, 'w) FakeDriver \<Rightarrow> nat" where
  "FakeDriver_GetCallCount fake = fm_CallCount (fd_Get fake)"

definition FakeDriver_GetCalls :: "(Env \<times> GetRequest \<Rightarrow> ('w, GetResponse) state) nilable \<Rightarrow> ('f, 'w) FakeDriver \<Rightarrow> ('f, 'w) FakeDriver" where
  "FakeDriver_GetCalls stub fake = fake\<lparr>fd_Get := fm_Calls stub (fd_Get fake)\<rparr>"

definition FakeDriver_GetArgsForCall :: "int \<Rightarrow> ('f, 'w) FakeDriver \<Rightarrow> (Env \<times> GetRequest) option" where
  "FakeDriver_GetArgsForCall i fake = fm_ArgsAt i (fd_Get fake)"

definition FakeDriver_GetReturns :: "GetResponse \<Rightarrow> ('f, 'w) FakeDriver \<Rightarrow> ('f, 'w) FakeDriver" where
  "FakeDriver_GetReturns r fake = fake\<lparr>fd_Get := fm_SetReturns r (fd_Get fake)\<rparr>"

definition FakeDriver_GetReturnsOnCall :: "int \<Rightarrow> GetResponse \<Rightarrow> ('f, 'w) FakeDriver \<Rightarrow> ('f, 'w) FakeDriver" where
  "FakeDriver_GetReturnsOnCall i r fake = fake\<lparr>fd_Get := fm_SetReturnsOnCall i r (fd_Get fake)\<rparr>"

interpretation fd_Get: fake_api FakeDriver_Get fd_Get fd_invocations "''Get''" "\<lambda>a. [ArgEnv (fst a), ArgGet (snd a)]"
  FakeDriver_GetCalls FakeDriver_GetReturns FakeDriver_GetReturnsOnCall FakeDriver_calls
  by unfold_locales
    (simp_all add: FakeDriver_Get_def FakeDriver_GetCalls_def FakeDriver_GetReturns_def FakeDriver_GetReturnsOnCall_def
      FakeDriver_recordInvocation_def FakeDriver_calls_def Let_def fun_eq_iff split: prod.split)

subsection \<open>\<open>List\<close>\<close>

definition FakeDriver_List :: "Env \<Rightarrow> (('f, 'w) FakeDriver \<times> 'w, ListResponse) state" where
  "FakeDriver_List a = State (\<lambda>(fake, w).
     let fake' = FakeDriver_recordInvocation ''List'' [ArgEnv a]
           (fake\<lparr>fd_List := fm_record a (fd_List fake)\<rparr>);
         (r, w') = run_state (fm_answer (fd_List fake) a) w
     in (r, (fake', w')))"

definition FakeDriver_ListCallCount :: "('f, 'w) FakeDriver \<Rightarrow> nat" where
  "FakeDriver_ListCallCount fake = fm_CallCount (fd_List fake)"

definition FakeDriver_ListCalls :: "(Env \<Rightarrow> ('w, ListResponse) state) nilable \<Rightarrow> ('f, 'w) FakeDriver \<Rightarrow> ('f, 'w) FakeDriver" where
  "FakeDriver_ListCalls stub fake = fake\<lparr>fd_List := fm_Calls stub (fd_List fake)\<rparr>"

definition FakeDriver_ListArgsForCall :: "int \<Rightarrow> ('f, 'w) FakeDriver \<Rightarrow> Env option" where
  "FakeDriver_ListArgsForCall i fake = fm_ArgsAt i (fd_List fake)"

definition FakeDriver_ListReturns :: "ListResponse \<Rightarrow> ('f, 'w) FakeDriver \<Rightarrow> ('f, 'w) FakeDriver" where
  "FakeDriver_ListReturns r fake = fake\<lparr>fd_List := fm_SetReturns r (fd_List fake)\<rparr>"

definition FakeDriver_ListReturnsOnCall :: "int \<Rightarrow> ListResponse \<Rightarrow> ('f, 'w) FakeDriver \<Rightarrow> ('f, 'w) FakeDriver" where
  "FakeDriver_ListReturnsOnCall i r fake = fake\<lparr>fd_List := fm_SetReturnsOnCall i r (fd_List fake)\<rparr>"

interpretation fd_List: fake_api FakeDriver_List fd_List fd_invocations "''List''" "\<lambda>a. [ArgEnv a]"
  FakeDriver_ListCalls FakeDriver_ListReturns FakeDriver_ListReturnsOnCall FakeDriver_calls
  by unfold_locales
    (simp_all add: FakeDriver_List_def FakeDriver_ListCalls_def FakeDriver_ListReturns_def FakeDriver_ListReturnsOnCall_def
      FakeDriver_recordInvocation_def FakeDriver_calls_def Let_def fun_eq_iff split: prod.split)

subsection \<open>\<open>Mount\<close>\<close>

definition FakeDriver_Mount :: "Env \<times> MountRequest \<Rightarrow> (('f, 'w) FakeDriver \<times> 'w, MountResponse) state" where
  "FakeDriver_Mount a = State (\<lambda>(fake, w).
     let fake' = FakeDriver_recordInvocation ''Mount'' [ArgEnv (fst a), ArgMount (snd a)]
           (fake\<lparr>fd_Mount := fm_record a (fd_Mount fake)\<rparr>);
         (r, w') = run_state (fm_answer (fd_Mount fake) a) w
     in (r, (fake', w')))"

definition FakeDriver_MountCallCount :: "('f, 'w) FakeDriver \<Rightarrow> nat" where
  "FakeDriver_MountCallCount fake = fm_CallCount (fd_Mount fake)"

definition FakeDriver_MountCalls :: "(Env \<times> MountRequest \<Rightarrow> ('w, MountResponse) state) nilable \<Rightarrow> ('f, 'w) FakeDriver \<Rightarrow> ('f, 'w) FakeDriver" where
  "FakeDriver_MountCalls stub fake = fake\<lparr>fd_Mount := fm_Calls stub (fd_Mount fake)\<rparr>"

definition FakeDriver_MountArgsForCall :: "int \<Rightarrow> ('f, 'w) FakeDriver \<Rightarrow> (Env \<times> MountRequest) option" where
  "FakeDriver_MountArgsForCall i fake = fm_ArgsAt i (fd_Mount fake)"

definition FakeDriver_MountReturns :: "MountResponse \<Rightarrow> ('f, 'w) FakeDriver \<Rightarrow> ('f, 'w) FakeDriver" where
  "FakeDriver_MountReturns r fake = fake\<lparr>fd_Mount := fm_SetReturns r (fd_Mount fake)\<rparr>"

definition FakeDriver_MountReturnsOnCall :: "int \<Rightarrow> MountResponse \<Rightarrow> ('f, 'w) FakeDriver \<Rightarrow> ('f, 'w) FakeDriver" where
  "FakeDriver_MountReturnsOnCall i r fake = fake\<lparr>fd_Mount := fm_SetReturnsOnCall i r (fd_Mount fake)\<rparr>"

interpretation fd_Mount: fake_api FakeDriver_Mount fd_Mount fd_invocations "''Mount''" "\<lambda>a. [ArgEnv (fst a), ArgMount (snd a)]"
  FakeDriver_MountCalls FakeDriver_MountReturns FakeDriver_MountReturnsOnCall FakeDriver_calls
  by unfold_locales
    (simp_all add: FakeDriver_Mount_def FakeDriver_MountCalls_def FakeDriver_MountReturns_def FakeDriver_MountReturnsOnCall_def
      FakeDriver_recordInvocation_def FakeDriver_calls_def Let_def fun_eq_iff split: prod.split)

subsection \<open>\<open>Path\<close>\<close>

definition FakeDriver_Path :: "Env \<times> PathRequest \<Rightarrow> (('f, 'w) FakeDriver \<times> 'w, PathResponse) state" where
  "FakeDriver_Path a = State (\<lambda>(fake, w).
     let fake' = FakeDriver_recordInvocation ''Path'' [ArgEnv (fst a), ArgPath (snd a)]
           (fake\<lparr>fd_Path := fm_record a (fd_Path fake)\<rparr>);
         (r, w') = run_state (fm_answer (fd_Path fake) a) w
     in (r, (fake', w')))"

definition FakeDriver_PathCallCount :: "('f, 'w) FakeDriver \<Rightarrow> nat" where
  "FakeDriver_PathCallCount fake = fm_CallCount (fd_Path fake)"

definition FakeDriver_PathCalls :: "(Env \<times> PathRequest \<Rightarrow> ('w, PathResponse) state) nilable \<Rightarrow> ('f, 'w) FakeDriver \<Rightarrow> ('f, 'w) FakeDriver" where
  "FakeDriver_PathCalls stub fake = fake\<lparr>fd_Path := fm_Calls stub (fd_Path fake)\<rparr>"

definition FakeDriver_PathArgsForCall :: "int \<Rightarrow> ('f, 'w) FakeDriver \<Rightarrow> (Env \<times> PathRequest) option" where
  "FakeDriver_PathArgsForCall i fake = fm_ArgsAt i (fd_Path fake)"

definition FakeDriver_PathReturns :: "PathResponse \<Rightarrow> ('f, 'w) FakeDriver \<Rightarrow> ('f, 'w) FakeDriver" where
  "FakeDriver_PathReturns r fake = fake\<lparr>fd_Path := fm_SetReturns r (fd_Path fake)\<rparr>"

definition FakeDriver_PathReturnsOnCall :: "int \<Rightarrow> PathResponse \<Rightarrow> ('f, 'w) FakeDriver \<Rightarrow> ('f, 'w) FakeDriver" where
  "FakeDriver_PathReturnsOnCall i r fake = fake\<lparr>fd_Path := fm_SetReturnsOnCall i r (fd_Path fake)\<rparr>"

interpretation fd_Path: fake_api FakeDriver_Path fd_Path fd_invocations "''Path''" "\<lambda>a. [ArgEnv (fst a), ArgPath (snd a)]"
  FakeDriver_PathCalls FakeDriver_PathReturns FakeDriver_PathReturnsOnCall FakeDriver_calls
  by unfold_locales
    (simp_all add: FakeDriver_Path_def FakeDriver_PathCalls_def FakeDriver_PathReturns_def FakeDriver_PathReturnsOnCall_def
      FakeDriver_recordInvocation_def FakeDriver_calls_def Let_def fun_eq_iff split: prod.split)

subsection \<open>\<open>Remove\<close>\<close>

definition FakeDriver_Remove :: "Env \<times> RemoveRequest \<Rightarrow> (('f, 'w) FakeDriver \<times> 'w, ErrorResponse) state" where
  "FakeDriver_Remove a = State (\<lambda>(fake, w).
     let fake' = FakeDriver_recordInvocation ''Remove'' [ArgEnv (fst a), ArgRemove (snd a)]
           (fake\<lparr>fd_Remove := fm_record a (fd_Remove fake)\<rparr>);
         (r, w') = run_state (fm_answer (fd_Remove fake) a) w
     in (r, (fake', w')))"

definition FakeDriver_RemoveCallCount :: "('f, 'w) FakeDriver \<Rightarrow> nat" where
  "FakeDriver_RemoveCallCount fake = fm_CallCount (fd_Remove fake)"

definition FakeDriver_RemoveCalls :: "(Env \<times> RemoveRequest \<Rightarrow> ('w, ErrorResponse) state) nilable \<Rightarrow> ('f, 'w) FakeDriver \<Rightarrow> ('f, 'w) FakeDriver" where
  "FakeDriver_RemoveCalls stub fake = fake\<lparr>fd_Remove := fm_Calls stub (fd_Remove fake)\<rparr>"

definition FakeDriver_RemoveArgsForCall :: "int \<Rightarrow> ('f, 'w) FakeDriver \<Rightarrow> (Env \<times> RemoveRequest) option" where
  "FakeDriver_RemoveArgsForCall i fake = fm_ArgsAt i (fd_Remove fake)"

definition FakeDriver_RemoveReturns :: "ErrorResponse \<Rightarrow> ('f, 'w) FakeDriver \<Rightarrow> ('f, 'w) FakeDriver" where
  "FakeDriver_RemoveReturns r fake = fake\<lparr>fd_Remove := fm_SetReturns r (fd_Remove fake)\<rparr>"

definition FakeDriver_RemoveReturnsOnCall :: "int \<Rightarrow> ErrorResponse \<Rightarrow> ('f, 'w) FakeDriver \<Rightarrow> ('f, 'w) FakeDriver" where
  "FakeDriver_RemoveReturnsOnCall i r fake = fake\<lparr>fd_Remove := fm_SetReturnsOnCall i r (fd_Remove fake)\<rparr>"

interpretation fd_Remove: fake_api FakeDriver_Remove fd_Remove fd_invocations "''Remove''" "\<lambda>a. [ArgEnv (fst a), ArgRemove (snd a)]"
  FakeDriver_RemoveCalls FakeDriver_RemoveReturns FakeDriver_RemoveReturnsOnCall FakeDriver_calls
  by unfold_locales
    (simp_all add: FakeDriver_Remove_def FakeDriver_RemoveCalls_def FakeDriver_RemoveReturns_def FakeDriver_RemoveReturnsOnCall_def
      FakeDriver_recordInvocation_def FakeDriver_calls_def Let_def fun_eq_iff split: prod.split)

subsection \<open>\<open>Unmount\<close>\<close>

definition FakeDriver_Unmount :: "Env \<times> UnmountRequest \<Rightarrow> (('f, 'w) FakeDriver \<times> 'w, ErrorResponse) state" where
  "FakeDriver_Unmount a = State (\<lambda>(fake, w).
     let fake' = FakeDriver_recordInvocation ''Unmount'' [ArgEnv (fst a), ArgUnmount (snd a)]
           (fake\<lparr>fd_Unmount := fm_record a (fd_Unmount fake)\<rparr>);
         (r, w') = run_state (fm_answer (fd_Unmount fake) a) w
     in (r, (fake', w')))"

definition FakeDriver_UnmountCallCount :: "('f, 'w) FakeDriver \<Rightarrow> nat" where
  "FakeDriver_UnmountCallCount fake = fm_CallCount (fd_Unmount fake)"

definition FakeDriver_UnmountCalls :: "(Env \<times> UnmountRequest \<Rightarrow> ('w, ErrorResponse) state) nilable \<Rightarrow> ('f, 'w) FakeDriver \<Rightarrow> ('f, 'w) FakeDriver" where
  "FakeDriver_UnmountCalls stub fake = fake\<lparr>fd_Unmount := fm_Calls stub (fd_Unmount fake)\<rparr>"

definition FakeDriver_UnmountArgsForCall :: "int \<Rightarrow> ('f, 'w) FakeDriver \<Rightarrow> (Env \<times> UnmountRequest) option" where
  "FakeDriver_UnmountArgsForCall i fake = fm_ArgsAt i (fd_Unmount fake)"

definition FakeDriver_UnmountReturns :: "ErrorResponse \<Rightarrow> ('f, 'w) FakeDriver \<Rightarrow> ('f, 'w) FakeDriver" where
  "FakeDriver_UnmountReturns r fake = fake\<lparr>fd_Unmount := fm_SetReturns r (fd_Unmount fake)\<rparr>"

definition FakeDriver_UnmountReturnsOnCall :: "int \<Rightarrow> ErrorResponse \<Rightarrow> ('f, 'w) FakeDriver \<Rightarrow> ('f, 'w) FakeDriver" where
  "FakeDriver_UnmountReturnsOnCall i r fake = fake\<lparr>fd_Unmount := fm_SetReturnsOnCall i r (fd_Unmount fake)\<rparr>"

interpretation fd_Unmount: fake_api FakeDriver_Unmount fd_Unmount fd_invocations "''Unmount''" "\<lambda>a. [ArgEnv (fst a), ArgUnmount (snd a)]"
  FakeDriver_UnmountCalls FakeDriver_UnmountReturns FakeDriver_UnmountReturnsOnCall FakeDriver_calls
  by unfold_locales
    (simp_all add: FakeDriver_Unmount_def FakeDriver_UnmountCalls_def FakeDriver_UnmountReturns_def FakeDriver_UnmountReturnsOnCall_def
      FakeDriver_recordInvocation_def FakeDriver_calls_def Let_def fun_eq_iff split: prod.split)

text \<open>Every use of the fake.\<close>

definition FakeDriver_uses :: "(('f, 'w) FakeDriver \<times> 'w \<Rightarrow> ('f, 'w) FakeDriver \<times> 'w) set" where
  "FakeDriver_uses =
     method_uses FakeDriver_Activate FakeDriver_ActivateCalls FakeDriver_ActivateReturns FakeDriver_ActivateReturnsOnCall \<union>
     method_uses FakeDriver_Capabilities FakeDriver_CapabilitiesCalls FakeDriver_CapabilitiesReturns FakeDriver_CapabilitiesReturnsOnCall \<union>
     method_uses FakeDriver_Create FakeDriver_CreateCalls FakeDriver_CreateReturns FakeDriver_CreateReturnsOnCall \<union>
     method_uses FakeDriver_Get FakeDriver_GetCalls FakeDriver_GetReturns FakeDriver_GetReturnsOnCall \<union>
     method_uses FakeDriver_List FakeDriver_ListCalls FakeDriver_ListReturns FakeDriver_ListReturnsOnCall \<union>
     method_uses FakeDriver_Mount FakeDriver_MountCalls FakeDriver_MountReturns FakeDriver_MountReturnsOnCall \<union>
     method_uses FakeDriver_Path FakeDriver_PathCalls FakeDriver_PathReturns FakeDriver_PathReturnsOnCall \<union>
     method_uses FakeDriver_Remove FakeDriver_RemoveCalls FakeDriver_RemoveReturns FakeDriver_RemoveReturnsOnCall \<union>
     method_uses FakeDriver_Unmount FakeDriver_UnmountCalls FakeDriver_UnmountReturns FakeDriver_UnmountReturnsOnCall"

lemma FakeDriver_records:
  "fake_run FakeDriver_uses (new_FakeDriver, w) s \<Longrightarrow> records_agree fd_invocations FakeDriver_calls s"
proof (erule fake_run_invariant)
  show "records_agree fd_invocations FakeDriver_calls (new_FakeDriver, w)"
    by (simp add: records_agree_def new_FakeDriver_def FakeDriver_calls_def invocations_of_def)
qed (unfold FakeDriver_uses_def, (elim UnE)?, simp_all add: fd_Activate.use_keeps_records fd_Capabilities.use_keeps_records fd_Create.use_keeps_records fd_Get.use_keeps_records fd_List.use_keeps_records fd_Mount.use_keeps_records fd_Path.use_keeps_records fd_Remove.use_keeps_records fd_Unmount.use_keeps_records)

section \<open>\<open>FakeMatchableDriver\<close>\<close>

record ('f, 'w) FakeMatchableDriver =
  fmd_Activate :: "('w, Env, ActivateResponse) fake_method"
  fmd_Capabilities :: "('w, Env, CapabilitiesResponse) fake_method"
  fmd_Create :: "('w, Env \<times> 'f CreateRequest, ErrorResponse) fake_method"
  fmd_Get :: "('w, Env \<times> GetRequest, GetResponse) fake_method"
  fmd_List :: "('w, Env, ListResponse) fake_method"
  fmd_Matches :: "('w, logger \<times> string \<times> TLSConfig nilable, bool) fake_method"
  fmd_Mount :: "('w, Env \<times> MountRequest, MountResponse) fake_method"
  fmd_Path :: "('w, Env \<times> PathRequest, PathResponse) fake_method"
  fmd_Remove :: "('w, Env \<times> RemoveRequest, ErrorResponse) fake_method"
  fmd_Unmount :: "('w, Env \<times> UnmountRequest, ErrorResponse) fake_method"
  fmd_invocations :: "'f invocations"

definition new_FakeMatchableDriver :: "('f, 'w) FakeMatchableDriver" where
  "new_FakeMatchableDriver =
     \<lparr>fmd_Activate = fm_new zero_ActivateResponse,
      fmd_Capabilities = fm_new zero_CapabilitiesResponse,
      fmd_Create = fm_new zero_ErrorResponse,
      fmd_Get = fm_new zero_GetResponse,
      fmd_List = fm_new zero_ListResponse,
      fmd_Matches = fm_new False,
      fmd_Mount = fm_new zero_MountResponse,
      fmd_Path = fm_new zero_PathResponse,
      fmd_Remove = fm_new zero_ErrorResponse,
      fmd_Unmount = fm_new zero_ErrorResponse,
      fmd_invocations = None\<rparr>"

definition FakeMatchableDriver_recordInvocation :: "string \<Rightarrow> 'f fake_arg list \<Rightarrow> ('f, 'w) FakeMatchableDriver \<Rightarrow> ('f, 'w) FakeMatchableDriver" where
  "FakeMatchableDriver_recordInvocation key args fake = fake\<lparr>fmd_invocations := record_invocation key args (fmd_invocations fake)\<rparr>"

definition FakeMatchableDriver_Invocations :: "('f, 'w) FakeMatchableDriver \<Rightarrow> (string \<times> 'f fake_arg list list) list" where
  "FakeMatchableDriver_Invocations fake = (case fmd_invocations fake of None \<Rightarrow> [] | Some m \<Rightarrow> m)"

definition FakeMatchableDriver_calls :: "('f, 'w) FakeMatchableDriver \<Rightarrow> string \<Rightarrow> 'f fake_arg list list" where
  "FakeMatchableDriver_calls fake =
     (\<lambda>_. [])(''Activate'' := map (\<lambda>a. [ArgEnv a]) (fm_ArgsForCall (fmd_Activate fake)),
       ''Capabilities'' := map (\<lambda>a. [ArgEnv a]) (fm_ArgsForCall (fmd_Capabilities fake)),
       ''Create'' := map (\<lambda>a. [ArgEnv (fst a), ArgCreate (snd a)]) (fm_ArgsForCall (fmd_Create fake)),
       ''Get'' := map (\<lambda>a. [ArgEnv (fst a), ArgGet (snd a)]) (fm_ArgsForCall (fmd_Get fake)),
       ''List'' := map (\<lambda>a. [ArgEnv a]) (fm_ArgsForCall (fmd_List fake)),
       ''Matches'' := map (\<lambda>a. [ArgLogger (fst a), ArgString (fst (snd a)), ArgTLS (snd (snd a))]) (fm_ArgsForCall (fmd_Matches fake)),
       ''Mount'' := map (\<lambda>a. [ArgEnv (fst a), ArgMount (snd a)]) (fm_ArgsForCall (fmd_Mount fake)),
       ''Path'' := map (\<lambda>a. [ArgEnv (fst a), ArgPath (snd a)]) (fm_ArgsForCall (fmd_Path fake)),
       ''Remove'' := map (\<lambda>a. [ArgEnv (fst a), ArgRemove (snd a)]) (fm_ArgsForCall (fmd_Remove fake)),
       ''Unmount'' := map (\<lambda>a. [ArgEnv (fst a), ArgUnmount (snd a)]) (fm_ArgsForCall (fmd_Unmount fake)))"

subsection \<open>\<open>Activate\<close>\<close>

definition FakeMatchableDriver_Activate :: "Env \<Rightarrow> (('f, 'w) FakeMatchableDriver \<times> 'w, ActivateResponse) state" where
  "FakeMatchableDriver_Activate a = State (\<lambda>(fake, w).
     let fake' = FakeMatchableDriver_recordInvocation ''Activate'' [ArgEnv a]
           (fake\<lparr>fmd_Activate := fm_record a (fmd_Activate fake)\<rparr>);
         (r, w') = run_state (fm_answer (fmd_Activate fake) a) w
     in (r, (fake', w')))"

definition FakeMatchableDriver_ActivateCallCount :: "('f, 'w) FakeMatchableDriver \<Rightarrow> nat" where
  "FakeMatchableDriver_ActivateCallCount fake = fm_CallCount (fmd_Activate fake)"

definition FakeMatchableDriver_ActivateCalls :: "(Env \<Rightarrow> ('w, ActivateResponse) state) nilable \<Rightarrow> ('f, 'w) FakeMatchableDriver \<Rightarrow> ('f, 'w) FakeMatchableDriver" where
  "FakeMatchableDriver_ActivateCalls stub fake = fake\<lparr>fmd_Activate := fm_Calls stub (fmd_Activate fake)\<rparr>"

definition FakeMatchableDriver_ActivateArgsForCall :: "int \<Rightarrow> ('f, 'w) FakeMatchableDriver \<Rightarrow> Env option" where
  "FakeMatchableDriver_ActivateArgsForCall i fake = fm_ArgsAt i (fmd_Activate fake)"

definition FakeMatchableDriver_ActivateReturns :: "ActivateResponse \<Rightarrow> ('f, 'w) FakeMatchableDriver \<Rightarrow> ('f, 'w) FakeMatchableDriver" where
  "FakeMatchableDriver_ActivateReturns r fake = fake\<lparr>fmd_Activate := fm_SetReturns r (fmd_Activate fake)\<rparr>"

definition FakeMatchableDriver_ActivateReturnsOnCall :: "int \<Rightarrow> ActivateResponse \<Rightarrow> ('f, 'w) FakeMatchableDriver \<Rightarrow> ('f, 'w) FakeMatchableDriver" where
  "FakeMatchableDriver_ActivateReturnsOnCall i r fake = fake\<lparr>fmd_Activate := fm_SetReturnsOnCall i r (fmd_Activate fake)\<rparr>"

interpretation fmd_Activate: fake_api FakeMatchableDriver_Activate fmd_Activate fmd_invocations "''Activate''" "\<lambda>a. [ArgEnv a]"
  FakeMatchableDriver_ActivateCalls FakeMatchableDriver_ActivateReturns FakeMatchableDriver_ActivateReturnsOnCall FakeMatchableDriver_calls
  by unfold_locales
    (simp_all add: FakeMatchableDriver_Activate_def FakeMatchableDriver_ActivateCalls_def FakeMatchableDriver_ActivateReturns_def FakeMatchableDriver_ActivateReturnsOnCall_def
      FakeMatchableDriver_recordInvocation_def FakeMatchableDriver_calls_def Let_def fun_eq_iff split: prod.split)

subsection \<open>\<open>Capabilities\<close>\<close>

definition FakeMatchableDriver_Capabilities :: "Env \<Rightarrow> (('f, 'w) FakeMatchableDriver \<times> 'w, CapabilitiesResponse) state" where
  "FakeMatchableDriver_Capabilities a = State (\<lambda>(fake, w).
     let fake' = FakeMatchableDriver_recordInvocation ''Capabilities'' [ArgEnv a]
           (fake\<lparr>fmd_Capabilities := fm_record a (fmd_Capabilities fake)\<rparr>);
         (r, w') = run_state (fm_answer (fmd_Capabilities fake) a) w
     in (r, (fake', w')))"

definition FakeMatchableDriver_CapabilitiesCallCount :: "('f, 'w) FakeMatchableDriver \<Rightarrow> nat" where
  "FakeMatchableDriver_CapabilitiesCallCount fake = fm_CallCount (fmd_Capabilities fake)"

definition FakeMatchableDriver_CapabilitiesCalls :: "(Env \<Rightarrow> ('w, CapabilitiesResponse) state) nilable \<Rightarrow> ('f, 'w) FakeMatchableDriver \<Rightarrow> ('f, 'w) FakeMatchableDriver" where
  "FakeMatchableDriver_CapabilitiesCalls stub fake = fake\<lparr>fmd_Capabilities := fm_Calls stub (fmd_Capabilities fake)\<rparr>"

definition FakeMatchableDriver_CapabilitiesArgsForCall :: "int \<Rightarrow> ('f, 'w) FakeMatchableDriver \<Rightarrow> Env option" where
  "FakeMatchableDriver_CapabilitiesArgsForCall i fake = fm_ArgsAt i (fmd_Capabilities fake)"

definition FakeMatchableDriver_CapabilitiesReturns :: "CapabilitiesResponse \<Rightarrow> ('f, 'w) FakeMatchableDriver \<Rightarrow> ('f, 'w) FakeMatchableDriver" where
  "FakeMatchableDriver_CapabilitiesReturns r fake = fake\<lparr>fmd_Capabilities := fm_SetReturns r (fmd_Capabilities fake)\<rparr>"

definition FakeMatchableDriver_CapabilitiesReturnsOnCall :: "int \<Rightarrow> CapabilitiesResponse \<Rightarrow> ('f, 'w) FakeMatchableDriver \<Rightarrow> ('f, 'w) FakeMatchableDriver" where
  "FakeMatchableDriver_CapabilitiesReturnsOnCall i r fake = fake\<lparr>fmd_Capabilities := fm_SetReturnsOnCall i r (fmd_Capabilities fake)\<rparr>"

interpretation fmd_Capabilities: fake_api FakeMatchableDriver_Capabilities fmd_Capabilities fmd_invocations "''Capabilities''" "\<lambda>a. [ArgEnv a]"
  FakeMatchableDriver_CapabilitiesCalls FakeMatchableDriver_CapabilitiesReturns FakeMatchableDriver_CapabilitiesReturnsOnCall FakeMatchableDriver_calls
  by unfold_locales
    (simp_all add: FakeMatchableDriver_Capabilities_def FakeMatchableDriver_CapabilitiesCalls_def FakeMatchableDriver_CapabilitiesReturns_def FakeMatchableDriver_CapabilitiesReturnsOnCall_def
      FakeMatchableDriver_recordInvocation_def FakeMatchableDriver_calls_def Let_def fun_eq_iff split: prod.split)

subsection \<open>\<open>Create\<close>\<close>

definition FakeMatchableDriver_Create :: "Env \<times> 'f CreateRequest \<Rightarrow> (('f, 'w) FakeMatchableDriver \<times> 'w, ErrorResponse) state" where
  "FakeMatchableDriver_Create a = State (\<lambda>(fake, w).
     let fake' = FakeMatchableDriver_recordInvocation ''Create'' [ArgEnv (fst a), ArgCreate (snd a)]
           (fake\<lparr>fmd_Create := fm_record a (fmd_Create fake)\<rparr>);
         (r, w') = run_state (fm_answer (fmd_Create fake) a) w
     in (r, (fake', w')))"

definition FakeMatchableDriver_CreateCallCount :: "('f, 'w) FakeMatchableDriver \<Rightarrow> nat" where
  "FakeMatchableDriver_CreateCallCount fake = fm_CallCount (fmd_Create fake)"

definition FakeMatchableDriver_CreateCalls :: "(Env \<times> 'f CreateRequest \<Rightarrow> ('w, ErrorResponse) state) nilable \<Rightarrow> ('f, 'w) FakeMatchableDriver \<Rightarrow> ('f, 'w) FakeMatchableDriver" where
  "FakeMatchableDriver_CreateCalls stub fake = fake\<lparr>fmd_Create := fm_Calls stub (fmd_Create fake)\<rparr>"

definition FakeMatchableDriver_CreateArgsForCall :: "int \<Rightarrow> ('f, 'w) FakeMatchableDriver \<Rightarrow> (Env \<times> 'f CreateRequest) option" where
  "FakeMatchableDriver_CreateArgsForCall i fake = fm_ArgsAt i (fmd_Create fake)"

definition FakeMatchableDriver_CreateReturns :: "ErrorResponse \<Rightarrow> ('f, 'w) FakeMatchableDriver \<Rightarrow> ('f, 'w) FakeMatchableDriver" where
  "FakeMatchableDriver_CreateReturns r fake = fake\<lparr>fmd_Create := fm_SetReturns r (fmd_Create fake)\<rparr>"

definition FakeMatchableDriver_CreateReturnsOnCall :: "int \<Rightarrow> ErrorResponse \<Rightarrow> ('f, 'w) FakeMatchableDriver \<Rightarrow> ('f, 'w) FakeMatchableDriver" where
  "FakeMatchableDriver_CreateReturnsOnCall i r fake = fake\<lparr>fmd_Create := fm_SetReturnsOnCall i r (fmd_Create fake)\<rparr>"

interpretation fmd_Create: fake_api FakeMatchableDriver_Create fmd_Create fmd_invocations "''Create''" "\<lambda>a. [ArgEnv (fst a), ArgCreate (snd a)]"
  FakeMatchableDriver_CreateCalls FakeMatchableDriver_CreateReturns FakeMatchableDriver_CreateReturnsOnCall FakeMatchableDriver_calls
  by unfold_locales
    (simp_all add: FakeMatchableDriver_Create_def FakeMatchableDriver_CreateCalls_def FakeMatchableDriver_CreateReturns_def FakeMatchableDriver_CreateReturnsOnCall_def
      FakeMatchableDriver_recordInvocation_def FakeMatchableDriver_calls_def Let_def fun_eq_iff split: prod.split)

subsection \<open>\<open>Get\<close>\<close>

definition FakeMatchableDriver_Get :: "Env \<times> GetRequest \<Rightarrow> (('f, 'w) FakeMatchableDriver \<times> 'w, GetResponse) state" where
  "FakeMatchableDriver_Get a = State (\<lambda>(fake, w).
     let fake' = FakeMatchableDriver_recordInvocation ''Get'' [ArgEnv (fst a), ArgGet (snd a)]
           (fake\<lparr>fmd_Get := fm_record a (fmd_Get fake)\<rparr>);
         (r, w') = run_state (fm_answer (fmd_Get fake) a) w
     in (r, (fake', w')))"

definition FakeMatchableDriver_GetCallCount :: "('f, 'w) FakeMatchableDriver \<Rightarrow> nat" where
  "FakeMatchableDriver_GetCallCount fake = fm_CallCount (fmd_Get fake)"

definition FakeMatchableDriver_GetCalls :: "(Env \<times> GetRequest \<Rightarrow> ('w, GetResponse) state) nilable \<Rightarrow> ('f, 'w) FakeMatchableDriver \<Rightarrow> ('f, 'w) FakeMatchableDriver" where
  "FakeMatchableDriver_GetCalls stub fake = fake\<lparr>fmd_Get := fm_Calls stub (fmd_Get fake)\<rparr>"

definition FakeMatchableDriver_GetArgsForCall :: "int \<Rightarrow> ('f, 'w) FakeMatchableDriver \<Rightarrow> (Env \<times> GetRequest) option" where
  "FakeMatchableDriver_GetArgsForCall i fake = fm_ArgsAt i (fmd_Get fake)"

definition FakeMatchableDriver_GetReturns :: "GetResponse \<Rightarrow> ('f, 'w) FakeMatchableDriver \<Rightarrow> ('f, 'w) FakeMatchableDriver" where
  "FakeMatchableDriver_GetReturns r fake = fake\<lparr>fmd_Get := fm_SetReturns r (fmd_Get fake)\<rparr>"

definition FakeMatchableDriver_GetReturnsOnCall :: "int \<Rightarrow> GetResponse \<Rightarrow> ('f, 'w) FakeMatchableDriver \<Rightarrow> ('f, 'w) FakeMatchableDriver" where
  "FakeMatchableDriver_GetReturnsOnCall i r fake = fake\<lparr>fmd_Get := fm_SetReturnsOnCall i r (fmd_Get fake)\<rparr>"

interpretation fmd_Get: fake_api FakeMatchableDriver_Get fmd_Get fmd_invocations "''Get''" "\<lambda>a. [ArgEnv (fst a), ArgGet (snd a)]"
  FakeMatchableDriver_GetCalls FakeMatchableDriver_GetReturns FakeMatchableDriver_GetReturnsOnCall FakeMatchableDriver_calls
  by unfold_locales
    (simp_all add: FakeMatchableDriver_Get_def FakeMatchableDriver_GetCalls_def FakeMatchableDriver_GetReturns_def FakeMatchableDriver_GetReturnsOnCall_def
      FakeMatchableDriver_recordInvocation_def FakeMatchableDriver_calls_def Let_def fun_eq_iff split: prod.split)

subsection \<open>\<open>List\<close>\<close>

definition FakeMatchableDriver_List :: "Env \<Rightarrow> (('f, 'w) FakeMatchableDriver \<times> 'w, ListResponse) state" where
  "FakeMatchableDriver_List a = State (\<lambda>(fake, w).
     let fake' = FakeMatchableDriver_recordInvocation ''List'' [ArgEnv a]
           (fake\<lparr>fmd_List := fm_record a (fmd_List fake)\<rparr>);
         (r, w') = run_state (fm_answer (fmd_List fake) a) w
     in (r, (fake', w')))"

definition FakeMatchableDriver_ListCallCount :: "('f, 'w) FakeMatchableDriver \<Rightarrow> nat" where
  "FakeMatchableDriver_ListCallCount fake = fm_CallCount (fmd_List fake)"

definition FakeMatchableDriver_ListCalls :: "(Env \<Rightarrow> ('w, ListResponse) state) nilable \<Rightarrow> ('f, 'w) FakeMatchableDriver \<Rightarrow> ('f, 'w) FakeMatchableDriver" where
  "FakeMatchableDriver_ListCalls stub fake = fake\<lparr>fmd_List := fm_Calls stub (fmd_List fake)\<rparr>"

definition FakeMatchableDriver_ListArgsForCall :: "int \<Rightarrow> ('f, 'w) FakeMatchableDriver \<Rightarrow> Env option" where
  "FakeMatchableDriver_ListArgsForCall i fake = fm_ArgsAt i (fmd_List fake)"

definition FakeMatchableDriver_ListReturns :: "ListResponse \<Rightarrow> ('f, 'w) FakeMatchableDriver \<Rightarrow> ('f, 'w) FakeMatchableDriver" where
  "FakeMatchableDriver_ListReturns r fake = fake\<lparr>fmd_List := fm_SetReturns r (fmd_List fake)\<rparr>"

definition FakeMatchableDriver_ListReturnsOnCall :: "int \<Rightarrow> ListResponse \<Rightarrow> ('f, 'w) FakeMatchableDriver \<Rightarrow> ('f, 'w) FakeMatchableDriver" where
  "FakeMatchableDriver_ListReturnsOnCall i r fake = fake\<lparr>fmd_List := fm_SetReturnsOnCall i r (fmd_List fake)\<rparr>"

interpretation fmd_List: fake_api FakeMatchableDriver_List fmd_List fmd_invocations "''List''" "\<lambda>a. [ArgEnv a]"
  FakeMatchableDriver_ListCalls FakeMatchableDriver_ListReturns FakeMatchableDriver_ListReturnsOnCall FakeMatchableDriver_calls
  by unfold_locales
    (simp_all add: FakeMatchableDriver_List_def FakeMatchableDriver_ListCalls_def FakeMatchableDriver_ListReturns_def FakeMatchableDriver_ListReturnsOnCall_def
      FakeMatchableDriver_recordInvocation_def FakeMatchableDriver_calls_def Let_def fun_eq_iff split: prod.split)

subsection \<open>\<open>Matches\<close>\<close>

definition FakeMatchableDriver_Matches :: "logger \<times> string \<times> TLSConfig nilable \<Rightarrow> (('f, 'w) FakeMatchableDriver \<times> 'w, bool) state" where
  "FakeMatchableDriver_Matches a = State (\<lambda>(fake, w).
     let fake' = FakeMatchableDriver_recordInvocation ''Matches'' [ArgLogger (fst a), ArgString (fst (snd a)), ArgTLS (snd (snd a))]
           (fake\<lparr>fmd_Matches := fm_record a (fmd_Matches fake)\<rparr>);
         (r, w') = run_state (fm_answer (fmd_Matches fake) a) w
     in (r, (fake', w')))"

definition FakeMatchableDriver_MatchesCallCount :: "('f, 'w) FakeMatchableDriver \<Rightarrow> nat" where
  "FakeMatchableDriver_MatchesCallCount fake = fm_CallCount (fmd_Matches fake)"

definition FakeMatchableDriver_MatchesCalls :: "(logger \<times> string \<times> TLSConfig nilable \<Rightarrow> ('w, bool) state) nilable \<Rightarrow> ('f, 'w) FakeMatchableDriver \<Rightarrow> ('f, 'w) FakeMatchableDriver" where
  "FakeMatchableDriver_MatchesCalls stub fake = fake\<lparr>fmd_Matches := fm_Calls stub (fmd_Matches fake)\<rparr>"

definition FakeMatchableDriver_MatchesArgsForCall :: "int \<Rightarrow> ('f, 'w) FakeMatchableDriver \<Rightarrow> (logger \<times> string \<times> TLSConfig nilable) option" where
  "FakeMatchableDriver_MatchesArgsForCall i fake = fm_ArgsAt i (fmd_Matches fake)"

definition FakeMatchableDriver_MatchesReturns :: "bool \<Rightarrow> ('f, 'w) FakeMatchableDriver \<Rightarrow> ('f, 'w) FakeMatchableDriver" where
  "FakeMatchableDriver_MatchesReturns r fake = fake\<lparr>fmd_Matches := fm_SetReturns r (fmd_Matches fake)\<rparr>"

definition FakeMatchableDriver_MatchesReturnsOnCall :: "int \<Rightarrow> bool \<Rightarrow> ('f, 'w) FakeMatchableDriver \<Rightarrow> ('f, 'w) FakeMatchableDriver" where
  "FakeMatchableDriver_MatchesReturnsOnCall i r fake = fake\<lparr>fmd_Matches := fm_SetReturnsOnCall i r (fmd_Matches fake)\<rparr>"

interpretation fmd_Matches: fake_api FakeMatchableDriver_Matches fmd_Matches fmd_invocations "''Matches''" "\<lambda>a. [ArgLogger (fst a), ArgString (fst (snd a)), ArgTLS (snd (snd a))]"
  FakeMatchableDriver_MatchesCalls FakeMatchableDriver_MatchesReturns FakeMatchableDriver_MatchesReturnsOnCall FakeMatchableDriver_calls
  by unfold_locales
    (simp_all add: FakeMatchableDriver_Matches_def FakeMatchableDriver_MatchesCalls_def FakeMatchableDriver_MatchesReturns_def FakeMatchableDriver_MatchesReturnsOnCall_def
      FakeMatchableDriver_recordInvocation_def FakeMatchableDriver_calls_def Let_def fun_eq_iff split: prod.split)

subsection \<open>\<open>Mount\<close>\<close>

definition FakeMatchableDriver_Mount :: "Env \<times> MountRequest \<Rightarrow> (('f, 'w) FakeMatchableDriver \<times> 'w, MountResponse) state" where
  "FakeMatchableDriver_Mount a = State (\<lambda>(fake, w).
     let fake' = FakeMatchableDriver_recordInvocation ''Mount'' [ArgEnv (fst a), ArgMount (snd a)]
           (fake\<lparr>fmd_Mount := fm_record a (fmd_Mount fake)\<rparr>);
         (r, w') = run_state (fm_answer (fmd_Mount fake) a) w
     in (r, (fake', w')))"

definition FakeMatchableDriver_MountCallCount :: "('f, 'w) FakeMatchableDriver \<Rightarrow> nat" where
  "FakeMatchableDriver_MountCallCount fake = fm_CallCount (fmd_Mount fake)"

definition FakeMatchableDriver_MountCalls :: "(Env \<times> MountRequest \<Rightarrow> ('w, MountResponse) state) nilable \<Rightarrow> ('f, 'w) FakeMatchableDriver \<Rightarrow> ('f, 'w) FakeMatchableDriver" where
  "FakeMatchableDriver_MountCalls stub fake = fake\<lparr>fmd_Mount := fm_Calls stub (fmd_Mount fake)\<rparr>"

definition FakeMatchableDriver_MountArgsForCall :: "int \<Rightarrow> ('f, 'w) FakeMatchableDriver \<Rightarrow> (Env \<times> MountRequest) option" where
  "FakeMatchableDriver_MountArgsForCall i fake = fm_ArgsAt i (fmd_Mount fake)"

definition FakeMatchableDriver_MountReturns :: "MountResponse \<Rightarrow> ('f, 'w) FakeMatchableDriver \<Rightarrow> ('f, 'w) FakeMatchableDriver" where
  "FakeMatchableDriver_MountReturns r fake = fake\<lparr>fmd_Mount := fm_SetReturns r (fmd_Mount fake)\<rparr>"

definition FakeMatchableDriver_MountReturnsOnCall :: "int \<Rightarrow> MountResponse \<Rightarrow> ('f, 'w) FakeMatchableDriver \<Rightarrow> ('f, 'w) FakeMatchableDriver" where
  "FakeMatchableDriver_MountReturnsOnCall i r fake = fake\<lparr>fmd_Mount := fm_SetReturnsOnCall i r (fmd_Mount fake)\<rparr>"

interpretation fmd_Mount: fake_api FakeMatchableDriver_Mount fmd_Mount fmd_invocations "''Mount''" "\<lambda>a. [ArgEnv (fst a), ArgMount (snd a)]"
  FakeMatchableDriver_MountCalls FakeMatchableDriver_MountReturns FakeMatchableDriver_MountReturnsOnCall FakeMatchableDriver_calls
  by unfold_locales
    (simp_all add: FakeMatchableDriver_Mount_def FakeMatchableDriver_MountCalls_def FakeMatchableDriver_MountReturns_def FakeMatchableDriver_MountReturnsOnCall_def
      FakeMatchableDriver_recordInvocation_def FakeMatchableDriver_calls_def Let_def fun_eq_iff split: prod.split)

subsection \<open>\<open>Path\<close>\<close>

definition FakeMatchableDriver_Path :: "Env \<times> PathRequest \<Rightarrow> (('f, 'w) FakeMatchableDriver \<times> 'w, PathResponse) state" where
  "FakeMatchableDriver_Path a = State (\<lambda>(fake, w).
     let fake' = FakeMatchableDriver_recordInvocation ''Path'' [ArgEnv (fst a), ArgPath (snd a)]
           (fake\<lparr>fmd_Path := fm_record a (fmd_Path fake)\<rparr>);
         (r, w') = run_state (fm_answer (fmd_Path fake) a) w
     in (r, (fake', w')))"

definition FakeMatchableDriver_PathCallCount :: "('f, 'w) FakeMatchableDriver \<Rightarrow> nat" where
  "FakeMatchableDriver_PathCallCount fake = fm_CallCount (fmd_Path fake)"

definition FakeMatchableDriver_PathCalls :: "(Env \<times> PathRequest \<Rightarrow> ('w, PathResponse) state) nilable \<Rightarrow> ('f, 'w) FakeMatchableDriver \<Rightarrow> ('f, 'w) FakeMatchableDriver" where
  "FakeMatchableDriver_PathCalls stub fake = fake\<lparr>fmd_Path := fm_Calls stub (fmd_Path fake)\<rparr>"

definition FakeMatchableDriver_PathArgsForCall :: "int \<Rightarrow> ('f, 'w) FakeMatchableDriver \<Rightarrow> (Env \<times> PathRequest) option" where
  "FakeMatchableDriver_PathArgsForCall i fake = fm_ArgsAt i (fmd_Path fake)"

definition FakeMatchableDriver_PathReturns :: "PathResponse \<Rightarrow> ('f, 'w) FakeMatchableDriver \<Rightarrow> ('f, 'w) FakeMatchableDriver" where
  "FakeMatchableDriver_PathReturns r fake = fake\<lparr>fmd_Path := fm_SetReturns r (fmd_Path fake)\<rparr>"

definition FakeMatchableDriver_PathReturnsOnCall :: "int \<Rightarrow> PathResponse \<Rightarrow> ('f, 'w) FakeMatchableDriver \<Rightarrow> ('f, 'w) FakeMatchableDriver" where
  "FakeMatchableDriver_PathReturnsOnCall i r fake = fake\<lparr>fmd_Path := fm_SetReturnsOnCall i r (fmd_Path fake)\<rparr>"

interpretation fmd_Path: fake_api FakeMatchableDriver_Path fmd_Path fmd_invocations "''Path''" "\<lambda>a. [ArgEnv (fst a), ArgPath (snd a)]"
  FakeMatchableDriver_PathCalls FakeMatchableDriver_PathReturns FakeMatchableDriver_PathReturnsOnCall FakeMatchableDriver_calls
  by unfold_locales
    (simp_all add: FakeMatchableDriver_Path_def FakeMatchableDriver_PathCalls_def FakeMatchableDriver_PathReturns_def FakeMatchableDriver_PathReturnsOnCall_def
      FakeMatchableDriver_recordInvocation_def FakeMatchableDriver_calls_def Let_def fun_eq_iff split: prod.split)

subsection \<open>\<open>Remove\<close>\<close>

definition FakeMatchableDriver_Remove :: "Env \<times> RemoveRequest \<Rightarrow> (('f, 'w) FakeMatchableDriver \<times> 'w, ErrorResponse) state" where
  "FakeMatchableDriver_Remove a = State (\<lambda>(fake, w).
     let fake' = FakeMatchableDriver_recordInvocation ''Remove'' [ArgEnv (fst a), ArgRemove (snd a)]
           (fake\<lparr>fmd_Remove := fm_record a (fmd_Remove fake)\<rparr>);
         (r, w') = run_state (fm_answer (fmd_Remove fake) a) w
     in (r, (fake', w')))"

definition FakeMatchableDriver_RemoveCallCount :: "('f, 'w) FakeMatchableDriver \<Rightarrow> nat" where
  "FakeMatchableDriver_RemoveCallCount fake = fm_CallCount (fmd_Remove fake)"

definition FakeMatchableDriver_RemoveCalls :: "(Env \<times> RemoveRequest \<Rightarrow> ('w, ErrorResponse) state) nilable \<Rightarrow> ('f, 'w) FakeMatchableDriver \<Rightarrow> ('f, 'w) FakeMatchableDriver" where
  "FakeMatchableDriver_RemoveCalls stub fake = fake\<lparr>fmd_Remove := fm_Calls stub (fmd_Remove fake)\<rparr>"

definition FakeMatchableDriver_RemoveArgsForCall :: "int \<Rightarrow> ('f, 'w) FakeMatchableDriver \<Rightarrow> (Env \<times> RemoveRequest) option" where
  "FakeMatchableDriver_RemoveArgsForCall i fake = fm_ArgsAt i (fmd_Remove fake)"

definition FakeMatchableDriver_RemoveReturns :: "ErrorResponse \<Rightarrow> ('f, 'w) FakeMatchableDriver \<Rightarrow> ('f, 'w) FakeMatchableDriver" where
  "FakeMatchableDriver_RemoveReturns r fake = fake\<lparr>fmd_Remove := fm_SetReturns r (fmd_Remove fake)\<rparr>"

definition FakeMatchableDriver_RemoveReturnsOnCall :: "int \<Rightarrow> ErrorResponse \<Rightarrow> ('f, 'w) FakeMatchableDriver \<Rightarrow> ('f, 'w) FakeMatchableDriver" where
  "FakeMatchableDriver_RemoveReturnsOnCall i r fake = fake\<lparr>fmd_Remove := fm_SetReturnsOnCall i r (fmd_Remove fake)\<rparr>"

interpretation fmd_Remove: fake_api FakeMatchableDriver_Remove fmd_Remove fmd_invocations "''Remove''" "\<lambda>a. [ArgEnv (fst a), ArgRemove (snd a)]"
  FakeMatchableDriver_RemoveCalls FakeMatchableDriver_RemoveReturns FakeMatchableDriver_RemoveReturnsOnCall FakeMatchableDriver_calls
  by unfold_locales
    (simp_all add: FakeMatchableDriver_Remove_def FakeMatchableDriver_RemoveCalls_def FakeMatchableDriver_RemoveReturns_def FakeMatchableDriver_RemoveReturnsOnCall_def
      FakeMatchableDriver_recordInvocation_def FakeMatchableDriver_calls_def Let_def fun_eq_iff split: prod.split)

subsection \<open>\<open>Unmount\<close>\<close>

definition FakeMatchableDriver_Unmount :: "Env \<times> UnmountRequest \<Rightarrow> (('f, 'w) FakeMatchableDriver \<times> 'w, ErrorResponse) state" where
  "FakeMatchableDriver_Unmount a = State (\<lambda>(fake, w).
     let fake' = FakeMatchableDriver_recordInvocation ''Unmount'' [ArgEnv (fst a), ArgUnmount (snd a)]
           (fake\<lparr>fmd_Unmount := fm_record a (fmd_Unmount fake)\<rparr>);
         (r, w') = run_state (fm_answer (fmd_Unmount fake) a) w
     in (r, (fake', w')))"

definition FakeMatchableDriver_UnmountCallCount :: "('f, 'w) FakeMatchableDriver \<Rightarrow> nat" where
  "FakeMatchableDriver_UnmountCallCount fake = fm_CallCount (fmd_Unmount fake)"

definition FakeMatchableDriver_UnmountCalls :: "(Env \<times> UnmountRequest \<Rightarrow> ('w, ErrorResponse) state) nilable \<Rightarrow> ('f, 'w) FakeMatchableDriver \<Rightarrow> ('f, 'w) FakeMatchableDriver" where
  "FakeMatchableDriver_UnmountCalls stub fake = fake\<lparr>fmd_Unmount := fm_Calls stub (fmd_Unmount fake)\<rparr>"

definition FakeMatchableDriver_UnmountArgsForCall :: "int \<Rightarrow> ('f, 'w) FakeMatchableDriver \<Rightarrow> (Env \<times> UnmountRequest) option" where
  "FakeMatchableDriver_UnmountArgsForCall i fake = fm_ArgsAt i (fmd_Unmount fake)"

definition FakeMatchableDriver_UnmountReturns :: "ErrorResponse \<Rightarrow> ('f, 'w) FakeMatchableDriver \<Rightarrow> ('f, 'w) FakeMatchableDriver" where
  "FakeMatchableDriver_UnmountReturns r fake = fake\<lparr>fmd_Unmount := fm_SetReturns r (fmd_Unmount fake)\<rparr>"

definition FakeMatchableDriver_UnmountReturnsOnCall :: "int \<Rightarrow> ErrorResponse \<Rightarrow> ('f, 'w) FakeMatchableDriver \<Rightarrow> ('f, 'w) FakeMatchableDriver" where
  "FakeMatchableDriver_UnmountReturnsOnCall i r fake = fake\<lparr>fmd_Unmount := fm_SetReturnsOnCall i r (fmd_Unmount fake)\<rparr>"

interpretation fmd_Unmount: fake_api FakeMatchableDriver_Unmount fmd_Unmount fmd_invocations "''Unmount''" "\<lambda>a. [ArgEnv (fst a), ArgUnmount (snd a)]"
  FakeMatchableDriver_UnmountCalls FakeMatchableDriver_UnmountReturns FakeMatchableDriver_UnmountReturnsOnCall FakeMatchableDriver_calls
  by unfold_locales
    (simp_all add: FakeMatchableDriver_Unmount_def FakeMatchableDriver_UnmountCalls_def FakeMatchableDriver_UnmountReturns_def FakeMatchableDriver_UnmountReturnsOnCall_def
      FakeMatchableDriver_recordInvocation_def FakeMatchableDriver_calls_def Let_def fun_eq_iff split: prod.split)

text \<open>Every use of the fake.\<close>

definition FakeMatchableDriver_uses :: "(('f, 'w) FakeMatchableDriver \<times> 'w \<Rightarrow> ('f, 'w) FakeMatchableDriver \<times> 'w) set" where
  "FakeMatchableDriver_uses =
     method_uses FakeMatchableDriver_Activate FakeMatchableDriver_ActivateCalls FakeMatchableDriver_ActivateReturns FakeMatchableDriver_ActivateReturnsOnCall \<union>
     method_uses FakeMatchableDriver_Capabilities FakeMatchableDriver_CapabilitiesCalls FakeMatchableDriver_CapabilitiesReturns FakeMatchableDriver_CapabilitiesReturnsOnCall \<union>
     method_uses FakeMatchableDriver_Create FakeMatchableDriver_CreateCalls FakeMatchableDriver_CreateReturns FakeMatchableDriver_CreateReturnsOnCall \<union>
     method_uses FakeMatchableDriver_Get FakeMatchableDriver_GetCalls FakeMatchableDriver_GetReturns FakeMatchableDriver_GetReturnsOnCall \<union>
     method_uses FakeMatchableDriver_List FakeMatchableDriver_ListCalls FakeMatchableDriver_ListReturns FakeMatchableDriver_ListReturnsOnCall \<union>
     method_uses FakeMatchableDriver_Matches FakeMatchableDriver_MatchesCalls FakeMatchableDriver_MatchesReturns FakeMatchableDriver_MatchesReturnsOnCall \<union>
     method_uses FakeMatchableDriver_Mount FakeMatchableDriver_MountCalls FakeMatchableDriver_MountReturns FakeMatchableDriver_MountReturnsOnCall \<union>
     method_uses FakeMatchableDriver_Path FakeMatchableDriver_PathCalls FakeMatchableDriver_PathReturns FakeMatchableDriver_PathReturnsOnCall \<union>
     method_uses FakeMatchableDriver_Remove FakeMatchableDriver_RemoveCalls FakeMatchableDriver_RemoveReturns FakeMatchableDriver_RemoveReturnsOnCall \<union>
     method_uses FakeMatchableDriver_Unmount FakeMatchableDriver_UnmountCalls FakeMatchableDriver_UnmountReturns FakeMatchableDriver_UnmountReturnsOnCall"

lemma FakeMatchableDriver_records:
  "fake_run FakeMatchableDriver_uses (new_FakeMatchableDriver, w) s \<Longrightarrow> records_agree fmd_invocations FakeMatchableDriver_calls s"
proof (erule fake_run_invariant)
  show "records_agree fmd_invocations FakeMatchableDriver_calls (new_FakeMatchableDriver, w)"
    by (simp add: records_agree_def new_FakeMatchableDriver_def FakeMatchableDriver_calls_def invocations_of_def)
qed (unfold FakeMatchableDriver_uses_def, (elim UnE)?, simp_all add: fmd_Activate.use_keeps_records fmd_Capabilities.use_keeps_records fmd_Create.use_keeps_records fmd_Get.use_keeps_records fmd_List.use_keeps_records fmd_Matches.use_keeps_records fmd_Mount.use_keeps_records fmd_Path.use_keeps_records fmd_Remove.use_keeps_records fmd_Unmount.use_keeps_records)

end
