(* ===== verification/Fake_Locks.thy ===== *)
theory Fake_Locks
  imports Fake_Drivers
begin

text \<open>
  The mutexes of the test doubles. Every method of a fake has a \<open>sync.RWMutex\<close> of its own and the
  recorded invocations have one more; what a method does to them, in order, is a list of
  operations, read off the generated code with each \<^verbatim>\<open>defer\<close> at its place. Threads that run such
  lists interleave as an inductive step relation. Exclusion holds for any threads; threads that
  call methods, set answers and read counts always finish; but \<open>Invocations\<close> takes the same
  mutexes in the opposite order and can deadlock with a call.
\<close>

section \<open>Operations on mutexes\<close>

datatype mutex = MethodMutex string | InvocationsMutex

datatype lock_op = Lock mutex | Unlock mutex | RLock mutex | RUnlock mutex

fun mutex_of :: "lock_op \<Rightarrow> mutex" where
  "mutex_of (Lock m) = m" | "mutex_of (Unlock m) = m" | "mutex_of (RLock m) = m" | "mutex_of (RUnlock m) = m"

text \<open>\<open>recordInvocation\<close>, a faked method up to its stub, the methods that set an answer
  (\<open>Calls\<close>, \<open>Returns\<close>, \<open>ReturnsOnCall\<close>), those that look at the calls (\<open>CallCount\<close>, \<open>ArgsForCall\<close>), and
  \<open>Invocations\<close> of a fake with the given methods.\<close>

definition recordInvocation_locks :: "lock_op list" where
  "recordInvocation_locks = [Lock InvocationsMutex, Unlock InvocationsMutex]"

definition call_locks :: "string \<Rightarrow> lock_op list" where
  "call_locks n = Lock (MethodMutex n) # recordInvocation_locks @ [Unlock (MethodMutex n)]"

definition setter_locks :: "string \<Rightarrow> lock_op list" where
  "setter_locks n = [Lock (MethodMutex n), Unlock (MethodMutex n)]"

definition getter_locks :: "string \<Rightarrow> lock_op list" where
  "getter_locks n = [RLock (MethodMutex n), RUnlock (MethodMutex n)]"

definition Invocations_locks :: "string list \<Rightarrow> lock_op list" where
  "Invocations_locks methods =
     RLock InvocationsMutex # map (\<lambda>n. RLock (MethodMutex n)) methods @
     map (\<lambda>n. RUnlock (MethodMutex n)) (rev methods) @ [RUnlock InvocationsMutex]"

definition FakeDriver_methods :: "string list" where
  "FakeDriver_methods =
     [''Activate'', ''Capabilities'', ''Create'', ''Get'', ''List'', ''Mount'', ''Path'', ''Remove'', ''Unmount'']"

section \<open>Threads\<close>

text \<open>
  \<open>todo\<close> is what is left to do of each thread. As in Go, a \<open>Lock\<close> is announced first, when no
  other writer is there, which keeps new readers out, and succeeds when the readers have gone:
  \<open>writer\<close> is the thread that announced or holds it.
\<close>

record locks =
  todo :: "lock_op list list"
  writer :: "mutex \<Rightarrow> nat option"
  readers :: "mutex \<Rightarrow> nat set"

definition lock_start :: "lock_op list list \<Rightarrow> locks" where
  "lock_start ps = \<lparr>todo = ps, writer = (\<lambda>_. None), readers = (\<lambda>_. {})\<rparr>"

abbreviation advance :: "locks \<Rightarrow> nat \<Rightarrow> lock_op list list" where
  "advance c i \<equiv> (todo c)[i := tl (todo c ! i)]"

inductive lock_step :: "locks \<Rightarrow> locks \<Rightarrow> bool" where
  announce: "i < length (todo c) \<Longrightarrow> todo c ! i = Lock m # p \<Longrightarrow> writer c m = None \<Longrightarrow>
    lock_step c (c\<lparr>writer := (writer c)(m := Some i)\<rparr>)"
| acquire: "i < length (todo c) \<Longrightarrow> todo c ! i = Lock m # p \<Longrightarrow> writer c m = Some i \<Longrightarrow> readers c m = {} \<Longrightarrow>
    lock_step c (c\<lparr>todo := advance c i\<rparr>)"
| unlock: "i < length (todo c) \<Longrightarrow> todo c ! i = Unlock m # p \<Longrightarrow>
    lock_step c (c\<lparr>todo := advance c i, writer := (writer c)(m := None)\<rparr>)"
| rlock: "i < length (todo c) \<Longrightarrow> todo c ! i = RLock m # p \<Longrightarrow> writer c m = None \<Longrightarrow>
    lock_step c (c\<lparr>todo := advance c i, readers := (readers c)(m := insert i (readers c m))\<rparr>)"
| runlock: "i < length (todo c) \<Longrightarrow> todo c ! i = RUnlock m # p \<Longrightarrow>
    lock_step c (c\<lparr>todo := advance c i, readers := (readers c)(m := readers c m - {i})\<rparr>)"

inductive_cases lock_stepE: "lock_step c c'"

text \<open>Runs, with the number of their steps.\<close>

inductive lock_run :: "locks \<Rightarrow> nat \<Rightarrow> locks \<Rightarrow> bool" where
  start: "lock_run c 0 c"
| step: "lock_run c n d \<Longrightarrow> lock_step d e \<Longrightarrow> lock_run c (Suc n) e"

definition finished :: "locks \<Rightarrow> bool" where
  "finished c \<longleftrightarrow> list_all (\<lambda>p. p = []) (todo c)"

definition stuck :: "locks \<Rightarrow> bool" where
  "stuck c \<longleftrightarrow> (\<forall>c'. \<not> lock_step c c')"

lemma lock_run_trans: "lock_run d n e \<Longrightarrow> lock_run c m d \<Longrightarrow> lock_run c (m + n) e"
  by (induction rule: lock_run.induct) (auto intro: lock_run.intros)

lemma length_todo: "lock_step c d \<Longrightarrow> length (todo d) = length (todo c)"
  by (erule lock_stepE) simp_all

section \<open>Exclusion\<close>

text \<open>What a thread holds shows in what it has left to do: the next operation on the mutex.\<close>

fun next_op :: "lock_op list \<Rightarrow> mutex \<Rightarrow> lock_op option" where
  "next_op [] m = None"
| "next_op (a # p) m = (if mutex_of a = m then Some a else next_op p m)"

definition writes :: "lock_op list \<Rightarrow> mutex \<Rightarrow> bool" where
  "writes p m \<longleftrightarrow> next_op p m = Some (Unlock m)"

definition reads :: "lock_op list \<Rightarrow> mutex \<Rightarrow> bool" where
  "reads p m \<longleftrightarrow> next_op p m = Some (RUnlock m)"

fun bracketed :: "lock_op list \<Rightarrow> bool" where
  "bracketed [] = True"
| "bracketed (a # p) =
     ((case a of
         Lock m \<Rightarrow> writes p m
       | RLock m \<Rightarrow> reads p m
       | Unlock m \<Rightarrow> \<not> writes p m \<and> \<not> reads p m
       | RUnlock m \<Rightarrow> \<not> writes p m \<and> \<not> reads p m) \<and> bracketed p)"

definition fresh_ops :: "lock_op list \<Rightarrow> bool" where
  "fresh_ops p \<longleftrightarrow> bracketed p \<and> (\<forall>m. \<not> writes p m \<and> \<not> reads p m)"

lemma view_simps [simp]:
  "writes (Lock m # p) k \<longleftrightarrow> k \<noteq> m \<and> writes p k" "reads (Lock m # p) k \<longleftrightarrow> k \<noteq> m \<and> reads p k"
  "writes (RLock m # p) k \<longleftrightarrow> k \<noteq> m \<and> writes p k" "reads (RLock m # p) k \<longleftrightarrow> k \<noteq> m \<and> reads p k"
  "writes (Unlock m # p) k \<longleftrightarrow> k = m \<or> writes p k" "reads (Unlock m # p) k \<longleftrightarrow> k \<noteq> m \<and> reads p k"
  "writes (RUnlock m # p) k \<longleftrightarrow> k \<noteq> m \<and> writes p k" "reads (RUnlock m # p) k \<longleftrightarrow> k = m \<or> reads p k"
  "\<not> writes [] k" "\<not> reads [] k"
  by (auto simp: writes_def reads_def)

lemma writes_not_reads: "writes p m \<Longrightarrow> \<not> reads p m"
  by (simp add: writes_def reads_def)

text \<open>What the threads of a configuration hold, and what they have come to.\<close>

definition holds_write :: "locks \<Rightarrow> nat \<Rightarrow> mutex \<Rightarrow> bool" where
  "holds_write c i m \<longleftrightarrow> i < length (todo c) \<and> writes (todo c ! i) m"

definition holds_read :: "locks \<Rightarrow> nat \<Rightarrow> mutex \<Rightarrow> bool" where
  "holds_read c i m \<longleftrightarrow> i < length (todo c) \<and> reads (todo c ! i) m"

definition announcing :: "locks \<Rightarrow> nat \<Rightarrow> mutex \<Rightarrow> bool" where
  "announcing c i m \<longleftrightarrow> i < length (todo c) \<and> (\<exists>p. todo c ! i = Lock m # p)"

lemmas view_defs = holds_write_def holds_read_def announcing_def

text \<open>The threads' views agree with the mutexes.\<close>

definition lock_inv :: "locks \<Rightarrow> bool" where
  "lock_inv c \<longleftrightarrow> list_all bracketed (todo c) \<and>
     (\<forall>m i. writer c m = Some i \<longrightarrow> holds_write c i m \<or> announcing c i m) \<and>
     (\<forall>m i. holds_write c i m \<longrightarrow> writer c m = Some i \<and> readers c m = {}) \<and>
     (\<forall>m i. i \<in> readers c m \<longleftrightarrow> holds_read c i m)"

lemma lock_inv_start: "list_all fresh_ops ps \<Longrightarrow> lock_inv (lock_start ps)"
  by (auto simp: lock_inv_def lock_start_def fresh_ops_def list_all_length view_defs)

lemma bracketed_advance:
  "list_all bracketed (todo c) \<Longrightarrow> i < length (todo c) \<Longrightarrow> todo c ! i = a # p \<Longrightarrow>
    list_all bracketed (advance c i)"
  by (auto simp: list_all_length nth_list_update dest: spec [of _ i])

lemma bracketed_next:
  "list_all bracketed (todo c) \<Longrightarrow> i < length (todo c) \<Longrightarrow> todo c ! i = a # p \<Longrightarrow> bracketed (a # p)"
  by (auto simp: list_all_length)

lemma lock_inv_step:
  assumes "lock_step c d" and inv: "lock_inv c"
  shows "lock_inv d"
proof -
  from inv have br: "list_all bracketed (todo c)"
    and wr: "\<And>m i. writer c m = Some i \<Longrightarrow> holds_write c i m \<or> announcing c i m"
    and ex: "\<And>m i. holds_write c i m \<Longrightarrow> writer c m = Some i \<and> readers c m = {}"
    and rd: "\<And>m i. i \<in> readers c m \<longleftrightarrow> holds_read c i m"
    unfolding lock_inv_def by blast+
  from assms(1) show ?thesis
  proof cases
    case (announce i m p)
    have V: "holds_write d = holds_write c" "holds_read d = holds_read c" "announcing d = announcing c" by (simp_all add: fun_eq_iff view_defs announce)
    have "announcing c i m" using announce by (simp add: announcing_def)
    then show ?thesis using br wr ex rd announce(1,4) unfolding lock_inv_def V by auto
  next
    case (acquire i m p)
    note b = bracketed_next [OF br acquire(2,3)]
    have V: "holds_write d i k \<longleftrightarrow> k = m \<or> holds_write c i k" "holds_read d i k \<longleftrightarrow> holds_read c i k" "announcing c i k \<longleftrightarrow> k = m"
      and O: "j \<noteq> i \<Longrightarrow> holds_write d j k \<longleftrightarrow> holds_write c j k" "j \<noteq> i \<Longrightarrow> holds_read d j k \<longleftrightarrow> holds_read c j k" "j \<noteq> i \<Longrightarrow> announcing d j k \<longleftrightarrow> announcing c j k" for j k
      using b writes_not_reads [of p m] by (auto simp: view_defs acquire(1-3))
    have s: "writer d = writer c" "readers d = readers c" by (simp_all add: acquire(1))
    have "holds_write d j k \<or> announcing d j k" if "writer d k = Some j" for j k
      using that wr [of k j] V O [of j k] acquire by (cases "j = i") (auto simp: s split: if_splits)
    moreover have "writer d k = Some j \<and> readers d k = {}" if "holds_write d j k" for j k
      using that ex [of j k] ex [of i m] V O [of j k] acquire by (cases "j = i") (auto simp: s)
    moreover have "j \<in> readers d k \<longleftrightarrow> holds_read d j k" for j k
      using rd [of j k] V O [of j k] acquire by (cases "j = i") (auto simp: s)
    ultimately show ?thesis using bracketed_advance [OF br acquire(2,3)] unfolding lock_inv_def by (simp add: acquire(1))
  next
    case (unlock i m p)
    note b = bracketed_next [OF br unlock(2,3)]
    have V: "holds_write d i k \<longleftrightarrow> k \<noteq> m \<and> holds_write c i k" "holds_read d i k \<longleftrightarrow> holds_read c i k" "\<not> announcing c i k" "holds_write c i m"
      and O: "j \<noteq> i \<Longrightarrow> holds_write d j k \<longleftrightarrow> holds_write c j k" "j \<noteq> i \<Longrightarrow> holds_read d j k \<longleftrightarrow> holds_read c j k" "j \<noteq> i \<Longrightarrow> announcing d j k \<longleftrightarrow> announcing c j k" for j k
      using b by (auto simp: view_defs unlock(1-3))
    have s: "writer d = (writer c)(m := None)" "readers d = readers c" by (simp_all add: unlock(1))
    have "holds_write d j k \<or> announcing d j k" if "writer d k = Some j" for j k
      using that wr [of k j] V O [of j k] unlock by (cases "j = i") (auto simp: s split: if_splits)
    moreover have "writer d k = Some j \<and> readers d k = {}" if "holds_write d j k" for j k
      using that ex [of j k] ex [of i m] V O [of j k] unlock by (cases "j = i") (auto simp: s)
    moreover have "j \<in> readers d k \<longleftrightarrow> holds_read d j k" for j k
      using rd [of j k] V O [of j k] unlock by (cases "j = i") (auto simp: s)
    ultimately show ?thesis using bracketed_advance [OF br unlock(2,3)] unfolding lock_inv_def by (simp add: unlock(1))
  next
    case (rlock i m p)
    note b = bracketed_next [OF br rlock(2,3)]
    have V: "holds_write d i k \<longleftrightarrow> holds_write c i k" "holds_read d i k \<longleftrightarrow> k = m \<or> holds_read c i k" "\<not> announcing c i k"
      and O: "j \<noteq> i \<Longrightarrow> holds_write d j k \<longleftrightarrow> holds_write c j k" "j \<noteq> i \<Longrightarrow> holds_read d j k \<longleftrightarrow> holds_read c j k" "j \<noteq> i \<Longrightarrow> announcing d j k \<longleftrightarrow> announcing c j k" for j k
      using b writes_not_reads [of p m] by (auto simp: view_defs rlock(1-3))
    have s: "writer d = writer c" "readers d = (readers c)(m := insert i (readers c m))" by (simp_all add: rlock(1))
    have "holds_write d j k \<or> announcing d j k" if "writer d k = Some j" for j k
      using that wr [of k j] V O [of j k] rlock by (cases "j = i") (auto simp: s split: if_splits)
    moreover have "writer d k = Some j \<and> readers d k = {}" if "holds_write d j k" for j k
      using that ex [of j k] ex [of i m] V O [of j k] rlock by (cases "j = i") (auto simp: s)
    moreover have "j \<in> readers d k \<longleftrightarrow> holds_read d j k" for j k
      using rd [of j k] V O [of j k] rlock by (cases "j = i") (auto simp: s)
    ultimately show ?thesis using bracketed_advance [OF br rlock(2,3)] unfolding lock_inv_def by (simp add: rlock(1))
  next
    case (runlock i m p)
    note b = bracketed_next [OF br runlock(2,3)]
    have V: "holds_write d i k \<longleftrightarrow> holds_write c i k" "holds_read d i k \<longleftrightarrow> k \<noteq> m \<and> holds_read c i k" "\<not> announcing c i k"
      and O: "j \<noteq> i \<Longrightarrow> holds_write d j k \<longleftrightarrow> holds_write c j k" "j \<noteq> i \<Longrightarrow> holds_read d j k \<longleftrightarrow> holds_read c j k" "j \<noteq> i \<Longrightarrow> announcing d j k \<longleftrightarrow> announcing c j k" for j k
      using b by (auto simp: view_defs runlock(1-3))
    have s: "writer d = writer c" "readers d = (readers c)(m := readers c m - {i})" by (simp_all add: runlock(1))
    have "holds_write d j k \<or> announcing d j k" if "writer d k = Some j" for j k
      using that wr [of k j] V O [of j k] runlock by (cases "j = i") (auto simp: s split: if_splits)
    moreover have "writer d k = Some j \<and> readers d k = {}" if "holds_write d j k" for j k
      using that ex [of j k] ex [of i m] V O [of j k] runlock by (cases "j = i") (auto simp: s)
    moreover have "j \<in> readers d k \<longleftrightarrow> holds_read d j k" for j k
      using rd [of j k] V O [of j k] runlock by (cases "j = i") (auto simp: s)
    ultimately show ?thesis using bracketed_advance [OF br runlock(2,3)] unfolding lock_inv_def by (simp add: runlock(1))
  qed
qed

lemma lock_inv_run: "lock_run c n d \<Longrightarrow> lock_inv c \<Longrightarrow> lock_inv d"
  by (induction rule: lock_run.induct) (auto intro: lock_inv_step)

lemma lock_inv_exclusion:
  "lock_inv c \<Longrightarrow> holds_write c i m \<Longrightarrow> j \<noteq> i \<Longrightarrow> \<not> holds_write c j m \<and> \<not> holds_read c j m"
  unfolding lock_inv_def by (metis empty_iff option.inject)

text \<open>The methods of a fake are such lists.\<close>

definition fake_program :: "string list \<Rightarrow> lock_op list \<Rightarrow> bool" where
  "fake_program methods p \<longleftrightarrow>
     p = Invocations_locks methods \<or>
     (\<exists>n\<in>set methods. p = call_locks n \<or> p = setter_locks n \<or> p = getter_locks n)"

lemma next_op_append:
  "next_op (p @ q) m = (case next_op p m of None \<Rightarrow> next_op q m | Some a \<Rightarrow> Some a)"
  by (induction p) auto

lemma next_op_methods [simp]:
  "next_op (map (\<lambda>n. RLock (MethodMutex n)) ns) (MethodMutex k) =
    (if k \<in> set ns then Some (RLock (MethodMutex k)) else None)"
  "next_op (map (\<lambda>n. RUnlock (MethodMutex n)) ns) (MethodMutex k) =
    (if k \<in> set ns then Some (RUnlock (MethodMutex k)) else None)"
  "next_op (map (\<lambda>n. RLock (MethodMutex n)) ns) InvocationsMutex = None"
  "next_op (map (\<lambda>n. RUnlock (MethodMutex n)) ns) InvocationsMutex = None"
  by (induction ns) auto

lemma bracketed_locks:
  "distinct ns \<Longrightarrow> bracketed q \<Longrightarrow> (\<And>n. n \<in> set ns \<Longrightarrow> reads q (MethodMutex n)) \<Longrightarrow>
    bracketed (map (\<lambda>n. RLock (MethodMutex n)) ns @ q)"
  by (induction ns) (auto simp: reads_def next_op_append)

lemma bracketed_unlocks:
  "distinct ns \<Longrightarrow> bracketed q \<Longrightarrow>
    (\<And>n. n \<in> set ns \<Longrightarrow> \<not> reads q (MethodMutex n) \<and> \<not> writes q (MethodMutex n)) \<Longrightarrow>
    bracketed (map (\<lambda>n. RUnlock (MethodMutex n)) ns @ q)"
  by (induction ns) (auto simp: reads_def writes_def next_op_append)

lemma Invocations_fresh: "distinct ns \<Longrightarrow> fresh_ops (Invocations_locks ns)"
proof -
  assume d: "distinct ns"
  have q: "bracketed (map (\<lambda>n. RUnlock (MethodMutex n)) (rev ns) @ [RUnlock InvocationsMutex])"
    by (rule bracketed_unlocks) (simp_all add: d)
  have "bracketed (map (\<lambda>n. RLock (MethodMutex n)) ns @ map (\<lambda>n. RUnlock (MethodMutex n)) (rev ns) @ [RUnlock InvocationsMutex])"
    by (rule bracketed_locks [OF d q]) (simp add: reads_def next_op_append)
  moreover have "\<not> writes (Invocations_locks ns) m \<and> \<not> reads (Invocations_locks ns) m" for m
    by (cases m) (simp_all add: Invocations_locks_def writes_def reads_def next_op_append)
  ultimately show ?thesis
    by (simp add: fresh_ops_def) (simp add: Invocations_locks_def reads_def next_op_append)
qed
lemma fake_program_fresh: "distinct ns \<Longrightarrow> fake_program ns p \<Longrightarrow> fresh_ops p"
  using Invocations_fresh [of ns]
  by (auto simp: fake_program_def fresh_ops_def call_locks_def recordInvocation_locks_def setter_locks_def getter_locks_def)

section \<open>Progress\<close>

text \<open>What is left of a method other than \<open>Invocations\<close>.\<close>

definition in_order :: "lock_op list \<Rightarrow> bool" where
  "in_order p \<longleftrightarrow> p = [] \<or>
     (\<exists>n. p = call_locks n \<or> p = [Lock InvocationsMutex, Unlock InvocationsMutex, Unlock (MethodMutex n)] \<or>
        p = [Unlock InvocationsMutex, Unlock (MethodMutex n)] \<or> p = [Unlock (MethodMutex n)] \<or>
        p = setter_locks n \<or> p = getter_locks n \<or> p = [RUnlock (MethodMutex n)])"

lemmas program_defs = call_locks_def recordInvocation_locks_def setter_locks_def getter_locks_def

lemma in_order_tl: "in_order p \<Longrightarrow> in_order (tl p)"
  unfolding in_order_def program_defs by auto

lemma in_order_advance:
  assumes "list_all in_order (todo c)" and "i < length (todo c)" and "todo c ! i = a # p"
  shows "list_all in_order ((todo c)[i := p])"
proof -
  have "in_order p" using assms in_order_tl [of "a # p"] by (simp add: list_all_length) (metis assms(3))
  then have "in_order ((todo c)[i := p] ! k)" if "k < length (todo c)" for k
    using assms(1) that by (cases "k = i") (simp_all add: list_all_length)
  then show ?thesis by (simp add: list_all_length)
qed

lemma in_order_step: "lock_step c d \<Longrightarrow> list_all in_order (todo c) \<Longrightarrow> list_all in_order (todo d)"
  by (erule lock_stepE) (simp_all add: in_order_advance)

lemma in_order_run: "lock_run c n d \<Longrightarrow> list_all in_order (todo c) \<Longrightarrow> list_all in_order (todo d)"
  by (induction rule: lock_run.induct) (auto intro: in_order_step)


text \<open>A thread at an unlock can move. When none can, nobody holds anything but by waiting for the
  invocations, and nobody waits for those.\<close>

lemma stuck_heads:
  assumes "stuck c" and "i < length (todo c)"
  shows "todo c ! i = [] \<or> (\<exists>m p. todo c ! i = Lock m # p) \<or> (\<exists>m p. todo c ! i = RLock m # p)"
proof (cases "todo c ! i")
  case (Cons a p)
  with assms show ?thesis
    by (cases a) (auto simp: stuck_def dest: unlock runlock)
qed simp

lemma progress:
  assumes inv: "lock_inv c" and ord: "list_all in_order (todo c)" and st: "stuck c"
  shows "finished c"
proof (rule ccontr)
  let ?I = InvocationsMutex
  assume "\<not> finished c"
  then obtain i where i: "i < length (todo c)" "todo c ! i \<noteq> []"
    by (auto simp: finished_def list_all_length)
  have shape: "todo c ! j = [] \<or> (\<exists>n. todo c ! j = call_locks n \<or> todo c ! j = [Lock ?I, Unlock ?I, Unlock (MethodMutex n)] \<or>
      todo c ! j = setter_locks n \<or> todo c ! j = getter_locks n)" if "j < length (todo c)" for j
    using stuck_heads [OF st that] ord that unfolding list_all_length in_order_def by fastforce
  have none_reads: "readers c m = {}" for m
  proof -
    have "\<not> holds_read c j m" for j
      using shape [of j] by (auto simp: view_defs program_defs)
    then show ?thesis using inv unfolding lock_inv_def by blast
  qed
  have no_announce: False if "announcing c j m" "writer c m = Some j" for j m
    using that st none_reads [of m] acquire [of j c m] unfolding announcing_def stuck_def by blast
  have writers: "holds_write c j m" if "writer c m = Some j" for j m
    using inv that no_announce unfolding lock_inv_def by blast
  have not_I: "writer c ?I = None"
  proof (cases "writer c ?I")
    case (Some j)
    with writers [of ?I j] shape [of j] show ?thesis by (auto simp: view_defs program_defs)
  qed simp
  have at_I: "\<not> announcing c j ?I" for j
    using not_I st announce [of j c ?I] unfolding announcing_def stuck_def by blast
  have free: "writer c (MethodMutex n) = None" for n
  proof (cases "writer c (MethodMutex n)")
    case (Some j)
    with writers [of "MethodMutex n" j] shape [of j] at_I [of j] show ?thesis
      by (auto simp: view_defs program_defs)
  qed simp
  from shape [OF i(1)] i at_I [of i] obtain n p where
    "todo c ! i = Lock (MethodMutex n) # p \<or> todo c ! i = RLock (MethodMutex n) # p"
    by (auto simp: announcing_def program_defs)
  with announce [OF i(1) _ free] rlock [OF i(1) _ free] st show False unfolding stuck_def by blast
qed

section \<open>Every run is short\<close>

text \<open>A lock takes two steps, any other operation one: what is left, less what is announced.\<close>

fun lock_cost :: "lock_op list \<Rightarrow> nat" where
  "lock_cost [] = 0"
| "lock_cost (Lock m # p) = Suc (Suc (lock_cost p))"
| "lock_cost (a # p) = Suc (lock_cost p)"

definition announced :: "locks \<Rightarrow> nat \<Rightarrow> nat" where
  "announced c i = (case todo c ! i of Lock m # p \<Rightarrow> if writer c m = Some i then 1 else 0 | _ \<Rightarrow> 0)"

definition thread_cost :: "locks \<Rightarrow> nat \<Rightarrow> nat" where
  "thread_cost c i = lock_cost (todo c ! i) - announced c i"

definition cost :: "locks \<Rightarrow> nat" where
  "cost c = (\<Sum>i<length (todo c). thread_cost c i)"

lemma cost_less:
  assumes "length (todo d) = length (todo c)" and "i < length (todo c)" and "thread_cost d i < thread_cost c i"
    and "\<And>j. j < length (todo c) \<Longrightarrow> j \<noteq> i \<Longrightarrow> thread_cost d j \<le> thread_cost c j"
  shows "cost d < cost c"
  unfolding cost_def assms(1)
proof (rule sum_strict_mono_ex1)
  show "\<forall>j\<in>{..<length (todo c)}. thread_cost d j \<le> thread_cost c j"
    using assms(3,4) by (metis lessThan_iff less_imp_le)
  show "\<exists>j\<in>{..<length (todo c)}. thread_cost d j < thread_cost c j"
    using assms(2,3) by blast
qed simp

lemma thread_cost_le: "thread_cost c i \<le> lock_cost (todo c ! i)"
  by (simp add: thread_cost_def)

lemma thread_cost_cong:
  "todo d ! j = todo c ! j \<Longrightarrow> (\<And>m p. todo c ! j = Lock m # p \<Longrightarrow> writer d m = Some j \<longleftrightarrow> writer c m = Some j) \<Longrightarrow>
    thread_cost d j = thread_cost c j"
  by (auto simp: thread_cost_def announced_def split: list.split lock_op.split)

lemma cost_step:
  assumes "lock_step c d" and inv: "lock_inv c"
  shows "cost d < cost c"
  using assms(1)
proof cases
  case (announce i m p)
  show ?thesis
  proof (rule cost_less [of _ _ i])
    fix j assume "j < length (todo c)" "j \<noteq> i"
    then show "thread_cost d j \<le> thread_cost c j"
      by (intro eq_refl thread_cost_cong) (auto simp: announce)
  qed (use announce in \<open>simp_all add: thread_cost_def announced_def\<close>)
next
  case (acquire i m p)
  show ?thesis
  proof (rule cost_less [of _ _ i])
    fix j assume "j < length (todo c)" "j \<noteq> i"
    then show "thread_cost d j \<le> thread_cost c j"
      by (intro eq_refl thread_cost_cong) (auto simp: acquire)
    next show "thread_cost d i < thread_cost c i"
      using thread_cost_le [of d i] acquire by (simp add: thread_cost_def announced_def)
  qed (use acquire in simp_all)
next
  case (unlock i m p)
  have "writer c m = Some i"
    using inv unlock unfolding lock_inv_def by (auto simp: view_defs)
  show ?thesis
  proof (rule cost_less [of _ _ i])
    fix j assume "j < length (todo c)" "j \<noteq> i"
    then show "thread_cost d j \<le> thread_cost c j"
      using \<open>writer c m = Some i\<close> by (intro eq_refl thread_cost_cong) (auto simp: unlock)
    next show "thread_cost d i < thread_cost c i"
      using thread_cost_le [of d i] unlock by (simp add: thread_cost_def announced_def)
  qed (use unlock in simp_all)
next
  case (rlock i m p)
  show ?thesis
  proof (rule cost_less [of _ _ i])
    fix j assume "j < length (todo c)" "j \<noteq> i"
    then show "thread_cost d j \<le> thread_cost c j"
      by (intro eq_refl thread_cost_cong) (auto simp: rlock)
    next show "thread_cost d i < thread_cost c i"
      using thread_cost_le [of d i] rlock by (simp add: thread_cost_def announced_def)
  qed (use rlock in simp_all)
next
  case (runlock i m p)
  show ?thesis
  proof (rule cost_less [of _ _ i])
    fix j assume "j < length (todo c)" "j \<noteq> i"
    then show "thread_cost d j \<le> thread_cost c j"
      by (intro eq_refl thread_cost_cong) (auto simp: runlock)
    next show "thread_cost d i < thread_cost c i"
      using thread_cost_le [of d i] runlock by (simp add: thread_cost_def announced_def)
  qed (use runlock in simp_all)
qed

lemma cost_run: "lock_run c n d \<Longrightarrow> lock_inv c \<Longrightarrow> n + cost d \<le> cost c"
proof (induction rule: lock_run.induct)
  case (step c n d e)
  with cost_step [OF step.hyps(2) lock_inv_run [OF step.hyps(1)]] show ?case by simp
qed simp

lemma cost_start: "cost (lock_start ps) = sum_list (map lock_cost ps)"
proof -
  have "thread_cost (lock_start ps) i = lock_cost (ps ! i)" for i
    by (simp add: thread_cost_def announced_def lock_start_def split: list.split lock_op.split)
  then show ?thesis
    by (simp add: cost_def lock_start_def sum_list_sum_nth atLeast0LessThan)
qed

section \<open>The deadlock\<close>

text \<open>A thread of \<open>Invocations\<close> takes the read locks up to a method.\<close>

lemma read_locks:
  assumes "todo c = [p, map (\<lambda>n. RLock (MethodMutex n)) ns @ q]" and "\<And>n. n \<in> set ns \<Longrightarrow> writer c (MethodMutex n) = None"
  shows "\<exists>k rs. lock_run c k (c\<lparr>todo := [p, q], readers := rs\<rparr>) \<and> (\<forall>m. readers c m \<subseteq> rs m)"
  using assms
proof (induction ns arbitrary: c)
  case Nil
  have "c\<lparr>todo := [p, q], readers := readers c\<rparr> = c"
    using Nil(1) by (cases c) simp
  then have "lock_run c 0 (c\<lparr>todo := [p, q], readers := readers c\<rparr>)"
    by (simp only: lock_run.start)
  then show ?case by blast
next
  case (Cons n ns)
  let ?d = "c\<lparr>todo := [p, map (\<lambda>n. RLock (MethodMutex n)) ns @ q],
    readers := (readers c)(MethodMutex n := insert 1 (readers c (MethodMutex n)))\<rparr>"
  have s: "lock_step c ?d"
    using rlock [of 1 c "MethodMutex n"] Cons.prems by simp
  obtain k rs where k: "lock_run ?d k (?d\<lparr>todo := [p, q], readers := rs\<rparr>)" "\<forall>m. readers ?d m \<subseteq> rs m"
    using Cons.IH [of ?d] Cons.prems(2) by auto
  have "lock_run c (Suc 0 + k) (?d\<lparr>todo := [p, q], readers := rs\<rparr>)"
    by (rule lock_run_trans [OF k(1)]) (rule lock_run.step [OF lock_run.start s])
  moreover have "\<forall>m. readers c m \<subseteq> rs m" using k(2) by (auto split: if_splits)
  ultimately show ?case by auto
qed

lemma deadlock_reachable:
  assumes "n \<in> set ns"
  shows "\<exists>k c. lock_run (lock_start [call_locks n, Invocations_locks ns]) k c \<and> stuck c \<and> \<not> finished c"
proof -
  let ?I = InvocationsMutex and ?M = "MethodMutex n"
  obtain pre post where ns: "ns = pre @ n # post" and pre: "n \<notin> set pre"
    using split_list_first [OF assms] by blast
  let ?s0 = "lock_start [call_locks n, Invocations_locks ns]"
  let ?rest = "[Lock ?I, Unlock ?I, Unlock ?M]"
  define q where "q = RLock ?M # map (\<lambda>n. RLock (MethodMutex n)) post @
     map (\<lambda>n. RUnlock (MethodMutex n)) (rev ns) @ [RUnlock ?I]"
  have ops: "Invocations_locks ns = RLock ?I # map (\<lambda>n. RLock (MethodMutex n)) pre @ q"
    unfolding Invocations_locks_def q_def by (subst (1) ns) simp
  define s1 where "s1 = ?s0\<lparr>writer := (\<lambda>_. None)(?M := Some 0)\<rparr>"
  define s2 where "s2 = s1\<lparr>todo := [?rest, Invocations_locks ns]\<rparr>"
  define s3 where "s3 = s2\<lparr>todo := [?rest, map (\<lambda>n. RLock (MethodMutex n)) pre @ q], readers := (\<lambda>_. {})(?I := {1})\<rparr>"
  have 1: "lock_step ?s0 s1"
    using announce [of 0 ?s0 ?M] by (simp add: s1_def lock_start_def program_defs)
  have 2: "lock_step s1 s2"
    using acquire [of 0 s1 ?M] by (simp add: s2_def s1_def lock_start_def program_defs)
  have 3: "lock_step s2 s3"
    using rlock [of 1 s2 ?I] by (simp add: s3_def s2_def s1_def lock_start_def ops)
  obtain k rs where k: "lock_run s3 k (s3\<lparr>todo := [?rest, q], readers := rs\<rparr>)" "\<forall>m. readers s3 m \<subseteq> rs m"
    using read_locks [of s3 ?rest pre q] pre by (force simp: s3_def s2_def s1_def lock_start_def)
  define s4 where "s4 = s3\<lparr>todo := [?rest, q], readers := rs\<rparr>"
  define s5 where "s5 = s4\<lparr>writer := (writer s4)(?I := Some 0)\<rparr>"
  have w: "writer s4 = (\<lambda>_. None)(?M := Some 0)"
    by (simp add: s4_def s3_def s2_def s1_def)
  have 5: "lock_step s4 s5"
    using announce [of 0 s4 ?I] w by (simp add: s5_def s4_def)
  have "lock_run ?s0 (Suc (Suc (Suc 0))) s3"
    by (rule lock_run.step [OF lock_run.step [OF lock_run.step [OF lock_run.start 1] 2] 3])
  from lock_run_trans [OF k(1) this] have "lock_run ?s0 (Suc (Suc (Suc 0)) + k) s4"
    unfolding s4_def .
  from lock_run.step [OF this 5] have "lock_run ?s0 (Suc (Suc (Suc (Suc 0)) + k)) s5" .
  moreover have I: "readers s5 ?I \<noteq> {}"
    using spec [OF k(2), of ?I] by (auto simp: s5_def s4_def s3_def)
  have "\<not> lock_step s5 e" for e
  proof
    assume "lock_step s5 e"
    then show False
      using I w by cases (auto simp: s5_def s4_def q_def less_Suc_eq nth_Cons' split: if_splits)
  qed
  then have "stuck s5" by (simp add: stuck_def)
  moreover have "\<not> finished s5" by (simp add: finished_def s5_def s4_def)
  ultimately show ?thesis by blast
qed

lemma finished_stuck: "finished c \<Longrightarrow> stuck c"
  unfolding stuck_def
proof (intro allI notI)
  fix d assume "finished c" and "lock_step c d"
  from this(2,1) show False by cases (auto simp: finished_def list_all_length)
qed

lemma simple_in_order: "in_order (call_locks n)" "in_order (setter_locks n)" "in_order (getter_locks n)"
  by (auto simp: in_order_def)

lemma simple_fresh: "fresh_ops (call_locks n)" "fresh_ops (setter_locks n)" "fresh_ops (getter_locks n)"
  by (auto simp: fresh_ops_def program_defs)

lemma calls_finish:
  assumes "list_all (\<lambda>p. \<exists>n. p = call_locks n \<or> p = setter_locks n \<or> p = getter_locks n) ps"
    and "lock_run (lock_start ps) k c"
  shows "(stuck c \<longleftrightarrow> finished c) \<and> k \<le> sum_list (map lock_cost ps)"
proof -
  have fresh: "list_all fresh_ops ps" and ord: "list_all in_order (todo (lock_start ps))"
    using assms(1) simple_in_order simple_fresh by (auto simp: list_all_iff lock_start_def)
  note inv = lock_inv_start [OF fresh]
  have "finished c \<Longrightarrow> stuck c" by (rule finished_stuck)
  moreover have "stuck c \<Longrightarrow> finished c"
    by (rule progress [OF lock_inv_run [OF assms(2) inv] in_order_run [OF assms(2) ord]])
  moreover have "k \<le> sum_list (map lock_cost ps)"
    using cost_run [OF assms(2) inv] by (simp add: cost_start)
  ultimately show ?thesis by blast
qed

section \<open>Properties\<close>

text \<open>Whatever methods of a fake run side by side, \<open>Invocations\<close> included: while one has
  a mutex locked for writing no other has it locked for writing or reading. So what a method does
  between its locks is one step for the others.\<close>

theorem fake_exclusion:
  assumes "distinct methods" and "list_all (fake_program methods) ps"
    and "lock_run (lock_start ps) k c" and "holds_write c i m" and "j \<noteq> i"
  shows "\<not> holds_write c j m \<and> \<not> holds_read c j m"
proof -
  have "list_all fresh_ops ps"
    using assms(2) fake_program_fresh [OF assms(1)] by (simp add: list_all_iff)
  from lock_inv_run [OF assms(3) lock_inv_start [OF this]]
  show ?thesis by (rule lock_inv_exclusion [OF _ assms(4,5)])
qed

text \<open>Threads that call faked methods, set their answers and look at their calls
  always finish: as long as one has something left to do some thread can move, and no run has
  more steps than two for every lock and one for every other operation.\<close>

theorem fake_calls_finish:
  assumes "list_all (\<lambda>p. \<exists>n. p = call_locks n \<or> p = setter_locks n \<or> p = getter_locks n) ps"
    and "lock_run (lock_start ps) k c"
  shows "(stuck c \<longleftrightarrow> finished c) \<and> k \<le> sum_list (map lock_cost ps)"
  by (rule calls_finish [OF assms])

text \<open>Property C29. A call of any method of the faked driver and \<open>Invocations\<close> can block each other for
  good: the call holds its own mutex and waits for that of the invocations, \<open>Invocations\<close> holds
  that one for reading and waits for the method's.\<close>

theorem fake_deadlock:
  "list_all (\<lambda>n. \<exists>k c. lock_run (lock_start [call_locks n, Invocations_locks FakeDriver_methods]) k c \<and>
      stuck c \<and> \<not> finished c) FakeDriver_methods"
  unfolding list_all_iff by (rule ballI) (rule deadlock_reachable)

section \<open>Instances\<close>

abbreviation written :: locks where
  "written \<equiv> \<lparr>todo = [[Unlock (MethodMutex ''Mount'')], getter_locks ''Mount''],
     writer = (\<lambda>_. None)(MethodMutex ''Mount'' := Some 0), readers = (\<lambda>_. {})\<rparr>"

lemma written_run: "lock_run (lock_start [setter_locks ''Mount'', getter_locks ''Mount'']) 2 written"
proof -
  let ?s = "lock_start [setter_locks ''Mount'', getter_locks ''Mount'']" and ?m = "MethodMutex ''Mount''"
  have "lock_step ?s (?s\<lparr>writer := (writer ?s)(?m := Some 0)\<rparr>)"
    using announce [of 0 ?s ?m] by (simp add: lock_start_def setter_locks_def)
  moreover have "lock_step (?s\<lparr>writer := (writer ?s)(?m := Some 0)\<rparr>) written"
    using acquire [of 0 "?s\<lparr>writer := (writer ?s)(?m := Some 0)\<rparr>" ?m] by (simp add: lock_start_def setter_locks_def)
  ultimately show ?thesis
    using lock_run.step [OF lock_run.step [OF lock_run.start]] by (simp add: numeral_2_eq_2)
qed

theorem fake_exclusion_witness: "\<not> holds_read written 1 (MethodMutex ''Mount'')"
proof -
  have "holds_write written 0 (MethodMutex ''Mount'')" by (simp add: view_defs)
  from fake_exclusion [OF _ _ written_run this, of "[''Mount'']" 1] show ?thesis
    by (simp add: fake_program_def)
qed

theorem fake_calls_finish_witness: "\<not> stuck written"
  using fake_calls_finish [OF _ written_run] by (auto simp: finished_def)

end
