(* ===== verification/Fake_Sessions.thy ===== *)
theory Fake_Sessions
  imports Fake_Locks "HOL-Library.Multiset"
begin

text \<open>
  The data of a fake while its methods interleave. A use of a faked method is what its generated
  code does between its lock operations: a call records its arguments and picks its answer under
  the method's mutex, and appends to the invocations under theirs; a setter changes the method
  under its mutex; a reader looks at it under the read lock; \<open>Invocations\<close> copies what was appended
  under read locks of them and of every method. Sessions run such uses side by side
  on the lock operations of \<open>Fake_Locks\<close>. The locale \<open>independent_uses\<close> is what the fields of a
  fake give: uses of different methods do not touch each other's. Under it every session is
  linearisable, a call taking effect where it appends to the invocations and a copy where it looks.
\<close>

section \<open>Uses of a fake\<close>

text \<open>\<open>Calling n record pick invoke\<close>: the two changes of a call and what it goes on with, its answer
  or stub. \<open>Setting n change\<close> and \<open>Looking n look\<close>: \<open>n\<close> is the method whose mutex is taken.
  \<open>Viewing ns view\<close> is \<open>Invocations\<close>, which looks when it has the read locks of all methods.\<close>

datatype ('k, 'o) use =
    Calling string "'k \<Rightarrow> 'k" "'k \<Rightarrow> 'o" "'k \<Rightarrow> 'k"
  | Setting string "'k \<Rightarrow> 'k"
  | Looking string "'k \<Rightarrow> 'o"
  | Viewing "string list" "'k \<Rightarrow> 'o"

fun method_name :: "('k, 'o) use \<Rightarrow> string" where
  "method_name (Calling n r p v) = n"
| "method_name (Setting n f) = n"
| "method_name (Looking n g) = n"
| "method_name (Viewing ns g) = ''Invocations''"

fun views :: "('k, 'o) use \<Rightarrow> bool" where
  "views (Viewing ns g) \<longleftrightarrow> True"
| "views _ \<longleftrightarrow> False"

fun use_locks :: "('k, 'o) use \<Rightarrow> lock_op list" where
  "use_locks (Calling n r p v) = call_locks n"
| "use_locks (Setting n f) = setter_locks n"
| "use_locks (Looking n g) = getter_locks n"
| "use_locks (Viewing ns g) = Invocations_locks ns"

text \<open>The code that follows each lock operation, up to the next one: what it does to the fake and
  what it reads.\<close>

type_synonym ('k, 'o) effect = "'k \<Rightarrow> 'k \<times> 'o list"

definition no_effect :: "('k, 'o) effect" where
  "no_effect k = (k, [])"

fun use_code :: "('k, 'o) use \<Rightarrow> ('k, 'o) effect list" where
  "use_code (Calling n r p v) = [\<lambda>k. (r k, [p k]), \<lambda>k. (v k, []), no_effect, no_effect]"
| "use_code (Setting n f) = [\<lambda>k. (f k, []), no_effect]"
| "use_code (Looking n g) = [\<lambda>k. (k, [g k]), no_effect]"
| "use_code (Viewing ns g) =
     replicate (length ns) no_effect @ [\<lambda>k. (k, [g k])] @ replicate (Suc (length ns)) no_effect"

text \<open>The use as one step.\<close>

fun use_step :: "('k, 'o) use \<Rightarrow> 'k \<Rightarrow> 'k \<times> 'o list" where
  "use_step (Calling n r p v) k = (v (r k), [p k])"
| "use_step (Setting n f) k = (f k, [])"
| "use_step (Looking n g) k = (k, [g k])"
| "use_step (Viewing ns g) k = (k, [g k])"

section \<open>Sessions\<close>

record ('k, 'o) session =
  s_locks :: locks
  s_fake :: 'k
  s_code :: "('k, 'o) effect list list"
  s_seen :: "'o list list"

definition session_start :: "('k, 'o) use list \<Rightarrow> 'k \<Rightarrow> ('k, 'o) session" where
  "session_start us k =
     \<lparr>s_locks = lock_start (map use_locks us), s_fake = k, s_code = map use_code us, s_seen = map (\<lambda>_. []) us\<rparr>"

text \<open>A lock operation that completes lets its thread run on to the next one; the step names the
  thread.\<close>

inductive session_step :: "('k, 'o) session \<Rightarrow> nat list \<Rightarrow> ('k, 'o) session \<Rightarrow> bool" where
  wait: "lock_step (s_locks c) l \<Longrightarrow> todo l = todo (s_locks c) \<Longrightarrow>
    session_step c [] (c\<lparr>s_locks := l\<rparr>)"
| work: "lock_step (s_locks c) l \<Longrightarrow> i < length (todo (s_locks c)) \<Longrightarrow> todo l = advance (s_locks c) i \<Longrightarrow>
    s_code c ! i = e # es \<Longrightarrow> e (s_fake c) = (k, os) \<Longrightarrow>
    session_step c [i] (c\<lparr>s_locks := l, s_fake := k, s_code := (s_code c)[i := es],
      s_seen := (s_seen c)[i := s_seen c ! i @ os]\<rparr>)"

inductive_cases session_stepE: "session_step c is c'"

text \<open>A run has the number of its steps and the threads whose operations completed, in order.\<close>

inductive session_run :: "('k, 'o) session \<Rightarrow> nat \<Rightarrow> nat list \<Rightarrow> ('k, 'o) session \<Rightarrow> bool" where
  session_begin: "session_run c 0 [] c"
| session_next: "session_run c n is d \<Longrightarrow> session_step d js e \<Longrightarrow> session_run c (Suc n) (is @ js) e"

section \<open>Uses one after the other\<close>

primrec uses_after :: "('k, 'o) use list \<Rightarrow> nat list \<Rightarrow> 'k \<Rightarrow> 'k" where
  "uses_after us [] k = k"
| "uses_after us (i # is) k = uses_after us is (fst (use_step (us ! i) k))"

primrec uses_seen :: "('k, 'o) use list \<Rightarrow> nat list \<Rightarrow> 'k \<Rightarrow> (nat \<times> 'o list) list" where
  "uses_seen us [] k = []"
| "uses_seen us (i # is) k = (i, snd (use_step (us ! i) k)) # uses_seen us is (fst (use_step (us ! i) k))"

lemma uses_append [simp]:
  "uses_after us (xs @ ys) k = uses_after us ys (uses_after us xs k)"
  "uses_seen us (xs @ ys) k = uses_seen us xs k @ uses_seen us ys (uses_after us xs k)"
  by (induction xs arbitrary: k) simp_all

lemma uses_seen_some: "i \<in> set is \<Longrightarrow> \<exists>os. (i, os) \<in> set (uses_seen us is k)"
  by (induction "is" arbitrary: k) auto

lemma uses_seen_mem: "(i, os) \<in> set (uses_seen us is k) \<Longrightarrow> i \<in> set is"
  by (induction "is" arbitrary: k) auto

section \<open>Where a use stands\<close>

text \<open>A call is pending between its two changes; a use has taken effect when the last of its
  changes is made.\<close>

fun pending :: "('k, 'o) use \<Rightarrow> nat \<Rightarrow> bool" where
  "pending (Calling n r p v) j \<longleftrightarrow> j = 1"
| "pending _ j \<longleftrightarrow> False"

fun effective :: "('k, 'o) use \<Rightarrow> nat \<Rightarrow> bool" where
  "effective (Calling n r p v) j \<longleftrightarrow> 2 \<le> j"
| "effective (Viewing ns g) j \<longleftrightarrow> length ns < j"
| "effective _ j \<longleftrightarrow> 1 \<le> j"

fun use_record :: "('k, 'o) use \<Rightarrow> 'k \<Rightarrow> 'k" where
  "use_record (Calling n r p v) k = r k"
| "use_record _ k = k"

text \<open>What pending calls have recorded, on top of a state without them.\<close>

definition with_pending :: "('k, 'o) use list \<Rightarrow> nat list \<Rightarrow> 'k \<Rightarrow> 'k" where
  "with_pending us ps k = foldr (\<lambda>i. use_record (us ! i)) ps k"

lemma with_pending_simps [simp]:
  "with_pending us [] k = k"
  "with_pending us (i # ps) k = use_record (us ! i) (with_pending us ps k)"
  by (simp_all add: with_pending_def)

lemma use_lengths: "length (use_code u) = length (use_locks u)"
  by (cases u) (simp_all add: program_defs Invocations_locks_def)

text \<open>A pending call holds its method's mutex, and so does a use just after its first operation.\<close>

lemma pending_writes: "pending u j \<Longrightarrow> writes (drop j (use_locks u)) (MethodMutex (method_name u))"
  by (cases u) (simp_all add: program_defs)

lemma begun_holds:
  "\<not> views u \<Longrightarrow> writes (drop 1 (use_locks u)) (MethodMutex (method_name u)) \<or> reads (drop 1 (use_locks u)) (MethodMutex (method_name u))"
  by (cases u) (simp_all add: program_defs)

text \<open>\<open>Invocations\<close> looks when it holds the read locks of its methods.\<close>

lemma viewing_reads:
  "n \<in> set ns \<Longrightarrow> reads (drop (Suc (length ns)) (use_locks (Viewing ns g))) (MethodMutex n)"
  by (simp add: Invocations_locks_def reads_def next_op_append)

lemma viewing_code:
  "i < length ns \<Longrightarrow> use_code (Viewing ns g) ! i = no_effect"
  "use_code (Viewing ns g) ! length ns = (\<lambda>k. (k, [g k]))"
  "length ns < i \<Longrightarrow> i < length (use_code (Viewing ns g)) \<Longrightarrow> use_code (Viewing ns g) ! i = no_effect"
  by (simp_all add: nth_append nth_Cons')

definition well_formed :: "('k, 'o) use \<Rightarrow> bool" where
  "well_formed u \<longleftrightarrow> (case u of Viewing ns g \<Rightarrow> distinct ns | _ \<Rightarrow> True)"

lemma use_fresh: "well_formed u \<Longrightarrow> fresh_ops (use_locks u)"
  by (cases u) (simp_all add: simple_fresh Invocations_fresh well_formed_def)

lemma drop_tl: "j < length xs \<Longrightarrow> tl (drop j xs) = drop (Suc j) xs"
  by (simp add: drop_Suc tl_drop)

section \<open>Independent uses\<close>

locale independent_uses =
  fixes uses :: "('k, 'o) use set"
  assumes records_apart: "Calling n r p v \<in> uses \<Longrightarrow> Calling n' r' p' v' \<in> uses \<Longrightarrow> n \<noteq> n' \<Longrightarrow>
      r (r' k) = r' (r k) \<and> p (r' k) = p k"
    and invocations_apart: "Calling n r p v \<in> uses \<Longrightarrow> Calling n' r' p' v' \<in> uses \<Longrightarrow>
      r (v' k) = v' (r k) \<and> p (v' k) = p k"
    and settings_apart: "Calling n r p v \<in> uses \<Longrightarrow> Setting n' f \<in> uses \<Longrightarrow> n \<noteq> n' \<Longrightarrow>
      r (f k) = f (r k) \<and> p (f k) = p k"
    and looks_apart: "Calling n r p v \<in> uses \<Longrightarrow> Looking n' g \<in> uses \<Longrightarrow> n \<noteq> n' \<Longrightarrow> g (r k) = g k"
    and views_all: "Calling n r p v \<in> uses \<Longrightarrow> Viewing ns g \<in> uses \<Longrightarrow> n \<in> set ns"
    and views_once: "Viewing ns g \<in> uses \<Longrightarrow> distinct ns"

text \<open>The calls of a list are calls among the uses, of methods other than \<open>n\<close>.\<close>

definition calls_besides :: "('k, 'o) use set \<Rightarrow> ('k, 'o) use list \<Rightarrow> string \<Rightarrow> nat list \<Rightarrow> bool" where
  "calls_besides uses us n ps \<longleftrightarrow>
     (\<forall>j\<in>set ps. \<exists>n' r p v. us ! j = Calling n' r p v \<and> us ! j \<in> uses \<and> n' \<noteq> n)"

lemma calls_besides_simps [simp]:
  "calls_besides uses us n []"
  "calls_besides uses us n (xs @ ys) \<longleftrightarrow> calls_besides uses us n xs \<and> calls_besides uses us n ys"
  "calls_besides uses us n (j # ps) \<longleftrightarrow>
    (\<exists>n' r p v. us ! j = Calling n' r p v \<and> us ! j \<in> uses \<and> n' \<noteq> n) \<and> calls_besides uses us n ps"
  by (auto simp: calls_besides_def)

text \<open>The data of a session: the fake is the state the effective uses lead to, with what the pending
  calls have recorded; and what was seen is what it would be one after the other.\<close>

definition data_inv :: "('k, 'o) use list \<Rightarrow> 'k \<Rightarrow> nat list \<Rightarrow> nat list \<Rightarrow> 'k \<Rightarrow> 'o list list \<Rightarrow> bool" where
  "data_inv us k0 ord ps k seen \<longleftrightarrow>
     k = with_pending us ps (uses_after us ord k0) \<and>
     list_all (\<lambda>(i, os). seen ! i = os) (uses_seen us ord k0) \<and>
     list_all (\<lambda>i. seen ! i = snd (use_step (us ! i) (uses_after us ord k0))) ps"

lemma seen_update:
  assumes "i \<notin> set ord" and "list_all (\<lambda>(j, os). seen ! j = os) (uses_seen us ord k0)"
  shows "list_all (\<lambda>(j, os). seen[i := x] ! j = os) (uses_seen us ord k0)"
proof -
  have "j \<noteq> i" if "(j, os) \<in> set (uses_seen us ord k0)" for j os
    using uses_seen_mem [OF that] assms(1) by auto
  with assms(2) show ?thesis by (fastforce simp: list_all_iff)
qed

lemma picked_update: "i \<notin> set ps \<Longrightarrow> list_all (\<lambda>j. seen ! j = P j) ps \<Longrightarrow> list_all (\<lambda>j. seen[i := x] ! j = P j) ps"
  by (induction ps) simp_all

context independent_uses
begin

lemma pending_record:
  "Calling n r p v \<in> uses \<Longrightarrow> calls_besides uses us n ps \<Longrightarrow>
    with_pending us ps (r k) = r (with_pending us ps k) \<and> p (with_pending us ps k) = p k"
  using records_apart by (induction ps) (auto, metis+)

lemma pending_invoke:
  "Calling n r p v \<in> uses \<Longrightarrow> calls_besides uses us n ps \<Longrightarrow> with_pending us ps (v k) = v (with_pending us ps k)"
  by (induction ps) (auto, metis invocations_apart)

lemma pending_set:
  "Setting n f \<in> uses \<Longrightarrow> calls_besides uses us n ps \<Longrightarrow> with_pending us ps (f k) = f (with_pending us ps k)"
  by (induction ps) (auto, metis settings_apart)

lemma pending_look:
  "Looking n g \<in> uses \<Longrightarrow> calls_besides uses us n ps \<Longrightarrow> g (with_pending us ps k) = g k"
  by (induction ps) (auto, metis looks_apart)

text \<open>What a pending call has picked it would still pick when uses of other methods take effect.\<close>

lemma picks_stay:
  assumes "calls_besides uses us n ps" and "u \<in> uses" and "method_name u = n"
  shows "list_all (\<lambda>j. snd (use_step (us ! j) (fst (use_step u k))) = snd (use_step (us ! j) k)) ps"
proof -
  have "snd (use_step (us ! j) (fst (use_step u k))) = snd (use_step (us ! j) k)" if "j \<in> set ps" for j
  proof -
    obtain n' r p v where j: "us ! j = Calling n' r p v" "Calling n' r p v \<in> uses" "n' \<noteq> n"
      using assms(1) \<open>j \<in> set ps\<close> unfolding calls_besides_def by metis
    show ?thesis
    proof (cases u)
      case (Calling m r' p' v')
      then show ?thesis
        using assms(2,3) j records_apart [OF j(2), of m r' p' v'] invocations_apart [OF j(2), of m r' p' v'] by auto
    next
      case (Setting m f)
      then show ?thesis using assms(2,3) j settings_apart [OF j(2), of m f] by auto
    next
      case (Looking m g)
      then show ?thesis using j by simp
    next
      case (Viewing ns g)
      then show ?thesis using j by simp
    qed
  qed
  then show ?thesis by (simp add: list_all_iff)
qed

lemma data_record:
  assumes "us ! i = Calling n r p v" and "us ! i \<in> uses" and "calls_besides uses us n ps"
    and "i \<notin> set ps" and "i \<notin> set ord" and "i < length seen" and "seen ! i = []"
    and "data_inv us k0 ord ps k seen"
  shows "data_inv us k0 ord (i # ps) (r k) (seen[i := [p k]])"
  using assms pending_record [OF _ assms(3), of r p v] seen_update [OF assms(5)] picked_update [OF assms(4)]
  by (auto simp: data_inv_def)

lemma data_invoke:
  assumes "us ! i = Calling n r p v" and "us ! i \<in> uses" and "calls_besides uses us n (remove1 i ps)"
    and "i \<in> set ps" and "distinct ps" and "data_inv us k0 ord ps k seen"
  shows "data_inv us k0 (ord @ [i]) (remove1 i ps) (v k) seen"
proof -
  let ?k = "uses_after us ord k0"
  obtain xs ys where ps: "ps = xs @ i # ys" and "i \<notin> set xs" using split_list_first [OF assms(4)] by blast
  then have rm: "remove1 i ps = xs @ ys" by (simp add: remove1_append)
  from assms(3) have "calls_besides uses us n xs" "calls_besides uses us n ys" by (simp_all add: rm)
  note u = assms(2) [unfolded assms(1)]
  have append: "with_pending us (as @ bs) q = with_pending us as (with_pending us bs q)" for as bs q
    by (simp add: with_pending_def)
  have "k = with_pending us (remove1 i ps) (r ?k)"
    using assms(6) pending_record [OF u \<open>calls_besides uses us n ys\<close>, of ?k] unfolding rm
    by (simp add: data_inv_def ps append assms(1))
  then have "v k = with_pending us (remove1 i ps) (v (r ?k))"
    using pending_invoke [OF u assms(3), of "r ?k"] by simp
  moreover have "list_all (\<lambda>j. seen ! j = snd (use_step (us ! j) (v (r ?k)))) (remove1 i ps)"
    using picks_stay [OF assms(3) u, of ?k] assms(6) set_remove1_subset [of i ps]
    by (auto simp: data_inv_def list_all_iff)
  moreover have "seen ! i = [p ?k]" using assms(1,4,6) by (simp add: data_inv_def list_all_iff)
  ultimately show ?thesis
    using assms(1,6) by (simp add: data_inv_def)
qed

lemma data_set:
  assumes "us ! i = Setting n f" and "us ! i \<in> uses" and "calls_besides uses us n ps"
    and "seen ! i = []" and "data_inv us k0 ord ps k seen"
  shows "data_inv us k0 (ord @ [i]) ps (f k) seen"
  using assms pending_set [OF _ assms(3)] picks_stay [OF assms(3,2), of "uses_after us ord k0"]
  by (auto simp: data_inv_def list_all_iff)

lemma data_look:
  assumes "us ! i = Looking n g" and "us ! i \<in> uses" and "calls_besides uses us n ps"
    and "i \<notin> set ps" and "i \<notin> set ord" and "i < length seen" and "seen ! i = []"
    and "data_inv us k0 ord ps k seen"
  shows "data_inv us k0 (ord @ [i]) ps k (seen[i := [g k]])"
  using assms pending_look [OF _ assms(3), of g] seen_update [OF assms(5)] picked_update [OF assms(4)]
  by (auto simp: data_inv_def)

lemma data_view:
  assumes "us ! i = Viewing ns g" and "i \<notin> set ord" and "i < length seen" and "seen ! i = []"
    and "data_inv us k0 ord [] k seen"
  shows "data_inv us k0 (ord @ [i]) [] k (seen[i := [g k]])"
  using assms seen_update [OF assms(2)] by (auto simp: data_inv_def)

end

section \<open>The invariant of a session\<close>

text \<open>\<open>pos i\<close> is how many lock operations use \<open>i\<close> has completed.\<close>

definition control_inv :: "('k, 'o) use list \<Rightarrow> (nat \<Rightarrow> nat) \<Rightarrow> ('k, 'o) session \<Rightarrow> bool" where
  "control_inv us pos c \<longleftrightarrow>
     lock_inv (s_locks c) \<and> length (todo (s_locks c)) = length us \<and> length (s_code c) = length us \<and>
     length (s_seen c) = length us \<and>
     (\<forall>i < length us. todo (s_locks c) ! i = drop (pos i) (use_locks (us ! i)) \<and>
        s_code c ! i = drop (pos i) (use_code (us ! i)) \<and>
        (\<not> pending (us ! i) (pos i) \<and> \<not> effective (us ! i) (pos i) \<longrightarrow> s_seen c ! i = []))"

definition placed :: "('k, 'o) use list \<Rightarrow> (nat \<Rightarrow> nat) \<Rightarrow> nat list \<Rightarrow> nat list \<Rightarrow> bool" where
  "placed us pos ord ps \<longleftrightarrow>
     distinct ord \<and> distinct ps \<and>
     (\<forall>i. i \<in> set ps \<longleftrightarrow> i < length us \<and> pending (us ! i) (pos i)) \<and>
     (\<forall>i. i \<in> set ord \<longleftrightarrow> i < length us \<and> effective (us ! i) (pos i))"

definition session_inv ::
  "('k, 'o) use list \<Rightarrow> 'k \<Rightarrow> nat list \<Rightarrow> (nat \<Rightarrow> nat) \<Rightarrow> nat list \<Rightarrow> nat list \<Rightarrow> ('k, 'o) session \<Rightarrow> bool" where
  "session_inv us k0 is pos ord ps c \<longleftrightarrow>
     timely is ord \<and> control_inv us pos c \<and> placed us pos ord ps \<and> data_inv us k0 ord ps (s_fake c) (s_seen c)"

lemma session_inv_start: "list_all well_formed us \<Longrightarrow> session_inv us k [] (\<lambda>_. 0) [] [] (session_start us k)"
proof -
  assume ok: "list_all well_formed us"
  have "\<not> pending u 0" "\<not> effective u 0" for u :: "('a, 'b) use" by (cases u; simp)+
  moreover have "lock_inv (lock_start (map use_locks us))"
    by (rule lock_inv_start) (use ok in \<open>simp add: list_all_iff use_fresh\<close>)
  ultimately show ?thesis
    by (simp add: session_inv_def timely_def in_real_time_def control_inv_def placed_def data_inv_def session_start_def lock_start_def)
qed

lemma control_at:
  assumes inv: "control_inv us pos c" and i: "i < length (todo (s_locks c))" and code: "s_code c ! i = e # es"
  shows "i < length us" and "pos i < length (use_code (us ! i))" and "e = use_code (us ! i) ! pos i"
    and "es = drop (Suc (pos i)) (use_code (us ! i))"
proof -
  from inv have len: "length (todo (s_locks c)) = length us"
    and at: "\<And>j. j < length us \<Longrightarrow> s_code c ! j = drop (pos j) (use_code (us ! j))"
    by (auto simp: control_inv_def)
  show "i < length us" using i len by simp
  with at code have drop: "drop (pos i) (use_code (us ! i)) = e # es" by metis
  show pos: "pos i < length (use_code (us ! i))"
  proof (rule ccontr)
    assume "\<not> ?thesis"
    then show False using drop by simp
  qed
  show "e = use_code (us ! i) ! pos i"
    using drop hd_drop_conv_nth [OF pos] by simp
  show "es = drop (Suc (pos i)) (use_code (us ! i))"
    using drop drop_tl [OF pos] by simp
qed

lemma control_work:
  assumes inv: "control_inv us pos c" and lock: "lock_step (s_locks c) l" and i: "i < length (todo (s_locks c))"
    and todo: "todo l = advance (s_locks c) i" and code: "s_code c ! i = e # es"
    and seen: "\<not> pending (us ! i) (Suc (pos i)) \<Longrightarrow> \<not> effective (us ! i) (Suc (pos i)) \<Longrightarrow> x = []"
    and c': "c' = c\<lparr>s_locks := l, s_fake := k, s_code := (s_code c)[i := es], s_seen := (s_seen c)[i := x]\<rparr>"
  shows "control_inv us (pos(i := Suc (pos i))) c'"
proof -
  note at = control_at [OF inv i code]
  have "tl (todo (s_locks c) ! i) = drop (Suc (pos i)) (use_locks (us ! i))"
    using inv at(1,2) by (simp add: control_inv_def use_lengths drop_tl)
  moreover have "lock_inv l" using lock_inv_step [OF lock] inv by (simp add: control_inv_def)
  ultimately show ?thesis
    using inv todo at(1,4) seen by (auto simp: control_inv_def c' nth_list_update)
qed

text \<open>A use that holds its method's mutex is alone with that method.\<close>

lemma alone_with_method:
  assumes inv: "control_inv us pos c" and "i < length us" and "set us \<subseteq> uses" and "i \<notin> set qs"
    and qs: "\<forall>j\<in>set qs. j < length us \<and> pending (us ! j) (pos j)"
    and holds: "writes (todo (s_locks c) ! i) (MethodMutex n) \<or> reads (todo (s_locks c) ! i) (MethodMutex n)"
  shows "calls_besides uses us n qs"
  unfolding calls_besides_def
proof
  fix j assume j: "j \<in> set qs"
  with qs have len: "j < length us" and pend: "pending (us ! j) (pos j)" by simp_all
  from pend obtain n' r p v where u: "us ! j = Calling n' r p v" by (cases "us ! j") simp_all
  have "holds_write (s_locks c) j (MethodMutex n')"
    using pending_writes [OF pend] inv len by (simp add: holds_write_def control_inv_def u)
  moreover have "j \<noteq> i" using j assms(4) by auto
  moreover have "holds_write (s_locks c) i (MethodMutex n) \<or> holds_read (s_locks c) i (MethodMutex n)"
    using holds inv assms(2) by (simp add: holds_write_def holds_read_def control_inv_def)
  ultimately have "n' \<noteq> n"
    using lock_inv_exclusion [of "s_locks c" j "MethodMutex n'" i] inv by (auto simp: control_inv_def)
  moreover have "us ! j \<in> uses" using len assms(3) nth_mem by blast
  ultimately show "\<exists>n' r p v. us ! j = Calling n' r p v \<and> us ! j \<in> uses \<and> n' \<noteq> n" using u by blast
qed

lemma placed_update:
  assumes "placed us pos ord ps" and "i < length us"
    and "ps' = (if pending (us ! i) j then (if i \<in> set ps then ps else i # ps) else remove1 i ps)"
    and "ord' = (if i \<in> set ord \<or> \<not> effective (us ! i) j then ord else ord @ [i])"
    and "effective (us ! i) (pos i) \<Longrightarrow> effective (us ! i) j"
  shows "placed us (pos(i := j)) ord' ps'"
  using assms by (auto simp: placed_def)

context independent_uses
begin

lemma session_inv_work:
  assumes inv: "session_inv us k0 is pos ord ps c" and us: "set us \<subseteq> uses"
    and lock: "lock_step (s_locks c) l" and len: "i < length (todo (s_locks c))"
    and todo: "todo l = advance (s_locks c) i" and code: "s_code c ! i = e # es"
    and run: "e (s_fake c) = (k, os)"
    and c': "c' = c\<lparr>s_locks := l, s_fake := k, s_code := (s_code c)[i := es], s_seen := (s_seen c)[i := s_seen c ! i @ os]\<rparr>"
  shows "\<exists>ord' ps'. session_inv us k0 (is @ [i]) (pos(i := Suc (pos i))) ord' ps' c'"
proof -
  let ?pos = "pos(i := Suc (pos i))"
  from inv have time: "timely is ord" and control: "control_inv us pos c" and placed: "placed us pos ord ps"
    and data: "data_inv us k0 ord ps (s_fake c) (s_seen c)" by (simp_all add: session_inv_def)
  note at = control_at [OF control len code]
  note i = at(1) and pos = at(2) and e = at(3)
  have u: "us ! i \<in> uses" using us i nth_mem by blast
  have seen: "i < length (s_seen c)" "\<not> pending (us ! i) (pos i) \<Longrightarrow> \<not> effective (us ! i) (pos i) \<Longrightarrow> s_seen c ! i = []"
    using control i by (simp_all add: control_inv_def)
  have quiet: "s_seen c ! i @ os = []"
    if "\<not> pending (us ! i) (Suc (pos i))" and "\<not> effective (us ! i) (Suc (pos i))"
  proof -
    from that obtain ns g where v: "us ! i = Viewing ns g" by (cases "us ! i") auto
    with that have before: "pos i < length ns" by simp
    have "e = no_effect" using e viewing_code(1) [OF before, of g] by (simp only: v)
    with run seen(2) before show ?thesis by (simp add: v no_effect_def)
  qed
  note work = control_work [OF control lock len todo code quiet c']
  have goal: ?thesis
    if "timely (is @ [i]) ord'" and "placed us ?pos ord' ps'"
      and "data_inv us k0 ord' ps' k ((s_seen c)[i := s_seen c ! i @ os])" for ord' ps'
    using that work c' by (auto simp: session_inv_def)
  have idle: ?thesis if "e = no_effect" and "\<not> pending (us ! i) (pos i)" and "\<not> pending (us ! i) (Suc (pos i))"
      and "effective (us ! i) (Suc (pos i)) = effective (us ! i) (pos i)"
  proof (rule goal)
    show "timely (is @ [i]) ord" by (rule timely_snoc(1) [OF time])
    show "placed us ?pos ord ps"
      by (rule placed_update [OF placed i]) (use placed that i in \<open>auto simp: placed_def remove1_idem\<close>)
    show "data_inv us k0 ord ps k ((s_seen c)[i := s_seen c ! i @ os])"
      using data run that(1) by (simp add: no_effect_def)
  qed
  have first: "calls_besides uses us (method_name (us ! i)) ps" if "pos i = 0" and "\<not> views (us ! i)"
  proof (rule alone_with_method [OF work i us])
    have none: "\<not> pending (us ! i) (pos i)" by (cases "us ! i") (simp_all add: that)
    then show "i \<notin> set ps" using placed by (simp add: placed_def)
    then show "\<forall>j\<in>set ps. j < length us \<and> pending (us ! j) (?pos j)"
      using placed by (auto simp: placed_def)
    have "todo (s_locks c') ! i = drop 1 (use_locks (us ! i))"
      using work i that(1) by (simp add: control_inv_def)
    then show "writes (todo (s_locks c') ! i) (MethodMutex (method_name (us ! i))) \<or>
        reads (todo (s_locks c') ! i) (MethodMutex (method_name (us ! i)))"
      using begun_holds [OF that(2)] by simp
  qed
  show ?thesis
  proof (cases "us ! i")
    case (Calling n r p v)
    consider "pos i = 0" | "pos i = 1" | "pos i = 2" | "pos i = 3" using pos Calling by fastforce
    then show ?thesis
    proof cases
      case 1
      have fresh: "i \<notin> set ps" "i \<notin> set ord" using placed Calling 1 by (simp_all add: placed_def)
      have seen0: "s_seen c ! i = []" using seen(2) Calling 1 by simp
      have k: "k = r (s_fake c)" "os = [p (s_fake c)]" using run e Calling 1 by simp_all
      show ?thesis
      proof (rule goal)
        show "timely (is @ [i]) ord" by (rule timely_snoc(1) [OF time])
        show "placed us ?pos ord (i # ps)"
          by (rule placed_update [OF placed i]) (use Calling 1 fresh in simp_all)
        show "data_inv us k0 ord (i # ps) k ((s_seen c)[i := s_seen c ! i @ os])"
          using data_record [OF Calling u _ fresh seen(1) seen0 data] first [OF 1]
          by (simp add: Calling k seen0)
      qed
    next
      case 2
      have mem: "i \<in> set ps" "i \<notin> set ord" "distinct ps" using placed Calling 2 i by (simp_all add: placed_def)
      have k: "k = v (s_fake c)" "os = []" using run e Calling 2 by simp_all
      have pend: "pending (us ! i) (pos i)" by (simp add: Calling 2)
      have "calls_besides uses us n (remove1 i ps)"
      proof (rule alone_with_method [OF control i us])
        show "i \<notin> set (remove1 i ps)" using mem(3) by simp
        show "\<forall>j\<in>set (remove1 i ps). j < length us \<and> pending (us ! j) (pos j)"
          using placed mem(3) by (auto simp: placed_def)
        show "writes (todo (s_locks c) ! i) (MethodMutex n) \<or> reads (todo (s_locks c) ! i) (MethodMutex n)"
          using pending_writes [OF pend] control i by (simp add: control_inv_def Calling)
      qed
      note invoked = data_invoke [OF Calling u this mem(1,3) data]
      show ?thesis
      proof (rule goal)
        show "timely (is @ [i]) (ord @ [i])" by (rule timely_snoc(2) [OF time mem(2)])
        show "placed us ?pos (ord @ [i]) (remove1 i ps)"
          by (rule placed_update [OF placed i]) (use Calling 2 mem in simp_all)
        show "data_inv us k0 (ord @ [i]) (remove1 i ps) k ((s_seen c)[i := s_seen c ! i @ os])"
          using invoked by (simp add: k)
      qed
    qed (use idle e Calling in simp_all)
  next
    case (Setting n f)
    consider "pos i = 0" | "pos i = 1" using pos Setting by fastforce
    then show ?thesis
    proof cases
      case 1
      have fresh: "i \<notin> set ps" "i \<notin> set ord" using placed Setting 1 by (simp_all add: placed_def)
      have seen0: "s_seen c ! i = []" using seen(2) Setting 1 by simp
      have k: "k = f (s_fake c)" "os = []" using run e Setting 1 by simp_all
      show ?thesis
      proof (rule goal)
        show "timely (is @ [i]) (ord @ [i])" by (rule timely_snoc(2) [OF time fresh(2)])
        show "placed us ?pos (ord @ [i]) ps"
          by (rule placed_update [OF placed i]) (use Setting 1 fresh in \<open>simp_all add: remove1_idem\<close>)
        show "data_inv us k0 (ord @ [i]) ps k ((s_seen c)[i := s_seen c ! i @ os])"
          using data_set [OF Setting u _ seen0 data] first [OF 1] by (simp add: Setting k)
      qed
    qed (use idle e Setting in simp_all)
  next
    case (Looking n g)
    consider "pos i = 0" | "pos i = 1" using pos Looking by fastforce
    then show ?thesis
    proof cases
      case 1
      have fresh: "i \<notin> set ps" "i \<notin> set ord" using placed Looking 1 by (simp_all add: placed_def)
      have seen0: "s_seen c ! i = []" using seen(2) Looking 1 by simp
      have k: "k = s_fake c" "os = [g (s_fake c)]" using run e Looking 1 by auto
      show ?thesis
      proof (rule goal)
        show "timely (is @ [i]) (ord @ [i])" by (rule timely_snoc(2) [OF time fresh(2)])
        show "placed us ?pos (ord @ [i]) ps"
          by (rule placed_update [OF placed i]) (use Looking 1 fresh in \<open>simp_all add: remove1_idem\<close>)
        show "data_inv us k0 (ord @ [i]) ps k ((s_seen c)[i := s_seen c ! i @ os])"
          using data_look [OF Looking u _ fresh seen(1) seen0 data] first [OF 1]
          by (simp add: Looking k seen0)
      qed
    qed (use idle e Looking in simp_all)
  next
    case (Viewing ns g)
    consider "pos i < length ns" | "pos i = length ns" | "length ns < pos i" by linarith
    then show ?thesis
    proof cases
      case 1
      have "e = no_effect" using e viewing_code(1) [OF 1, of g] by (simp only: Viewing)
      then show ?thesis by (rule idle) (use Viewing 1 in simp_all)
    next
      case 2
      have fresh: "i \<notin> set ps" "i \<notin> set ord" using placed Viewing 2 by (simp_all add: placed_def)
      have seen0: "s_seen c ! i = []" using seen(2) Viewing 2 by simp
      have "e = (\<lambda>k. (k, [g k]))" using e viewing_code(2) [of ns g] by (simp only: Viewing 2)
      then have k: "k = s_fake c" "os = [g (s_fake c)]" using run by auto
      have besides: "calls_besides uses us n ps" if "n \<in> set ns" for n
      proof (rule alone_with_method [OF work i us fresh(1)])
        show "\<forall>j\<in>set ps. j < length us \<and> pending (us ! j) (?pos j)"
          using placed fresh(1) by (auto simp: placed_def)
        have "todo (s_locks c') ! i = drop (Suc (length ns)) (use_locks (us ! i))"
          using work i 2 by (simp add: control_inv_def)
        then show "writes (todo (s_locks c') ! i) (MethodMutex n) \<or> reads (todo (s_locks c') ! i) (MethodMutex n)"
          using viewing_reads [OF that, of g] by (simp add: Viewing)
      qed
      have "ps = []"
      proof (rule ccontr)
        assume "ps \<noteq> []"
        then obtain j where j: "j \<in> set ps" by (cases ps) auto
        with placed have j': "j < length us" "pending (us ! j) (pos j)" by (simp_all add: placed_def)
        then obtain n r p v where c: "us ! j = Calling n r p v" by (cases "us ! j") auto
        have "us ! j \<in> uses" using us j'(1) nth_mem by blast
        with views_all [of n r p v ns g] u have "n \<in> set ns" by (simp add: c Viewing)
        from besides [OF this] j show False by (auto simp: calls_besides_def c)
      qed
      show ?thesis
      proof (rule goal)
        show "timely (is @ [i]) (ord @ [i])" by (rule timely_snoc(2) [OF time fresh(2)])
        show "placed us ?pos (ord @ [i]) []"
          by (rule placed_update [OF placed i]) (use Viewing 2 fresh \<open>ps = []\<close> in simp_all)
        show "data_inv us k0 (ord @ [i]) [] k ((s_seen c)[i := s_seen c ! i @ os])"
          using data_view [OF Viewing fresh(2) seen(1) seen0] data \<open>ps = []\<close> by (simp add: k seen0)
      qed
    next
      case 3
      have "e = no_effect" using e viewing_code(3) [OF 3, of g] pos by (simp only: Viewing)
      then show ?thesis by (rule idle) (use Viewing 3 in simp_all)
    qed
  qed
qed

lemma session_inv_step:
  assumes "session_step c js c'" and "session_inv us k0 is pos ord ps c" and "set us \<subseteq> uses"
  shows "\<exists>pos' ord' ps'. session_inv us k0 (is @ js) pos' ord' ps' c'"
  using assms(1)
proof cases
  case (wait l)
  have "lock_inv l"
    using lock_inv_step [OF wait(3)] assms(2) by (simp add: session_inv_def control_inv_def)
  with assms(2) have "session_inv us k0 (is @ js) pos ord ps c'"
    by (simp add: session_inv_def control_inv_def wait(1,2,4))
  then show ?thesis by blast
next
  case (work l i e es k os)
  from session_inv_work [OF assms(2,3) work(3-7) work(2)] show ?thesis unfolding work(1) by blast
qed

lemma session_inv_run:
  assumes "session_run c n is c'" and "session_inv us k0 [] pos ord ps c" and "set us \<subseteq> uses"
  shows "\<exists>pos' ord' ps'. session_inv us k0 is pos' ord' ps' c'"
  using assms by (induction rule: session_run.induct) (blast dest: session_inv_step)+

lemma uses_well_formed: "set us \<subseteq> uses \<Longrightarrow> list_all well_formed us"
proof -
  assume us: "set us \<subseteq> uses"
  have "well_formed u" if "u \<in> set us" for u
    using views_once us that by (cases u) (auto simp: well_formed_def)
  then show ?thesis by (simp add: list_all_iff)
qed

theorem linearisable:
  assumes "session_run (session_start us k) n is c" and "set us \<subseteq> uses" and ended: "finished (s_locks c)"
  shows "\<exists>ord. mset ord = mset [0..<length us] \<and> in_real_time is ord \<and> s_fake c = uses_after us ord k \<and>
    list_all (\<lambda>(i, os). s_seen c ! i = os) (uses_seen us ord k)"
proof -
  obtain pos ord ps where inv: "session_inv us k is pos ord ps c"
    using session_inv_run [OF assms(1) session_inv_start [OF uses_well_formed [OF assms(2)]] assms(2)] by blast
  then have control: "control_inv us pos c" and placed: "placed us pos ord ps"
    and data: "data_inv us k ord ps (s_fake c) (s_seen c)" and time: "timely is ord" by (simp_all add: session_inv_def)
  have end_pos: "length (use_locks (us ! i)) \<le> pos i" if "i < length us" for i
    using control that ended by (auto simp: control_inv_def finished_def list_all_length)
  have "\<not> pending (us ! i) (pos i) \<and> effective (us ! i) (pos i)" if "i < length us" for i
    using end_pos [OF that] by (cases "us ! i") (simp_all add: program_defs Invocations_locks_def)
  with placed have "ps = []" and set: "set ord = {0..<length us}"
    unfolding placed_def by (auto simp: set_eq_iff) (metis list.set_intros(1) neq_Nil_conv)
  have "mset ord = mset [0..<length us]"
    by (rule set_eq_iff_mset_eq_distinct [THEN iffD1]) (use placed set in \<open>simp_all add: placed_def\<close>)
  with data time show ?thesis by (auto simp: data_inv_def timely_def \<open>ps = []\<close>)
qed

end

section \<open>Every session ends\<close>

lemma session_locks: "session_step c is c' \<Longrightarrow> lock_step (s_locks c) (s_locks c')"
  by (erule session_stepE) simp_all

lemma session_locks_run: "session_run c n is c' \<Longrightarrow> lock_run (s_locks c) n (s_locks c')"
  by (induction rule: session_run.induct) (auto intro: lock_run.intros session_locks)

lemma use_program:
  assumes "list_all (\<lambda>u. \<not> views u) us"
  shows "list_all (\<lambda>p. \<exists>n. p = call_locks n \<or> p = setter_locks n \<or> p = getter_locks n) (map use_locks us)"
proof -
  have "\<exists>n. use_locks u = call_locks n \<or> use_locks u = setter_locks n \<or> use_locks u = getter_locks n"
    if "\<not> views u" for u :: "('a, 'b) use"
    using that by (cases u) auto
  with assms show ?thesis by (simp add: list_all_iff)
qed

lemma use_cost: "\<not> views u \<Longrightarrow> lock_cost (use_locks u) \<le> 6"
  by (cases u) (simp_all add: program_defs)

lemma uses_cost: "list_all (\<lambda>u. \<not> views u) us \<Longrightarrow> sum_list (map lock_cost (map use_locks us)) \<le> 6 * length us"
proof (induction us)
  case (Cons u us)
  with use_cost [of u] show ?case by simp
qed simp

text \<open>Whatever lock operation can be done, the session can do it.\<close>

lemma lock_session_step:
  assumes "lock_step (s_locks c) l" and control: "control_inv us pos c"
  shows "\<exists>js c'. session_step c js c'"
proof (cases "todo l = todo (s_locks c)")
  case True
  from session_step.wait [OF assms(1) this] show ?thesis by blast
next
  case False
  with assms(1) obtain i a p where i: "i < length (todo (s_locks c))" "todo (s_locks c) ! i = a # p"
      "todo l = advance (s_locks c) i"
    by cases auto
  then have "s_code c ! i \<noteq> []" using control use_lengths [of "us ! i"] by (auto simp: control_inv_def)
  then obtain e es where e: "s_code c ! i = e # es" by (cases "s_code c ! i") auto
  obtain k os where "e (s_fake c) = (k, os)" by fastforce
  from session_step.work [OF assms(1) i(1,3) e this] show ?thesis by blast
qed

context independent_uses
begin

lemma sessions_end:
  assumes "session_run (session_start us k) n is c" and "set us \<subseteq> uses" and calls: "list_all (\<lambda>u. \<not> views u) us"
  shows "(finished (s_locks c) \<or> (\<exists>js c'. session_step c js c')) \<and> n \<le> 6 * length us"
proof
  note run = session_locks_run [OF assms(1)]
  have start: "s_locks (session_start us k) = lock_start (map use_locks us)" by (simp add: session_start_def)
  note run = run [unfolded start]
  obtain pos ord ps where inv: "session_inv us k is pos ord ps c"
    using session_inv_run [OF assms(1) session_inv_start [OF uses_well_formed [OF assms(2)]] assms(2)] by blast
  then have control: "control_inv us pos c" by (simp add: session_inv_def)
  show "finished (s_locks c) \<or> (\<exists>js c'. session_step c js c')"
  proof (cases "stuck (s_locks c)")
    case True
    then show ?thesis using calls_finish [OF use_program [OF calls] run] by simp
  next
    case False
    then show ?thesis using lock_session_step [OF _ control] by (auto simp: stuck_def)
  qed
  have "n \<le> sum_list (map lock_cost (map use_locks us))"
    using calls_finish [OF use_program [OF calls] run] by simp
  also have "\<dots> \<le> 6 * length us" by (rule uses_cost [OF calls])
  finally show "n \<le> 6 * length us" .
qed

end

section \<open>Schedules\<close>

text \<open>The run of a schedule, computed.\<close>

definition lock_at :: "locks \<Rightarrow> nat \<Rightarrow> locks option" where
  "lock_at c i =
     (if length (todo c) \<le> i then None
      else case todo c ! i of
        [] \<Rightarrow> None
      | Lock m # p \<Rightarrow>
          if writer c m = None then Some (c\<lparr>writer := (writer c)(m := Some i)\<rparr>)
          else if writer c m = Some i \<and> readers c m = {} then Some (c\<lparr>todo := advance c i\<rparr>) else None
      | Unlock m # p \<Rightarrow> Some (c\<lparr>todo := advance c i, writer := (writer c)(m := None)\<rparr>)
      | RLock m # p \<Rightarrow>
          if writer c m = None then Some (c\<lparr>todo := advance c i, readers := (readers c)(m := insert i (readers c m))\<rparr>)
          else None
      | RUnlock m # p \<Rightarrow> Some (c\<lparr>todo := advance c i, readers := (readers c)(m := readers c m - {i})\<rparr>))"

definition session_at :: "('k, 'o) session \<Rightarrow> nat \<Rightarrow> ('k, 'o) session option" where
  "session_at c i =
     (case lock_at (s_locks c) i of
        None \<Rightarrow> None
      | Some l \<Rightarrow>
          if length (todo l ! i) = length (todo (s_locks c) ! i) then Some (c\<lparr>s_locks := l\<rparr>)
          else (case s_code c ! i of
            [] \<Rightarrow> None
          | e # es \<Rightarrow> (case e (s_fake c) of (k, os) \<Rightarrow>
              Some (c\<lparr>s_locks := l, s_fake := k, s_code := (s_code c)[i := es], s_seen := (s_seen c)[i := s_seen c ! i @ os]\<rparr>))))"

fun session_schedule :: "('k, 'o) session \<Rightarrow> nat list \<Rightarrow> ('k, 'o) session option" where
  "session_schedule c [] = Some c"
| "session_schedule c (i # is) = (case session_at c i of None \<Rightarrow> None | Some c' \<Rightarrow> session_schedule c' is)"

lemma lock_at_sound:
  assumes "lock_at c i = Some l"
  shows "lock_step c l" and "i < length (todo c)"
    and "todo l = todo c \<or> (todo l = advance c i \<and> todo c ! i \<noteq> [])"
proof -
  show i: "i < length (todo c)" using assms by (auto simp: lock_at_def split: if_splits)
  show "lock_step c l"
  proof (cases "todo c ! i")
    case (Cons a p)
    then show ?thesis
      using assms i announce [OF i] acquire [OF i] unlock [OF i] rlock [OF i] runlock [OF i]
      by (cases a) (auto simp: lock_at_def split: if_splits)
  qed (use assms in \<open>simp add: lock_at_def split: if_splits\<close>)
  show "todo l = todo c \<or> (todo l = advance c i \<and> todo c ! i \<noteq> [])"
    using assms by (auto simp: lock_at_def split: if_splits list.splits lock_op.splits)
qed

lemma session_at_sound:
  assumes "session_at c i = Some c'"
  shows "\<exists>js. session_step c js c'"
proof -
  from assms obtain l where l: "lock_at (s_locks c) i = Some l" by (auto simp: session_at_def split: option.splits)
  note sound = lock_at_sound [OF l]
  show ?thesis
  proof (cases "todo l = todo (s_locks c)")
    case True
    with assms l session_step.wait [OF sound(1) True] show ?thesis by (auto simp: session_at_def)
  next
    case False
    with sound(3) have adv: "todo l = advance (s_locks c) i" and ne: "todo (s_locks c) ! i \<noteq> []" by simp_all
    then have "length (todo l ! i) \<noteq> length (todo (s_locks c) ! i)" using sound(2) by (cases "todo (s_locks c) ! i") simp_all
    with assms l session_step.work [OF sound(1,2) adv] show ?thesis
      by (fastforce simp: session_at_def split: list.splits prod.splits)
  qed
qed

lemma session_run_cons: "session_run d n is e \<Longrightarrow> session_step c js d \<Longrightarrow> session_run c (Suc n) (js @ is) e"
proof (induction rule: session_run.induct)
  case (session_begin d)
  from session_run.session_next [OF session_run.session_begin session_begin] show ?case by simp
next
  case (session_next d n "is" e ks e')
  from session_run.session_next [OF session_next.IH [OF session_next.prems] session_next.hyps(2)] show ?case by simp
qed

lemma session_schedule_sound: "session_schedule c is = Some c' \<Longrightarrow> \<exists>js. session_run c (length is) js c'"
proof (induction "is" arbitrary: c)
  case Nil
  then show ?case using session_begin [of c] by auto
next
  case (Cons i "is")
  then obtain d js ks where "session_step c js d" "session_run d (length is) ks c'"
    using session_at_sound by (fastforce split: option.splits)
  from session_run_cons [OF this(2,1)] show ?case by auto
qed

end
