(* ===== verification/Fakes.thy ===== *)
theory Fakes
  imports Fake_Method
begin

text \<open>
  The test doubles of \<open>Env\<close>, \<open>Provisioner\<close> and \<open>RemoteClientFactory\<close>: \<^verbatim>\<open>fake_env.go\<close>,
  \<^verbatim>\<open>fake_provisioner.go\<close> and \<^verbatim>\<open>fake_remote_client_factory.go\<close> of \<^verbatim>\<open>dockerdriverfakes\<close>.
\<close>

section \<open>\<open>FakeEnv\<close>\<close>

record ('f, 'w) FakeEnv =
  fe_Context :: "('w, unit, ctx nilable) fake_method"
  fe_Logger :: "('w, unit, logger nilable) fake_method"
  fe_invocations :: "'f invocations"

definition new_FakeEnv :: "('f, 'w) FakeEnv" where
  "new_FakeEnv =
     \<lparr>fe_Context = fm_new None,
      fe_Logger = fm_new None,
      fe_invocations = None\<rparr>"

definition FakeEnv_recordInvocation :: "string \<Rightarrow> 'f fake_arg list \<Rightarrow> ('f, 'w) FakeEnv \<Rightarrow> ('f, 'w) FakeEnv" where
  "FakeEnv_recordInvocation key args fake = fake\<lparr>fe_invocations := record_invocation key args (fe_invocations fake)\<rparr>"

definition FakeEnv_Invocations :: "('f, 'w) FakeEnv \<Rightarrow> (string \<times> 'f fake_arg list list) list" where
  "FakeEnv_Invocations fake = (case fe_invocations fake of None \<Rightarrow> [] | Some m \<Rightarrow> m)"

definition FakeEnv_calls :: "('f, 'w) FakeEnv \<Rightarrow> string \<Rightarrow> 'f fake_arg list list" where
  "FakeEnv_calls fake =
     (\<lambda>_. [])(''Context'' := map (\<lambda>a. []) (fm_ArgsForCall (fe_Context fake)),
       ''Logger'' := map (\<lambda>a. []) (fm_ArgsForCall (fe_Logger fake)))"

subsection \<open>\<open>Context\<close>\<close>

definition FakeEnv_Context :: "unit \<Rightarrow> (('f, 'w) FakeEnv \<times> 'w, ctx nilable) state" where
  "FakeEnv_Context a = State (\<lambda>(fake, w).
     let fake' = FakeEnv_recordInvocation ''Context'' []
           (fake\<lparr>fe_Context := fm_record a (fe_Context fake)\<rparr>);
         (r, w') = run_state (fm_answer (fe_Context fake) a) w
     in (r, (fake', w')))"

definition FakeEnv_ContextCallCount :: "('f, 'w) FakeEnv \<Rightarrow> nat" where
  "FakeEnv_ContextCallCount fake = fm_CallCount (fe_Context fake)"

definition FakeEnv_ContextCalls :: "(unit \<Rightarrow> ('w, ctx nilable) state) nilable \<Rightarrow> ('f, 'w) FakeEnv \<Rightarrow> ('f, 'w) FakeEnv" where
  "FakeEnv_ContextCalls stub fake = fake\<lparr>fe_Context := fm_Calls stub (fe_Context fake)\<rparr>"

definition FakeEnv_ContextReturns :: "ctx nilable \<Rightarrow> ('f, 'w) FakeEnv \<Rightarrow> ('f, 'w) FakeEnv" where
  "FakeEnv_ContextReturns r fake = fake\<lparr>fe_Context := fm_SetReturns r (fe_Context fake)\<rparr>"

definition FakeEnv_ContextReturnsOnCall :: "int \<Rightarrow> ctx nilable \<Rightarrow> ('f, 'w) FakeEnv \<Rightarrow> ('f, 'w) FakeEnv" where
  "FakeEnv_ContextReturnsOnCall i r fake = fake\<lparr>fe_Context := fm_SetReturnsOnCall i r (fe_Context fake)\<rparr>"

interpretation fe_Context: fake_api FakeEnv_Context fe_Context fe_invocations "''Context''" "\<lambda>a. []"
  FakeEnv_ContextCalls FakeEnv_ContextReturns FakeEnv_ContextReturnsOnCall FakeEnv_calls
  by unfold_locales
    (simp_all add: FakeEnv_Context_def FakeEnv_ContextCalls_def FakeEnv_ContextReturns_def FakeEnv_ContextReturnsOnCall_def
      FakeEnv_recordInvocation_def FakeEnv_calls_def Let_def fun_eq_iff split: prod.split)

subsection \<open>\<open>Logger\<close>\<close>

definition FakeEnv_Logger :: "unit \<Rightarrow> (('f, 'w) FakeEnv \<times> 'w, logger nilable) state" where
  "FakeEnv_Logger a = State (\<lambda>(fake, w).
     let fake' = FakeEnv_recordInvocation ''Logger'' []
           (fake\<lparr>fe_Logger := fm_record a (fe_Logger fake)\<rparr>);
         (r, w') = run_state (fm_answer (fe_Logger fake) a) w
     in (r, (fake', w')))"

definition FakeEnv_LoggerCallCount :: "('f, 'w) FakeEnv \<Rightarrow> nat" where
  "FakeEnv_LoggerCallCount fake = fm_CallCount (fe_Logger fake)"

definition FakeEnv_LoggerCalls :: "(unit \<Rightarrow> ('w, logger nilable) state) nilable \<Rightarrow> ('f, 'w) FakeEnv \<Rightarrow> ('f, 'w) FakeEnv" where
  "FakeEnv_LoggerCalls stub fake = fake\<lparr>fe_Logger := fm_Calls stub (fe_Logger fake)\<rparr>"

definition FakeEnv_LoggerReturns :: "logger nilable \<Rightarrow> ('f, 'w) FakeEnv \<Rightarrow> ('f, 'w) FakeEnv" where
  "FakeEnv_LoggerReturns r fake = fake\<lparr>fe_Logger := fm_SetReturns r (fe_Logger fake)\<rparr>"

definition FakeEnv_LoggerReturnsOnCall :: "int \<Rightarrow> logger nilable \<Rightarrow> ('f, 'w) FakeEnv \<Rightarrow> ('f, 'w) FakeEnv" where
  "FakeEnv_LoggerReturnsOnCall i r fake = fake\<lparr>fe_Logger := fm_SetReturnsOnCall i r (fe_Logger fake)\<rparr>"

interpretation fe_Logger: fake_api FakeEnv_Logger fe_Logger fe_invocations "''Logger''" "\<lambda>a. []"
  FakeEnv_LoggerCalls FakeEnv_LoggerReturns FakeEnv_LoggerReturnsOnCall FakeEnv_calls
  by unfold_locales
    (simp_all add: FakeEnv_Logger_def FakeEnv_LoggerCalls_def FakeEnv_LoggerReturns_def FakeEnv_LoggerReturnsOnCall_def
      FakeEnv_recordInvocation_def FakeEnv_calls_def Let_def fun_eq_iff split: prod.split)

text \<open>Every use of the fake.\<close>

definition FakeEnv_uses :: "(('f, 'w) FakeEnv \<times> 'w \<Rightarrow> ('f, 'w) FakeEnv \<times> 'w) set" where
  "FakeEnv_uses =
     method_uses FakeEnv_Context FakeEnv_ContextCalls FakeEnv_ContextReturns FakeEnv_ContextReturnsOnCall \<union>
     method_uses FakeEnv_Logger FakeEnv_LoggerCalls FakeEnv_LoggerReturns FakeEnv_LoggerReturnsOnCall"

lemma FakeEnv_records:
  "fake_run FakeEnv_uses (new_FakeEnv, w) s \<Longrightarrow> records_agree fe_invocations FakeEnv_calls s"
proof (erule fake_run_invariant)
  show "records_agree fe_invocations FakeEnv_calls (new_FakeEnv, w)"
    by (simp add: records_agree_def new_FakeEnv_def FakeEnv_calls_def invocations_of_def)
qed (unfold FakeEnv_uses_def, (elim UnE)?, simp_all add: fe_Context.use_keeps_records fe_Logger.use_keeps_records)

section \<open>\<open>FakeProvisioner\<close>\<close>

record ('f, 'w) FakeProvisioner =
  fp_Create :: "('w, Env \<times> 'f CreateRequest, ErrorResponse) fake_method"
  fp_Remove :: "('w, Env \<times> RemoveRequest, ErrorResponse) fake_method"
  fp_invocations :: "'f invocations"

definition new_FakeProvisioner :: "('f, 'w) FakeProvisioner" where
  "new_FakeProvisioner =
     \<lparr>fp_Create = fm_new zero_ErrorResponse,
      fp_Remove = fm_new zero_ErrorResponse,
      fp_invocations = None\<rparr>"

definition FakeProvisioner_recordInvocation :: "string \<Rightarrow> 'f fake_arg list \<Rightarrow> ('f, 'w) FakeProvisioner \<Rightarrow> ('f, 'w) FakeProvisioner" where
  "FakeProvisioner_recordInvocation key args fake = fake\<lparr>fp_invocations := record_invocation key args (fp_invocations fake)\<rparr>"

definition FakeProvisioner_Invocations :: "('f, 'w) FakeProvisioner \<Rightarrow> (string \<times> 'f fake_arg list list) list" where
  "FakeProvisioner_Invocations fake = (case fp_invocations fake of None \<Rightarrow> [] | Some m \<Rightarrow> m)"

definition FakeProvisioner_calls :: "('f, 'w) FakeProvisioner \<Rightarrow> string \<Rightarrow> 'f fake_arg list list" where
  "FakeProvisioner_calls fake =
     (\<lambda>_. [])(''Create'' := map (\<lambda>a. [ArgEnv (fst a), ArgCreate (snd a)]) (fm_ArgsForCall (fp_Create fake)),
       ''Remove'' := map (\<lambda>a. [ArgEnv (fst a), ArgRemove (snd a)]) (fm_ArgsForCall (fp_Remove fake)))"

subsection \<open>\<open>Create\<close>\<close>

definition FakeProvisioner_Create :: "Env \<times> 'f CreateRequest \<Rightarrow> (('f, 'w) FakeProvisioner \<times> 'w, ErrorResponse) state" where
  "FakeProvisioner_Create a = State (\<lambda>(fake, w).
     let fake' = FakeProvisioner_recordInvocation ''Create'' [ArgEnv (fst a), ArgCreate (snd a)]
           (fake\<lparr>fp_Create := fm_record a (fp_Create fake)\<rparr>);
         (r, w') = run_state (fm_answer (fp_Create fake) a) w
     in (r, (fake', w')))"

definition FakeProvisioner_CreateCallCount :: "('f, 'w) FakeProvisioner \<Rightarrow> nat" where
  "FakeProvisioner_CreateCallCount fake = fm_CallCount (fp_Create fake)"

definition FakeProvisioner_CreateCalls :: "(Env \<times> 'f CreateRequest \<Rightarrow> ('w, ErrorResponse) state) nilable \<Rightarrow> ('f, 'w) FakeProvisioner \<Rightarrow> ('f, 'w) FakeProvisioner" where
  "FakeProvisioner_CreateCalls stub fake = fake\<lparr>fp_Create := fm_Calls stub (fp_Create fake)\<rparr>"

definition FakeProvisioner_CreateArgsForCall :: "int \<Rightarrow> ('f, 'w) FakeProvisioner \<Rightarrow> (Env \<times> 'f CreateRequest) option" where
  "FakeProvisioner_CreateArgsForCall i fake = fm_ArgsAt i (fp_Create fake)"

definition FakeProvisioner_CreateReturns :: "ErrorResponse \<Rightarrow> ('f, 'w) FakeProvisioner \<Rightarrow> ('f, 'w) FakeProvisioner" where
  "FakeProvisioner_CreateReturns r fake = fake\<lparr>fp_Create := fm_SetReturns r (fp_Create fake)\<rparr>"

definition FakeProvisioner_CreateReturnsOnCall :: "int \<Rightarrow> ErrorResponse \<Rightarrow> ('f, 'w) FakeProvisioner \<Rightarrow> ('f, 'w) FakeProvisioner" where
  "FakeProvisioner_CreateReturnsOnCall i r fake = fake\<lparr>fp_Create := fm_SetReturnsOnCall i r (fp_Create fake)\<rparr>"

interpretation fp_Create: fake_api FakeProvisioner_Create fp_Create fp_invocations "''Create''" "\<lambda>a. [ArgEnv (fst a), ArgCreate (snd a)]"
  FakeProvisioner_CreateCalls FakeProvisioner_CreateReturns FakeProvisioner_CreateReturnsOnCall FakeProvisioner_calls
  by unfold_locales
    (simp_all add: FakeProvisioner_Create_def FakeProvisioner_CreateCalls_def FakeProvisioner_CreateReturns_def FakeProvisioner_CreateReturnsOnCall_def
      FakeProvisioner_recordInvocation_def FakeProvisioner_calls_def Let_def fun_eq_iff split: prod.split)

subsection \<open>\<open>Remove\<close>\<close>

definition FakeProvisioner_Remove :: "Env \<times> RemoveRequest \<Rightarrow> (('f, 'w) FakeProvisioner \<times> 'w, ErrorResponse) state" where
  "FakeProvisioner_Remove a = State (\<lambda>(fake, w).
     let fake' = FakeProvisioner_recordInvocation ''Remove'' [ArgEnv (fst a), ArgRemove (snd a)]
           (fake\<lparr>fp_Remove := fm_record a (fp_Remove fake)\<rparr>);
         (r, w') = run_state (fm_answer (fp_Remove fake) a) w
     in (r, (fake', w')))"

definition FakeProvisioner_RemoveCallCount :: "('f, 'w) FakeProvisioner \<Rightarrow> nat" where
  "FakeProvisioner_RemoveCallCount fake = fm_CallCount (fp_Remove fake)"

definition FakeProvisioner_RemoveCalls :: "(Env \<times> RemoveRequest \<Rightarrow> ('w, ErrorResponse) state) nilable \<Rightarrow> ('f, 'w) FakeProvisioner \<Rightarrow> ('f, 'w) FakeProvisioner" where
  "FakeProvisioner_RemoveCalls stub fake = fake\<lparr>fp_Remove := fm_Calls stub (fp_Remove fake)\<rparr>"

definition FakeProvisioner_RemoveArgsForCall :: "int \<Rightarrow> ('f, 'w) FakeProvisioner \<Rightarrow> (Env \<times> RemoveRequest) option" where
  "FakeProvisioner_RemoveArgsForCall i fake = fm_ArgsAt i (fp_Remove fake)"

definition FakeProvisioner_RemoveReturns :: "ErrorResponse \<Rightarrow> ('f, 'w) FakeProvisioner \<Rightarrow> ('f, 'w) FakeProvisioner" where
  "FakeProvisioner_RemoveReturns r fake = fake\<lparr>fp_Remove := fm_SetReturns r (fp_Remove fake)\<rparr>"

definition FakeProvisioner_RemoveReturnsOnCall :: "int \<Rightarrow> ErrorResponse \<Rightarrow> ('f, 'w) FakeProvisioner \<Rightarrow> ('f, 'w) FakeProvisioner" where
  "FakeProvisioner_RemoveReturnsOnCall i r fake = fake\<lparr>fp_Remove := fm_SetReturnsOnCall i r (fp_Remove fake)\<rparr>"

interpretation fp_Remove: fake_api FakeProvisioner_Remove fp_Remove fp_invocations "''Remove''" "\<lambda>a. [ArgEnv (fst a), ArgRemove (snd a)]"
  FakeProvisioner_RemoveCalls FakeProvisioner_RemoveReturns FakeProvisioner_RemoveReturnsOnCall FakeProvisioner_calls
  by unfold_locales
    (simp_all add: FakeProvisioner_Remove_def FakeProvisioner_RemoveCalls_def FakeProvisioner_RemoveReturns_def FakeProvisioner_RemoveReturnsOnCall_def
      FakeProvisioner_recordInvocation_def FakeProvisioner_calls_def Let_def fun_eq_iff split: prod.split)

text \<open>Every use of the fake.\<close>

definition FakeProvisioner_uses :: "(('f, 'w) FakeProvisioner \<times> 'w \<Rightarrow> ('f, 'w) FakeProvisioner \<times> 'w) set" where
  "FakeProvisioner_uses =
     method_uses FakeProvisioner_Create FakeProvisioner_CreateCalls FakeProvisioner_CreateReturns FakeProvisioner_CreateReturnsOnCall \<union>
     method_uses FakeProvisioner_Remove FakeProvisioner_RemoveCalls FakeProvisioner_RemoveReturns FakeProvisioner_RemoveReturnsOnCall"

lemma FakeProvisioner_records:
  "fake_run FakeProvisioner_uses (new_FakeProvisioner, w) s \<Longrightarrow> records_agree fp_invocations FakeProvisioner_calls s"
proof (erule fake_run_invariant)
  show "records_agree fp_invocations FakeProvisioner_calls (new_FakeProvisioner, w)"
    by (simp add: records_agree_def new_FakeProvisioner_def FakeProvisioner_calls_def invocations_of_def)
qed (unfold FakeProvisioner_uses_def, (elim UnE)?, simp_all add: fp_Create.use_keeps_records fp_Remove.use_keeps_records)

section \<open>\<open>FakeRemoteClientFactory\<close>\<close>

record ('f, 'd, 'w) FakeRemoteClientFactory =
  ff_NewRemoteClient :: "('w, string \<times> TLSConfig nilable, 'd nilable \<times> go_error option) fake_method"
  ff_invocations :: "'f invocations"

definition new_FakeRemoteClientFactory :: "('f, 'd, 'w) FakeRemoteClientFactory" where
  "new_FakeRemoteClientFactory =
     \<lparr>ff_NewRemoteClient = fm_new (None, None),
      ff_invocations = None\<rparr>"

definition FakeRemoteClientFactory_recordInvocation :: "string \<Rightarrow> 'f fake_arg list \<Rightarrow> ('f, 'd, 'w) FakeRemoteClientFactory \<Rightarrow> ('f, 'd, 'w) FakeRemoteClientFactory" where
  "FakeRemoteClientFactory_recordInvocation key args fake = fake\<lparr>ff_invocations := record_invocation key args (ff_invocations fake)\<rparr>"

definition FakeRemoteClientFactory_Invocations :: "('f, 'd, 'w) FakeRemoteClientFactory \<Rightarrow> (string \<times> 'f fake_arg list list) list" where
  "FakeRemoteClientFactory_Invocations fake = (case ff_invocations fake of None \<Rightarrow> [] | Some m \<Rightarrow> m)"

definition FakeRemoteClientFactory_calls :: "('f, 'd, 'w) FakeRemoteClientFactory \<Rightarrow> string \<Rightarrow> 'f fake_arg list list" where
  "FakeRemoteClientFactory_calls fake =
     (\<lambda>_. [])(''NewRemoteClient'' := map (\<lambda>a. [ArgString (fst a), ArgTLS (snd a)]) (fm_ArgsForCall (ff_NewRemoteClient fake)))"

subsection \<open>\<open>NewRemoteClient\<close>\<close>

definition FakeRemoteClientFactory_NewRemoteClient :: "string \<times> TLSConfig nilable \<Rightarrow> (('f, 'd, 'w) FakeRemoteClientFactory \<times> 'w, 'd nilable \<times> go_error option) state" where
  "FakeRemoteClientFactory_NewRemoteClient a = State (\<lambda>(fake, w).
     let fake' = FakeRemoteClientFactory_recordInvocation ''NewRemoteClient'' [ArgString (fst a), ArgTLS (snd a)]
           (fake\<lparr>ff_NewRemoteClient := fm_record a (ff_NewRemoteClient fake)\<rparr>);
         (r, w') = run_state (fm_answer (ff_NewRemoteClient fake) a) w
     in (r, (fake', w')))"

definition FakeRemoteClientFactory_NewRemoteClientCallCount :: "('f, 'd, 'w) FakeRemoteClientFactory \<Rightarrow> nat" where
  "FakeRemoteClientFactory_NewRemoteClientCallCount fake = fm_CallCount (ff_NewRemoteClient fake)"

definition FakeRemoteClientFactory_NewRemoteClientCalls :: "(string \<times> TLSConfig nilable \<Rightarrow> ('w, 'd nilable \<times> go_error option) state) nilable \<Rightarrow> ('f, 'd, 'w) FakeRemoteClientFactory \<Rightarrow> ('f, 'd, 'w) FakeRemoteClientFactory" where
  "FakeRemoteClientFactory_NewRemoteClientCalls stub fake = fake\<lparr>ff_NewRemoteClient := fm_Calls stub (ff_NewRemoteClient fake)\<rparr>"

definition FakeRemoteClientFactory_NewRemoteClientArgsForCall :: "int \<Rightarrow> ('f, 'd, 'w) FakeRemoteClientFactory \<Rightarrow> (string \<times> TLSConfig nilable) option" where
  "FakeRemoteClientFactory_NewRemoteClientArgsForCall i fake = fm_ArgsAt i (ff_NewRemoteClient fake)"

definition FakeRemoteClientFactory_NewRemoteClientReturns :: "'d nilable \<times> go_error option \<Rightarrow> ('f, 'd, 'w) FakeRemoteClientFactory \<Rightarrow> ('f, 'd, 'w) FakeRemoteClientFactory" where
  "FakeRemoteClientFactory_NewRemoteClientReturns r fake = fake\<lparr>ff_NewRemoteClient := fm_SetReturns r (ff_NewRemoteClient fake)\<rparr>"

definition FakeRemoteClientFactory_NewRemoteClientReturnsOnCall :: "int \<Rightarrow> 'd nilable \<times> go_error option \<Rightarrow> ('f, 'd, 'w) FakeRemoteClientFactory \<Rightarrow> ('f, 'd, 'w) FakeRemoteClientFactory" where
  "FakeRemoteClientFactory_NewRemoteClientReturnsOnCall i r fake = fake\<lparr>ff_NewRemoteClient := fm_SetReturnsOnCall i r (ff_NewRemoteClient fake)\<rparr>"

interpretation ff_NewRemoteClient: fake_api FakeRemoteClientFactory_NewRemoteClient ff_NewRemoteClient ff_invocations "''NewRemoteClient''" "\<lambda>a. [ArgString (fst a), ArgTLS (snd a)]"
  FakeRemoteClientFactory_NewRemoteClientCalls FakeRemoteClientFactory_NewRemoteClientReturns FakeRemoteClientFactory_NewRemoteClientReturnsOnCall FakeRemoteClientFactory_calls
  by unfold_locales
    (simp_all add: FakeRemoteClientFactory_NewRemoteClient_def FakeRemoteClientFactory_NewRemoteClientCalls_def FakeRemoteClientFactory_NewRemoteClientReturns_def FakeRemoteClientFactory_NewRemoteClientReturnsOnCall_def
      FakeRemoteClientFactory_recordInvocation_def FakeRemoteClientFactory_calls_def Let_def fun_eq_iff split: prod.split)

text \<open>Every use of the fake.\<close>

definition FakeRemoteClientFactory_uses :: "(('f, 'd, 'w) FakeRemoteClientFactory \<times> 'w \<Rightarrow> ('f, 'd, 'w) FakeRemoteClientFactory \<times> 'w) set" where
  "FakeRemoteClientFactory_uses =
     method_uses FakeRemoteClientFactory_NewRemoteClient FakeRemoteClientFactory_NewRemoteClientCalls FakeRemoteClientFactory_NewRemoteClientReturns FakeRemoteClientFactory_NewRemoteClientReturnsOnCall"

lemma FakeRemoteClientFactory_records:
  "fake_run FakeRemoteClientFactory_uses (new_FakeRemoteClientFactory, w) s \<Longrightarrow> records_agree ff_invocations FakeRemoteClientFactory_calls s"
proof (erule fake_run_invariant)
  show "records_agree ff_invocations FakeRemoteClientFactory_calls (new_FakeRemoteClientFactory, w)"
    by (simp add: records_agree_def new_FakeRemoteClientFactory_def FakeRemoteClientFactory_calls_def invocations_of_def)
qed (unfold FakeRemoteClientFactory_uses_def, (elim UnE)?, simp_all add: ff_NewRemoteClient.use_keeps_records)

end
