(* ===== verification/Fake_Spec.thy ===== *)
theory Fake_Spec
  imports Fakes Fake_Drivers End_To_End
begin

text \<open>
  What tests get from the test doubles: the fakes as implementations of the interfaces they
  stand for, the records they keep of their calls, and the server over a faked driver, the
  set-up of the handlers' own tests.
\<close>

section \<open>The fakes as drivers\<close>

text \<open>\<open>var _ dockerdriver.Driver = new(FakeDriver)\<close>.\<close>

definition FakeDriver_Driver :: "('f, ('f, 'w) FakeDriver \<times> 'w) Driver" where
  "FakeDriver_Driver =
     \<lparr>Driver_Activate = FakeDriver_Activate,
      Driver_Get = (\<lambda>env q. FakeDriver_Get (env, q)),
      Driver_List = FakeDriver_List,
      Driver_Mount = (\<lambda>env q. FakeDriver_Mount (env, q)),
      Driver_Path = (\<lambda>env q. FakeDriver_Path (env, q)),
      Driver_Unmount = (\<lambda>env q. FakeDriver_Unmount (env, q)),
      Driver_Capabilities = FakeDriver_Capabilities,
      Driver_Create = (\<lambda>env q. FakeDriver_Create (env, q)),
      Driver_Remove = (\<lambda>env q. FakeDriver_Remove (env, q))\<rparr>"

text \<open>\<open>var _ dockerdriver.MatchableDriver = new(FakeMatchableDriver)\<close>.\<close>

definition FakeMatchableDriver_Driver :: "('f, ('f, 'w) FakeMatchableDriver \<times> 'w) MatchableDriver" where
  "FakeMatchableDriver_Driver =
     \<lparr>Driver_Activate = FakeMatchableDriver_Activate,
      Driver_Get = (\<lambda>env q. FakeMatchableDriver_Get (env, q)),
      Driver_List = FakeMatchableDriver_List,
      Driver_Mount = (\<lambda>env q. FakeMatchableDriver_Mount (env, q)),
      Driver_Path = (\<lambda>env q. FakeMatchableDriver_Path (env, q)),
      Driver_Unmount = (\<lambda>env q. FakeMatchableDriver_Unmount (env, q)),
      Driver_Capabilities = FakeMatchableDriver_Capabilities,
      Driver_Create = (\<lambda>env q. FakeMatchableDriver_Create (env, q)),
      Driver_Remove = (\<lambda>env q. FakeMatchableDriver_Remove (env, q)),
      Driver_Matches = (\<lambda>lg url tls. FakeMatchableDriver_Matches (lg, url, tls))\<rparr>"

section \<open>The larger fake as the smaller one\<close>

text \<open>Forgetting \<open>Matches\<close> and its invocations.\<close>

definition forget_Matches :: "('f, 'w) FakeMatchableDriver \<Rightarrow> ('f, 'w) FakeDriver" where
  "forget_Matches k =
     \<lparr>fd_Activate = fmd_Activate k, fd_Capabilities = fmd_Capabilities k, fd_Create = fmd_Create k,
      fd_Get = fmd_Get k, fd_List = fmd_List k, fd_Mount = fmd_Mount k, fd_Path = fmd_Path k,
      fd_Remove = fmd_Remove k, fd_Unmount = fmd_Unmount k,
      fd_invocations = map_option (filter (\<lambda>e. fst e \<noteq> ''Matches'')) (fmd_invocations k)\<rparr>"

definition simulated_by ::
  "('a \<Rightarrow> (('f, 'w) FakeMatchableDriver \<times> 'w, 'r) state) \<Rightarrow> ('a \<Rightarrow> (('f, 'w) FakeDriver \<times> 'w, 'r) state) \<Rightarrow> bool" where
  "simulated_by m d \<longleftrightarrow>
     (\<forall>a k w. run_state (d a) (forget_Matches k, w) = apsnd (apfst forget_Matches) (run_state (m a) (k, w)))"

lemma filter_record_invocation:
  "key \<noteq> ''Matches'' \<Longrightarrow>
    map_option (filter (\<lambda>e. fst e \<noteq> ''Matches'')) (record_invocation key args invs) =
      record_invocation key args (map_option (filter (\<lambda>e. fst e \<noteq> ''Matches'')) invs)"
  by (cases invs) (simp_all add: record_invocation_def Let_def map_of_filter_key conj_commute)

lemma filter_record_Matches:
  "map_option (filter (\<lambda>e. fst e \<noteq> ''Matches'')) (record_invocation ''Matches'' args invs) =
    (case invs of None \<Rightarrow> Some [] | Some m \<Rightarrow> Some (filter (\<lambda>e. fst e \<noteq> ''Matches'') m))"
  by (cases invs) (simp_all add: record_invocation_def Let_def)

lemmas forget_simps = simulated_by_def forget_Matches_def filter_record_invocation Let_def
  FakeDriver_recordInvocation_def FakeMatchableDriver_recordInvocation_def

lemma simulated_calls:
  "simulated_by FakeMatchableDriver_Activate FakeDriver_Activate"
  "simulated_by FakeMatchableDriver_Capabilities FakeDriver_Capabilities"
  "simulated_by FakeMatchableDriver_Create FakeDriver_Create"
  "simulated_by FakeMatchableDriver_Get FakeDriver_Get"
  "simulated_by FakeMatchableDriver_List FakeDriver_List"
  "simulated_by FakeMatchableDriver_Mount FakeDriver_Mount"
  "simulated_by FakeMatchableDriver_Path FakeDriver_Path"
  "simulated_by FakeMatchableDriver_Remove FakeDriver_Remove"
  "simulated_by FakeMatchableDriver_Unmount FakeDriver_Unmount"
  by (simp_all add: forget_simps FakeMatchableDriver_Activate_def FakeDriver_Activate_def
      FakeMatchableDriver_Capabilities_def FakeDriver_Capabilities_def
      FakeMatchableDriver_Create_def FakeDriver_Create_def FakeMatchableDriver_Get_def FakeDriver_Get_def
      FakeMatchableDriver_List_def FakeDriver_List_def FakeMatchableDriver_Mount_def FakeDriver_Mount_def
      FakeMatchableDriver_Path_def FakeDriver_Path_def FakeMatchableDriver_Remove_def FakeDriver_Remove_def
      FakeMatchableDriver_Unmount_def FakeDriver_Unmount_def split: prod.split)

lemma forgotten_Matches:
  "forget_Matches (fst (snd (run_state (FakeMatchableDriver_Matches a) (k, w)))) =
    (forget_Matches k)\<lparr>fd_invocations := map_option (filter (\<lambda>e. fst e \<noteq> ''Matches''))
      (record_invocation ''Matches'' [ArgLogger (fst a), ArgString (fst (snd a)), ArgTLS (snd (snd a))]
        (fmd_invocations k))\<rparr>"
  by (simp add: FakeMatchableDriver_Matches_def FakeMatchableDriver_recordInvocation_def forget_Matches_def
      Let_def split: prod.split)

section \<open>Properties\<close>

text \<open>Property C23. However a test uses the fake of a matchable driver, calling it or setting what it
  answers, the invocations it reports for each method are the arguments it has recorded for that
  method, in order, and for each of the ten methods the count it reports is their number.\<close>

theorem fake_invocations:
  assumes "fake_run FakeMatchableDriver_uses (new_FakeMatchableDriver, w) (fake, w')"
  shows "invocations_of n (Some (FakeMatchableDriver_Invocations fake)) = FakeMatchableDriver_calls fake n \<and>
    length (invocations_of ''Activate'' (Some (FakeMatchableDriver_Invocations fake))) = FakeMatchableDriver_ActivateCallCount fake \<and>
    length (invocations_of ''Capabilities'' (Some (FakeMatchableDriver_Invocations fake))) = FakeMatchableDriver_CapabilitiesCallCount fake \<and>
    length (invocations_of ''Create'' (Some (FakeMatchableDriver_Invocations fake))) = FakeMatchableDriver_CreateCallCount fake \<and>
    length (invocations_of ''Get'' (Some (FakeMatchableDriver_Invocations fake))) = FakeMatchableDriver_GetCallCount fake \<and>
    length (invocations_of ''List'' (Some (FakeMatchableDriver_Invocations fake))) = FakeMatchableDriver_ListCallCount fake \<and>
    length (invocations_of ''Matches'' (Some (FakeMatchableDriver_Invocations fake))) = FakeMatchableDriver_MatchesCallCount fake \<and>
    length (invocations_of ''Mount'' (Some (FakeMatchableDriver_Invocations fake))) = FakeMatchableDriver_MountCallCount fake \<and>
    length (invocations_of ''Path'' (Some (FakeMatchableDriver_Invocations fake))) = FakeMatchableDriver_PathCallCount fake \<and>
    length (invocations_of ''Remove'' (Some (FakeMatchableDriver_Invocations fake))) = FakeMatchableDriver_RemoveCallCount fake \<and>
    length (invocations_of ''Unmount'' (Some (FakeMatchableDriver_Invocations fake))) = FakeMatchableDriver_UnmountCallCount fake"
proof -
  have "invocations_of n (Some (FakeMatchableDriver_Invocations fake)) = FakeMatchableDriver_calls fake n" for n
    using FakeMatchableDriver_records [OF assms]
    by (cases "fmd_invocations fake")
      (simp_all add: records_agree_def FakeMatchableDriver_Invocations_def invocations_of_def)
  then show ?thesis
    by (simp add: FakeMatchableDriver_calls_def fm_CallCount_def
        FakeMatchableDriver_ActivateCallCount_def FakeMatchableDriver_CapabilitiesCallCount_def FakeMatchableDriver_CreateCallCount_def FakeMatchableDriver_GetCallCount_def FakeMatchableDriver_ListCallCount_def FakeMatchableDriver_MatchesCallCount_def FakeMatchableDriver_MountCallCount_def FakeMatchableDriver_PathCallCount_def FakeMatchableDriver_RemoveCallCount_def FakeMatchableDriver_UnmountCallCount_def)
qed

text \<open>Property C24. The fake of a matchable driver is the fake of a driver once \<open>Matches\<close> is
  forgotten: each of the nine calls answers the same, does the same to the world and leaves the
  same records, and a call of \<open>Matches\<close> leaves the records of the others alone.\<close>

theorem fake_matchable_refines:
  "simulated_by FakeMatchableDriver_Activate FakeDriver_Activate \<and>
   simulated_by FakeMatchableDriver_Capabilities FakeDriver_Capabilities \<and>
   simulated_by FakeMatchableDriver_Create FakeDriver_Create \<and>
   simulated_by FakeMatchableDriver_Get FakeDriver_Get \<and>
   simulated_by FakeMatchableDriver_List FakeDriver_List \<and>
   simulated_by FakeMatchableDriver_Mount FakeDriver_Mount \<and>
   simulated_by FakeMatchableDriver_Path FakeDriver_Path \<and>
   simulated_by FakeMatchableDriver_Remove FakeDriver_Remove \<and>
   simulated_by FakeMatchableDriver_Unmount FakeDriver_Unmount \<and>
   FakeDriver_calls (forget_Matches (fst (snd (run_state (FakeMatchableDriver_Matches a) (k, w))))) =
     FakeDriver_calls (forget_Matches k) \<and>
   FakeDriver_Invocations (forget_Matches (fst (snd (run_state (FakeMatchableDriver_Matches a) (k, w))))) =
     FakeDriver_Invocations (forget_Matches k)"
  by (simp add: simulated_calls forgotten_Matches FakeDriver_calls_def)
    (cases "fmd_invocations k"; simp add: FakeDriver_Invocations_def filter_record_Matches forget_Matches_def)

text \<open>Property C22. The mount handler over a faked driver that was told what to answer: the answer is
  written, the fake has recorded one more call of \<open>Mount\<close> with the monitored environment and the
  decoded request, and no call of another method.\<close>

theorem mount_over_fake:
  assumes "rd_error (req_Body req) = None"
    and "Unmarshal dec_MountRequest zero_MountRequest (rd_bytes (req_Body req)) = Inr q"
    and "srv_driver s = (FakeDriver_MountReturns r fake, w)" and "fm_ReturnsOnCall (fd_Mount fake) = None"
    and "env = \<lparr>Env_Logger = lg @ ''.handle-mount.with-cancel'', Env_Context = CancelCtx (req_Context req)\<rparr>"
    and "s' = snd (run_state (newMountHandler lg FakeDriver_Driver req) s)"
    and "srv_driver s' = (fake', w')"
  shows "srv_rw s' = json_response (MountResponse_json r) (srv_rw s) \<and> w' = w \<and>
    FakeDriver_MountArgsForCall (int (FakeDriver_MountCallCount fake)) fake' = Some (env, q) \<and>
    FakeDriver_calls fake' = (FakeDriver_calls fake)(''Mount'' := FakeDriver_calls fake ''Mount'' @ [[ArgEnv env, ArgMount q]])"
proof -
  let ?f = "FakeDriver_MountReturns r fake"
  have q: "accept_mount (req_Body req) = Inr q"
    using assms(1,2) by (simp add: accept_mount_def accept_json_def)
  have env: "monitor_env (Session lg ''handle-mount'') (req_Context req) = env"
    by (simp add: monitor_env_def Session_def assms(5))
  obtain a k v where run: "run_state (FakeDriver_Mount (env, q)) (?f, w) = (a, (k, v))"
    by (metis prod.collapse)
  have "run_state (Driver_Mount FakeDriver_Driver (monitor_env (Session lg ''handle-mount'') (req_Context req)) q)
      (srv_driver s) = (a, (k, v))"
    by (simp add: FakeDriver_Driver_def env assms(3) run)
  from serve_mount.accepts(1,2) [OF q this] have "k = fake'" "v = w'"
    "srv_rw s' = json_response (MountResponse_json a) (srv_rw s)"
    using assms(6,7) by simp_all
  moreover have "a = r" "v = w"
    using fd_Mount.unstubbed [of ?f "(env, q)" w] run assms(4)
    by (simp_all add: fd_Mount.set_Returns fm_SetReturns_def fm_specific_def)
  moreover have "fm_CallCount (fd_Mount ?f) = FakeDriver_MountCallCount fake"
    by (simp add: fd_Mount.set_Returns fm_CallCount_def FakeDriver_MountCallCount_def)
  ultimately show ?thesis
    using fd_Mount.last_args [of ?f "(env, q)" w] fd_Mount.remembered [of "(env, q)" ?f w] run
    by (simp add: FakeDriver_MountArgsForCall_def fd_Mount.set_Returns)
qed

text \<open>A provisioner fake told what to answer in general and on one call answers so: the next call
  gets the specific answer exactly when its number is that call's, otherwise the general one,
  and the call's arguments can be read back under its number.\<close>

theorem fake_create_answers:
  assumes "fm_ReturnsOnCall (fp_Create fake) = None"
    and "fake' = FakeProvisioner_CreateReturnsOnCall i specific (FakeProvisioner_CreateReturns general fake)"
    and "(r, (fake'', w')) = run_state (FakeProvisioner_Create (env, q)) (fake', w)"
  shows "r = (if i = int (FakeProvisioner_CreateCallCount fake) then specific else general) \<and> w' = w \<and>
    FakeProvisioner_CreateCallCount fake'' = Suc (FakeProvisioner_CreateCallCount fake) \<and>
    FakeProvisioner_CreateArgsForCall (int (FakeProvisioner_CreateCallCount fake)) fake'' = Some (env, q)"
proof -
  have m: "fp_Create fake' = fm_SetReturnsOnCall i specific (fm_SetReturns general (fp_Create fake))"
    by (simp add: assms(2) fp_Create.set_Returns fp_Create.set_ReturnsOnCall)
  have n: "fm_CallCount (fp_Create fake') = fm_CallCount (fp_Create fake)"
    by (simp add: m fm_CallCount_def)
  have stub: "fm_Stub (fp_Create fake') = None"
    by (simp add: m fm_SetReturnsOnCall_def)
  show ?thesis
    using fp_Create.configured [OF assms(1), of "(env, q)" i specific general w]
      fp_Create.unstubbed [OF stub, of "(env, q)" w] fp_Create.count [of "(env, q)" fake' w]
      fp_Create.last_args [of fake' "(env, q)" w]
    by (simp add: assms(2,3) [symmetric] n FakeProvisioner_CreateCallCount_def FakeProvisioner_CreateArgsForCall_def)
qed

section \<open>Instances\<close>

theorem fake_create_answers_witness:
  "fst (run_state (FakeProvisioner_Create (lone_env, zero_CreateRequest))
      (FakeProvisioner_CreateReturnsOnCall 0 \<lparr>ErrorResponse_Err = ''first''\<rparr>
        (FakeProvisioner_CreateReturns \<lparr>ErrorResponse_Err = ''other''\<rparr> (new_FakeProvisioner :: (unit, unit) FakeProvisioner)), ())) =
    \<lparr>ErrorResponse_Err = ''first''\<rparr>"
proof -
  let ?fake = "new_FakeProvisioner :: (unit, unit) FakeProvisioner"
  have "fm_ReturnsOnCall (fp_Create ?fake) = None" and "FakeProvisioner_CreateCallCount ?fake = 0"
    by (simp_all add: new_FakeProvisioner_def fm_new_def FakeProvisioner_CreateCallCount_def fm_CallCount_def)
  moreover obtain r fake'' w' where run: "(r, (fake'', w')) = run_state (FakeProvisioner_Create (lone_env, zero_CreateRequest))
      (FakeProvisioner_CreateReturnsOnCall 0 \<lparr>ErrorResponse_Err = ''first''\<rparr>
        (FakeProvisioner_CreateReturns \<lparr>ErrorResponse_Err = ''other''\<rparr> ?fake), ())"
    by (metis prod.collapse)
  ultimately have "r = \<lparr>ErrorResponse_Err = ''first''\<rparr>"
    using fake_create_answers [OF _ refl run] by simp
  then show ?thesis by (simp only: run [symmetric] fst_conv)
qed

abbreviation mounted_fake :: "(unit, unit) FakeMatchableDriver \<times> unit" where
  "mounted_fake \<equiv>
     snd (run_state (FakeMatchableDriver_Mount (lone_env, \<lparr>MountRequest_Name = ''v''\<rparr>)) (new_FakeMatchableDriver, ()))"

lemma mounted_fake_run: "fake_run FakeMatchableDriver_uses (new_FakeMatchableDriver, ()) (fst mounted_fake, snd mounted_fake)"
proof -
  have "(\<lambda>s. snd (run_state (FakeMatchableDriver_Mount (lone_env, \<lparr>MountRequest_Name = ''v''\<rparr>)) s)) \<in>
      method_uses FakeMatchableDriver_Mount FakeMatchableDriver_MountCalls FakeMatchableDriver_MountReturns
        FakeMatchableDriver_MountReturnsOnCall"
    unfolding method_uses_def by blast
  then have "(\<lambda>s. snd (run_state (FakeMatchableDriver_Mount (lone_env, \<lparr>MountRequest_Name = ''v''\<rparr>)) s)) \<in> FakeMatchableDriver_uses"
    unfolding FakeMatchableDriver_uses_def by blast
  from fake_run_step [OF fake_run_start this] show ?thesis by (simp only: prod.collapse)
qed

theorem fake_invocations_witness:
  "length (invocations_of ''Mount'' (Some (FakeMatchableDriver_Invocations (fst mounted_fake)))) = 1"
proof -
  have "fm_CallCount (fmd_Mount (new_FakeMatchableDriver :: (unit, unit) FakeMatchableDriver)) = 0"
    by (simp add: new_FakeMatchableDriver_def fm_CallCount_def)
  then have "FakeMatchableDriver_MountCallCount (fst mounted_fake) = 1"
    unfolding FakeMatchableDriver_MountCallCount_def fmd_Mount.count by simp
  with fake_invocations [OF mounted_fake_run] show ?thesis by metis
qed

definition fake_server_state :: "((unit, unit) FakeDriver \<times> unit) server_state" where
  "fake_server_state =
     \<lparr>log = [], srv_driver = (FakeDriver_MountReturns \<lparr>MountResponse_Err = '''', MountResponse_Mountpoint = ''/mnt/v''\<rparr> new_FakeDriver, ()),
      srv_rw = fresh_writer True, srv_monitors = []\<rparr>"

theorem mount_over_fake_witness:
  "srv_rw (snd (run_state (newMountHandler ''srv'' FakeDriver_Driver (demo_request (print_json (JObj [(''Name'', JStr ''v'')])) None)) fake_server_state)) =
    json_response (MountResponse_json \<lparr>MountResponse_Err = '''', MountResponse_Mountpoint = ''/mnt/v''\<rparr>) (fresh_writer True)"
proof -
  have q: "Unmarshal dec_MountRequest zero_MountRequest
      (rd_bytes (req_Body (demo_request (print_json (JObj [(''Name'', JStr ''v'')])) None))) = Inr \<lparr>MountRequest_Name = ''v''\<rparr>"
    using wire_MountRequest.unmarshal_marshal [of "\<lparr>MountRequest_Name = ''v''\<rparr>"]
    by (simp add: MountRequest_json_def demo_request_def valid_utf8_ascii)
  show ?thesis
    using mount_over_fake [OF _ q _ _ refl refl prod.collapse [symmetric], of fake_server_state
        "\<lparr>MountResponse_Err = '''', MountResponse_Mountpoint = ''/mnt/v''\<rparr>" new_FakeDriver "()" "''srv''"]
    by (simp add: demo_request_def fake_server_state_def new_FakeDriver_def fm_new_def)
qed

end
