(* ===== verification/Fake_Concurrent.thy ===== *)
theory Fake_Concurrent
  imports Fake_Sessions Fake_Spec Driver_Programs "HOL-Library.Sublist"
begin

text \<open>
  \<^verbatim>\<open>FakeDriver\<close> used by many goroutines at once. A call of one of its nine methods records its
  arguments and picks its answer under the method's mutex and appends to the invocations under
  theirs; a change of a method (\<open>Calls\<close>, \<open>Returns\<close>, \<open>ReturnsOnCall\<close>) and a look at it (\<open>CallCount\<close>,
  \<open>ArgsForCall\<close>) run under the method's mutex; \<open>Invocations\<close> looks when it has read locks of the invocations and of
  every method. These uses are independent, so every session of the fake is linearisable: a stub runs after the mutex is free, and what is compared is the
  stub or answer a call goes on with.
\<close>

section \<open>Calls\<close>

fun call_method :: "'f call \<Rightarrow> string" where
  "call_method CallActivate = ''Activate''"
| "call_method CallCapabilities = ''Capabilities''"
| "call_method (CallCreate q) = ''Create''"
| "call_method (CallGet q) = ''Get''"
| "call_method CallList = ''List''"
| "call_method (CallMount q) = ''Mount''"
| "call_method (CallPath q) = ''Path''"
| "call_method (CallRemove q) = ''Remove''"
| "call_method (CallUnmount q) = ''Unmount''"

fun call_args :: "Env \<Rightarrow> 'f call \<Rightarrow> 'f fake_arg list" where
  "call_args env CallActivate = [ArgEnv env]"
| "call_args env CallCapabilities = [ArgEnv env]"
| "call_args env (CallCreate q) = [ArgEnv env, ArgCreate q]"
| "call_args env (CallGet q) = [ArgEnv env, ArgGet q]"
| "call_args env CallList = [ArgEnv env]"
| "call_args env (CallMount q) = [ArgEnv env, ArgMount q]"
| "call_args env (CallPath q) = [ArgEnv env, ArgPath q]"
| "call_args env (CallRemove q) = [ArgEnv env, ArgRemove q]"
| "call_args env (CallUnmount q) = [ArgEnv env, ArgUnmount q]"

text \<open>What a call does under its method's mutex: append its arguments, and take the stub or the
  answer it will give.\<close>

fun record_call :: "Env \<Rightarrow> 'f call \<Rightarrow> ('f, 'w) FakeDriver \<Rightarrow> ('f, 'w) FakeDriver" where
  "record_call env CallActivate fake = fake\<lparr>fd_Activate := fm_record env (fd_Activate fake)\<rparr>"
| "record_call env CallCapabilities fake = fake\<lparr>fd_Capabilities := fm_record env (fd_Capabilities fake)\<rparr>"
| "record_call env (CallCreate q) fake = fake\<lparr>fd_Create := fm_record (env, q) (fd_Create fake)\<rparr>"
| "record_call env (CallGet q) fake = fake\<lparr>fd_Get := fm_record (env, q) (fd_Get fake)\<rparr>"
| "record_call env CallList fake = fake\<lparr>fd_List := fm_record env (fd_List fake)\<rparr>"
| "record_call env (CallMount q) fake = fake\<lparr>fd_Mount := fm_record (env, q) (fd_Mount fake)\<rparr>"
| "record_call env (CallPath q) fake = fake\<lparr>fd_Path := fm_record (env, q) (fd_Path fake)\<rparr>"
| "record_call env (CallRemove q) fake = fake\<lparr>fd_Remove := fm_record (env, q) (fd_Remove fake)\<rparr>"
| "record_call env (CallUnmount q) fake = fake\<lparr>fd_Unmount := fm_record (env, q) (fd_Unmount fake)\<rparr>"

fun pick_answer :: "Env \<Rightarrow> 'f call \<Rightarrow> ('f, 'w) FakeDriver \<Rightarrow> ('w, answer) state" where
  "pick_answer env CallActivate fake =
     do { r \<leftarrow> fm_answer (fd_Activate fake) env; State_Monad.return (ActivateAnswer r) }"
| "pick_answer env CallCapabilities fake =
     do { r \<leftarrow> fm_answer (fd_Capabilities fake) env; State_Monad.return (CapabilitiesAnswer r) }"
| "pick_answer env (CallCreate q) fake =
     do { r \<leftarrow> fm_answer (fd_Create fake) (env, q); State_Monad.return (ErrorAnswer r) }"
| "pick_answer env (CallGet q) fake =
     do { r \<leftarrow> fm_answer (fd_Get fake) (env, q); State_Monad.return (GetAnswer r) }"
| "pick_answer env CallList fake =
     do { r \<leftarrow> fm_answer (fd_List fake) env; State_Monad.return (ListAnswer r) }"
| "pick_answer env (CallMount q) fake =
     do { r \<leftarrow> fm_answer (fd_Mount fake) (env, q); State_Monad.return (MountAnswer r) }"
| "pick_answer env (CallPath q) fake =
     do { r \<leftarrow> fm_answer (fd_Path fake) (env, q); State_Monad.return (PathAnswer r) }"
| "pick_answer env (CallRemove q) fake =
     do { r \<leftarrow> fm_answer (fd_Remove fake) (env, q); State_Monad.return (ErrorAnswer r) }"
| "pick_answer env (CallUnmount q) fake =
     do { r \<leftarrow> fm_answer (fd_Unmount fake) (env, q); State_Monad.return (ErrorAnswer r) }"

section \<open>Changes and looks\<close>

datatype ('f, 'w) method_change =
    ChangeActivate "('w, Env, ActivateResponse) fake_method \<Rightarrow> ('w, Env, ActivateResponse) fake_method"
  | ChangeCapabilities "('w, Env, CapabilitiesResponse) fake_method \<Rightarrow> ('w, Env, CapabilitiesResponse) fake_method"
  | ChangeCreate "('w, Env \<times> 'f CreateRequest, ErrorResponse) fake_method \<Rightarrow> ('w, Env \<times> 'f CreateRequest, ErrorResponse) fake_method"
  | ChangeGet "('w, Env \<times> GetRequest, GetResponse) fake_method \<Rightarrow> ('w, Env \<times> GetRequest, GetResponse) fake_method"
  | ChangeList "('w, Env, ListResponse) fake_method \<Rightarrow> ('w, Env, ListResponse) fake_method"
  | ChangeMount "('w, Env \<times> MountRequest, MountResponse) fake_method \<Rightarrow> ('w, Env \<times> MountRequest, MountResponse) fake_method"
  | ChangePath "('w, Env \<times> PathRequest, PathResponse) fake_method \<Rightarrow> ('w, Env \<times> PathRequest, PathResponse) fake_method"
  | ChangeRemove "('w, Env \<times> RemoveRequest, ErrorResponse) fake_method \<Rightarrow> ('w, Env \<times> RemoveRequest, ErrorResponse) fake_method"
  | ChangeUnmount "('w, Env \<times> UnmountRequest, ErrorResponse) fake_method \<Rightarrow> ('w, Env \<times> UnmountRequest, ErrorResponse) fake_method"

fun change_method :: "('f, 'w) method_change \<Rightarrow> string" where
  "change_method (ChangeActivate f) = ''Activate''"
| "change_method (ChangeCapabilities f) = ''Capabilities''"
| "change_method (ChangeCreate f) = ''Create''"
| "change_method (ChangeGet f) = ''Get''"
| "change_method (ChangeList f) = ''List''"
| "change_method (ChangeMount f) = ''Mount''"
| "change_method (ChangePath f) = ''Path''"
| "change_method (ChangeRemove f) = ''Remove''"
| "change_method (ChangeUnmount f) = ''Unmount''"

fun apply_change :: "('f, 'w) method_change \<Rightarrow> ('f, 'w) FakeDriver \<Rightarrow> ('f, 'w) FakeDriver" where
  "apply_change (ChangeActivate f) fake = fake\<lparr>fd_Activate := f (fd_Activate fake)\<rparr>"
| "apply_change (ChangeCapabilities f) fake = fake\<lparr>fd_Capabilities := f (fd_Capabilities fake)\<rparr>"
| "apply_change (ChangeCreate f) fake = fake\<lparr>fd_Create := f (fd_Create fake)\<rparr>"
| "apply_change (ChangeGet f) fake = fake\<lparr>fd_Get := f (fd_Get fake)\<rparr>"
| "apply_change (ChangeList f) fake = fake\<lparr>fd_List := f (fd_List fake)\<rparr>"
| "apply_change (ChangeMount f) fake = fake\<lparr>fd_Mount := f (fd_Mount fake)\<rparr>"
| "apply_change (ChangePath f) fake = fake\<lparr>fd_Path := f (fd_Path fake)\<rparr>"
| "apply_change (ChangeRemove f) fake = fake\<lparr>fd_Remove := f (fd_Remove fake)\<rparr>"
| "apply_change (ChangeUnmount f) fake = fake\<lparr>fd_Unmount := f (fd_Unmount fake)\<rparr>"

datatype ('f, 'w, 'o) method_look =
    LookActivate "('w, Env, ActivateResponse) fake_method \<Rightarrow> 'o"
  | LookCapabilities "('w, Env, CapabilitiesResponse) fake_method \<Rightarrow> 'o"
  | LookCreate "('w, Env \<times> 'f CreateRequest, ErrorResponse) fake_method \<Rightarrow> 'o"
  | LookGet "('w, Env \<times> GetRequest, GetResponse) fake_method \<Rightarrow> 'o"
  | LookList "('w, Env, ListResponse) fake_method \<Rightarrow> 'o"
  | LookMount "('w, Env \<times> MountRequest, MountResponse) fake_method \<Rightarrow> 'o"
  | LookPath "('w, Env \<times> PathRequest, PathResponse) fake_method \<Rightarrow> 'o"
  | LookRemove "('w, Env \<times> RemoveRequest, ErrorResponse) fake_method \<Rightarrow> 'o"
  | LookUnmount "('w, Env \<times> UnmountRequest, ErrorResponse) fake_method \<Rightarrow> 'o"

fun look_method :: "('f, 'w, 'o) method_look \<Rightarrow> string" where
  "look_method (LookActivate g) = ''Activate''"
| "look_method (LookCapabilities g) = ''Capabilities''"
| "look_method (LookCreate g) = ''Create''"
| "look_method (LookGet g) = ''Get''"
| "look_method (LookList g) = ''List''"
| "look_method (LookMount g) = ''Mount''"
| "look_method (LookPath g) = ''Path''"
| "look_method (LookRemove g) = ''Remove''"
| "look_method (LookUnmount g) = ''Unmount''"

fun apply_look :: "('f, 'w, 'o) method_look \<Rightarrow> ('f, 'w) FakeDriver \<Rightarrow> 'o" where
  "apply_look (LookActivate g) fake = g (fd_Activate fake)"
| "apply_look (LookCapabilities g) fake = g (fd_Capabilities fake)"
| "apply_look (LookCreate g) fake = g (fd_Create fake)"
| "apply_look (LookGet g) fake = g (fd_Get fake)"
| "apply_look (LookList g) fake = g (fd_List fake)"
| "apply_look (LookMount g) fake = g (fd_Mount fake)"
| "apply_look (LookPath g) fake = g (fd_Path fake)"
| "apply_look (LookRemove g) fake = g (fd_Remove fake)"
| "apply_look (LookUnmount g) fake = g (fd_Unmount fake)"

section \<open>Uses of the faked driver\<close>

datatype ('f, 'w, 'o) driver_use =
    UseCall Env "'f call" | UseChange "('f, 'w) method_change" | UseLook "('f, 'w, 'o) method_look"
  | UseInvocations

datatype ('f, 'w, 'o) sight =
    Picked "('w, answer) state" | Looked 'o | Copied "(string \<times> 'f fake_arg list list) list"

fun use_of :: "('f, 'w, 'o) driver_use \<Rightarrow> (('f, 'w) FakeDriver, ('f, 'w, 'o) sight) use" where
  "use_of (UseCall env c) =
     Calling (call_method c) (record_call env c) (\<lambda>fake. Picked (pick_answer env c fake))
       (FakeDriver_recordInvocation (call_method c) (call_args env c))"
| "use_of (UseChange s) = Setting (change_method s) (apply_change s)"
| "use_of (UseLook g) = Looking (look_method g) (\<lambda>fake. Looked (apply_look g fake))"
| "use_of UseInvocations = Viewing FakeDriver_methods (\<lambda>fake. Copied (FakeDriver_Invocations fake))"

lemma use_of_cases:
  "Calling n r p v = use_of u \<longleftrightarrow>
    (\<exists>env c. u = UseCall env c \<and> n = call_method c \<and> r = record_call env c \<and>
      p = (\<lambda>fake. Picked (pick_answer env c fake)) \<and> v = FakeDriver_recordInvocation (call_method c) (call_args env c))"
  "Setting n f = use_of u \<longleftrightarrow> (\<exists>s. u = UseChange s \<and> n = change_method s \<and> f = apply_change s)"
  "Looking n l = use_of u \<longleftrightarrow> (\<exists>g. u = UseLook g \<and> n = look_method g \<and> l = (\<lambda>fake. Looked (apply_look g fake)))"
  "Viewing ns i = use_of u \<longleftrightarrow>
    u = UseInvocations \<and> ns = FakeDriver_methods \<and> i = (\<lambda>fake. Copied (FakeDriver_Invocations fake))"
  by (cases u; auto)+

lemma methods_all: "call_method c \<in> set FakeDriver_methods" "distinct FakeDriver_methods"
  by (cases c) (simp_all add: FakeDriver_methods_def)

lemma calls_apart:
  "call_method c \<noteq> call_method c' \<Longrightarrow> record_call env c (record_call env' c' k) = record_call env' c' (record_call env c k)"
  "call_method c \<noteq> call_method c' \<Longrightarrow> pick_answer env c (record_call env' c' k) = pick_answer env c k"
  by (cases c; cases c'; simp)+

lemma invocation_apart:
  "record_call env c (FakeDriver_recordInvocation n as k) = FakeDriver_recordInvocation n as (record_call env c k)"
  "pick_answer env c (FakeDriver_recordInvocation n as k) = pick_answer env c k"
  by (cases c; simp add: FakeDriver_recordInvocation_def)+

lemma change_apart:
  "call_method c \<noteq> change_method s \<Longrightarrow> record_call env c (apply_change s k) = apply_change s (record_call env c k)"
  "call_method c \<noteq> change_method s \<Longrightarrow> pick_answer env c (apply_change s k) = pick_answer env c k"
  by (cases c; cases s; simp)+

lemma look_apart: "call_method c \<noteq> look_method g \<Longrightarrow> apply_look g (record_call env c k) = apply_look g k"
  by (cases c; cases g; simp)

interpretation fake_driver: independent_uses "range use_of"
  by unfold_locales (auto simp: use_of_cases calls_apart invocation_apart change_apart look_apart methods_all)

text \<open>The generated methods are such uses: a call is the modelled call once it has gone on with
  what it picked, the setters are changes and the readers looks.\<close>

lemma use_is_call:
  "use_step (use_of (UseCall env c)) fake =
    (FakeDriver_recordInvocation (call_method c) (call_args env c) (record_call env c fake), [Picked (pick_answer env c fake)])"
  by simp

lemma exec_fake:
  "run_state (exec_call FakeDriver_Driver env c) (fake, w) =
    (case run_state (pick_answer env c fake) w of (a, w') \<Rightarrow>
      (a, (FakeDriver_recordInvocation (call_method c) (call_args env c) (record_call env c fake), w')))"
  by (cases c) (simp_all add: FakeDriver_Driver_def FakeDriver_Activate_def FakeDriver_Capabilities_def FakeDriver_Create_def FakeDriver_Get_def FakeDriver_List_def FakeDriver_Mount_def FakeDriver_Path_def FakeDriver_Remove_def FakeDriver_Unmount_def Let_def split: prod.split)

lemma setters_are_changes:
  "FakeDriver_ActivateCalls stubActivate fake = apply_change (ChangeActivate (fm_Calls stubActivate)) fake"
  "FakeDriver_ActivateReturns retActivate fake = apply_change (ChangeActivate (fm_SetReturns retActivate)) fake"
  "FakeDriver_ActivateReturnsOnCall i retActivate fake = apply_change (ChangeActivate (fm_SetReturnsOnCall i retActivate)) fake"
  "FakeDriver_CapabilitiesCalls stubCapabilities fake = apply_change (ChangeCapabilities (fm_Calls stubCapabilities)) fake"
  "FakeDriver_CapabilitiesReturns retCapabilities fake = apply_change (ChangeCapabilities (fm_SetReturns retCapabilities)) fake"
  "FakeDriver_CapabilitiesReturnsOnCall i retCapabilities fake = apply_change (ChangeCapabilities (fm_SetReturnsOnCall i retCapabilities)) fake"
  "FakeDriver_CreateCalls stubCreate fake = apply_change (ChangeCreate (fm_Calls stubCreate)) fake"
  "FakeDriver_CreateReturns retCreate fake = apply_change (ChangeCreate (fm_SetReturns retCreate)) fake"
  "FakeDriver_CreateReturnsOnCall i retCreate fake = apply_change (ChangeCreate (fm_SetReturnsOnCall i retCreate)) fake"
  "FakeDriver_GetCalls stubGet fake = apply_change (ChangeGet (fm_Calls stubGet)) fake"
  "FakeDriver_GetReturns retGet fake = apply_change (ChangeGet (fm_SetReturns retGet)) fake"
  "FakeDriver_GetReturnsOnCall i retGet fake = apply_change (ChangeGet (fm_SetReturnsOnCall i retGet)) fake"
  "FakeDriver_ListCalls stubList fake = apply_change (ChangeList (fm_Calls stubList)) fake"
  "FakeDriver_ListReturns retList fake = apply_change (ChangeList (fm_SetReturns retList)) fake"
  "FakeDriver_ListReturnsOnCall i retList fake = apply_change (ChangeList (fm_SetReturnsOnCall i retList)) fake"
  "FakeDriver_MountCalls stubMount fake = apply_change (ChangeMount (fm_Calls stubMount)) fake"
  "FakeDriver_MountReturns retMount fake = apply_change (ChangeMount (fm_SetReturns retMount)) fake"
  "FakeDriver_MountReturnsOnCall i retMount fake = apply_change (ChangeMount (fm_SetReturnsOnCall i retMount)) fake"
  "FakeDriver_PathCalls stubPath fake = apply_change (ChangePath (fm_Calls stubPath)) fake"
  "FakeDriver_PathReturns retPath fake = apply_change (ChangePath (fm_SetReturns retPath)) fake"
  "FakeDriver_PathReturnsOnCall i retPath fake = apply_change (ChangePath (fm_SetReturnsOnCall i retPath)) fake"
  "FakeDriver_RemoveCalls stubRemove fake = apply_change (ChangeRemove (fm_Calls stubRemove)) fake"
  "FakeDriver_RemoveReturns retRemove fake = apply_change (ChangeRemove (fm_SetReturns retRemove)) fake"
  "FakeDriver_RemoveReturnsOnCall i retRemove fake = apply_change (ChangeRemove (fm_SetReturnsOnCall i retRemove)) fake"
  "FakeDriver_UnmountCalls stubUnmount fake = apply_change (ChangeUnmount (fm_Calls stubUnmount)) fake"
  "FakeDriver_UnmountReturns retUnmount fake = apply_change (ChangeUnmount (fm_SetReturns retUnmount)) fake"
  "FakeDriver_UnmountReturnsOnCall i retUnmount fake = apply_change (ChangeUnmount (fm_SetReturnsOnCall i retUnmount)) fake"
  by (simp_all add: FakeDriver_ActivateCalls_def FakeDriver_ActivateReturns_def FakeDriver_ActivateReturnsOnCall_def FakeDriver_CapabilitiesCalls_def FakeDriver_CapabilitiesReturns_def FakeDriver_CapabilitiesReturnsOnCall_def FakeDriver_CreateCalls_def FakeDriver_CreateReturns_def FakeDriver_CreateReturnsOnCall_def FakeDriver_GetCalls_def FakeDriver_GetReturns_def FakeDriver_GetReturnsOnCall_def FakeDriver_ListCalls_def FakeDriver_ListReturns_def FakeDriver_ListReturnsOnCall_def FakeDriver_MountCalls_def FakeDriver_MountReturns_def FakeDriver_MountReturnsOnCall_def FakeDriver_PathCalls_def FakeDriver_PathReturns_def FakeDriver_PathReturnsOnCall_def FakeDriver_RemoveCalls_def FakeDriver_RemoveReturns_def FakeDriver_RemoveReturnsOnCall_def FakeDriver_UnmountCalls_def FakeDriver_UnmountReturns_def FakeDriver_UnmountReturnsOnCall_def)

lemma readers_are_looks:
  "FakeDriver_ActivateCallCount fake = apply_look (LookActivate fm_CallCount) fake"
  "FakeDriver_ActivateArgsForCall i fake = apply_look (LookActivate (fm_ArgsAt i)) fake"
  "FakeDriver_CapabilitiesCallCount fake = apply_look (LookCapabilities fm_CallCount) fake"
  "FakeDriver_CapabilitiesArgsForCall i fake = apply_look (LookCapabilities (fm_ArgsAt i)) fake"
  "FakeDriver_CreateCallCount fake = apply_look (LookCreate fm_CallCount) fake"
  "FakeDriver_CreateArgsForCall i fake = apply_look (LookCreate (fm_ArgsAt i)) fake"
  "FakeDriver_GetCallCount fake = apply_look (LookGet fm_CallCount) fake"
  "FakeDriver_GetArgsForCall i fake = apply_look (LookGet (fm_ArgsAt i)) fake"
  "FakeDriver_ListCallCount fake = apply_look (LookList fm_CallCount) fake"
  "FakeDriver_ListArgsForCall i fake = apply_look (LookList (fm_ArgsAt i)) fake"
  "FakeDriver_MountCallCount fake = apply_look (LookMount fm_CallCount) fake"
  "FakeDriver_MountArgsForCall i fake = apply_look (LookMount (fm_ArgsAt i)) fake"
  "FakeDriver_PathCallCount fake = apply_look (LookPath fm_CallCount) fake"
  "FakeDriver_PathArgsForCall i fake = apply_look (LookPath (fm_ArgsAt i)) fake"
  "FakeDriver_RemoveCallCount fake = apply_look (LookRemove fm_CallCount) fake"
  "FakeDriver_RemoveArgsForCall i fake = apply_look (LookRemove (fm_ArgsAt i)) fake"
  "FakeDriver_UnmountCallCount fake = apply_look (LookUnmount fm_CallCount) fake"
  "FakeDriver_UnmountArgsForCall i fake = apply_look (LookUnmount (fm_ArgsAt i)) fake"
  by (simp_all add: FakeDriver_ActivateCallCount_def FakeDriver_ActivateArgsForCall_def FakeDriver_CapabilitiesCallCount_def FakeDriver_CapabilitiesArgsForCall_def FakeDriver_CreateCallCount_def FakeDriver_CreateArgsForCall_def FakeDriver_GetCallCount_def FakeDriver_GetArgsForCall_def FakeDriver_ListCallCount_def FakeDriver_ListArgsForCall_def FakeDriver_MountCallCount_def FakeDriver_MountArgsForCall_def FakeDriver_PathCallCount_def FakeDriver_PathArgsForCall_def FakeDriver_RemoveCallCount_def FakeDriver_RemoveArgsForCall_def FakeDriver_UnmountCallCount_def FakeDriver_UnmountArgsForCall_def)

section \<open>Records\<close>

text \<open>A use that leaves the recorded calls of the methods to the calls, as every generated method does.\<close>

fun keeps_args :: "('f, 'w, 'o) driver_use \<Rightarrow> bool" where
  "keeps_args (UseChange s) \<longleftrightarrow> (\<forall>fake. FakeDriver_calls (apply_change s fake) = FakeDriver_calls fake)"
| "keeps_args _ \<longleftrightarrow> True"

fun is_call :: "string \<Rightarrow> ('f, 'w, 'o) driver_use \<Rightarrow> bool" where
  "is_call n (UseCall env c) \<longleftrightarrow> call_method c = n"
| "is_call n _ \<longleftrightarrow> False"

lemma setters_keep_args:
  "keeps_args (UseChange (ChangeActivate (fm_Calls stubActivate)) :: ('f, 'w, 'o) driver_use)"
  "keeps_args (UseChange (ChangeCapabilities (fm_Calls stubCapabilities)) :: ('f, 'w, 'o) driver_use)"
  "keeps_args (UseChange (ChangeCreate (fm_Calls stubCreate)) :: ('f, 'w, 'o) driver_use)"
  "keeps_args (UseChange (ChangeGet (fm_Calls stubGet)) :: ('f, 'w, 'o) driver_use)"
  "keeps_args (UseChange (ChangeList (fm_Calls stubList)) :: ('f, 'w, 'o) driver_use)"
  "keeps_args (UseChange (ChangeMount (fm_Calls stubMount)) :: ('f, 'w, 'o) driver_use)"
  "keeps_args (UseChange (ChangePath (fm_Calls stubPath)) :: ('f, 'w, 'o) driver_use)"
  "keeps_args (UseChange (ChangeRemove (fm_Calls stubRemove)) :: ('f, 'w, 'o) driver_use)"
  "keeps_args (UseChange (ChangeUnmount (fm_Calls stubUnmount)) :: ('f, 'w, 'o) driver_use)"
  "keeps_args (UseChange (ChangeActivate (fm_SetReturns retActivate)) :: ('f, 'w, 'o) driver_use)"
  "keeps_args (UseChange (ChangeCapabilities (fm_SetReturns retCapabilities)) :: ('f, 'w, 'o) driver_use)"
  "keeps_args (UseChange (ChangeCreate (fm_SetReturns retCreate)) :: ('f, 'w, 'o) driver_use)"
  "keeps_args (UseChange (ChangeGet (fm_SetReturns retGet)) :: ('f, 'w, 'o) driver_use)"
  "keeps_args (UseChange (ChangeList (fm_SetReturns retList)) :: ('f, 'w, 'o) driver_use)"
  "keeps_args (UseChange (ChangeMount (fm_SetReturns retMount)) :: ('f, 'w, 'o) driver_use)"
  "keeps_args (UseChange (ChangePath (fm_SetReturns retPath)) :: ('f, 'w, 'o) driver_use)"
  "keeps_args (UseChange (ChangeRemove (fm_SetReturns retRemove)) :: ('f, 'w, 'o) driver_use)"
  "keeps_args (UseChange (ChangeUnmount (fm_SetReturns retUnmount)) :: ('f, 'w, 'o) driver_use)"
  "keeps_args (UseChange (ChangeActivate (fm_SetReturnsOnCall i retActivate)) :: ('f, 'w, 'o) driver_use)"
  "keeps_args (UseChange (ChangeCapabilities (fm_SetReturnsOnCall i retCapabilities)) :: ('f, 'w, 'o) driver_use)"
  "keeps_args (UseChange (ChangeCreate (fm_SetReturnsOnCall i retCreate)) :: ('f, 'w, 'o) driver_use)"
  "keeps_args (UseChange (ChangeGet (fm_SetReturnsOnCall i retGet)) :: ('f, 'w, 'o) driver_use)"
  "keeps_args (UseChange (ChangeList (fm_SetReturnsOnCall i retList)) :: ('f, 'w, 'o) driver_use)"
  "keeps_args (UseChange (ChangeMount (fm_SetReturnsOnCall i retMount)) :: ('f, 'w, 'o) driver_use)"
  "keeps_args (UseChange (ChangePath (fm_SetReturnsOnCall i retPath)) :: ('f, 'w, 'o) driver_use)"
  "keeps_args (UseChange (ChangeRemove (fm_SetReturnsOnCall i retRemove)) :: ('f, 'w, 'o) driver_use)"
  "keeps_args (UseChange (ChangeUnmount (fm_SetReturnsOnCall i retUnmount)) :: ('f, 'w, 'o) driver_use)"
  by (simp_all add: FakeDriver_calls_def)

definition records_right :: "('f, 'w) FakeDriver \<Rightarrow> bool" where
  "records_right fake \<longleftrightarrow> (\<forall>n. invocations_of n (fd_invocations fake) = FakeDriver_calls fake n)"

lemma call_records:
  "FakeDriver_calls (FakeDriver_recordInvocation m as (record_call env c fake)) =
    (FakeDriver_calls fake)(call_method c := FakeDriver_calls fake (call_method c) @ [call_args env c])"
  by (cases c) (simp_all add: FakeDriver_calls_def FakeDriver_recordInvocation_def fun_eq_iff)

lemma record_call_invocations: "fd_invocations (record_call env c fake) = fd_invocations fake"
  by (cases c) simp_all

lemma apply_change_invocations: "fd_invocations (apply_change s fake) = fd_invocations fake"
  by (cases s) simp_all

lemma use_records:
  assumes "keeps_args u"
  shows "records_right fake \<Longrightarrow> records_right (fst (use_step (use_of u) fake))"
    and "length (FakeDriver_calls (fst (use_step (use_of u) fake)) n) =
      length (FakeDriver_calls fake n) + (if is_call n u then 1 else 0)"
proof -
  show "records_right (fst (use_step (use_of u) fake))" if "records_right fake"
    using that assms
    by (cases u) (simp_all add: records_right_def call_records apply_change_invocations,
        simp add: FakeDriver_recordInvocation_def record_call_invocations invocations_of_record)
  show "length (FakeDriver_calls (fst (use_step (use_of u) fake)) n) =
      length (FakeDriver_calls fake n) + (if is_call n u then 1 else 0)"
    using assms by (cases u) (simp_all add: call_records)
qed

lemma uses_records:
  assumes "list_all (\<lambda>i. i < length us) is" and "list_all keeps_args us" and "records_right fake"
  shows "records_right (uses_after (map use_of us) is fake)"
  using assms(1,3)
proof (induction "is" arbitrary: fake)
  case (Cons i "is")
  then have "keeps_args (us ! i)" using assms(2) by (auto simp: list_all_length)
  with Cons use_records(1) [of "us ! i" fake] show ?case by simp
qed simp

lemma uses_counts:
  assumes "list_all (\<lambda>i. i < length us) is" and "list_all keeps_args us"
  shows "length (FakeDriver_calls (uses_after (map use_of us) is fake) n) =
      length (FakeDriver_calls fake n) + length (filter (\<lambda>i. is_call n (us ! i)) is)"
  using assms(1)
proof (induction "is" arbitrary: fake)
  case (Cons i "is")
  then have "keeps_args (us ! i)" using assms(2) by (auto simp: list_all_length)
  with Cons use_records(2) [of "us ! i" fake n] show ?case by simp
qed simp

text \<open>Recorded calls only grow.\<close>

lemma uses_grow:
  assumes "list_all (\<lambda>i. i < length us) is" and "list_all keeps_args us"
  shows "prefix (FakeDriver_calls fake n) (FakeDriver_calls (uses_after (map use_of us) is fake) n)"
  using assms(1)
proof (induction "is" arbitrary: fake)
  case (Cons i "is")
  then have "keeps_args (us ! i)" using assms(2) by (auto simp: list_all_length)
  then have "prefix (FakeDriver_calls fake n) (FakeDriver_calls (fst (use_step (use_of (us ! i)) fake)) n)"
    by (cases "us ! i") (simp_all add: call_records)
  also have "prefix \<dots> (FakeDriver_calls (uses_after (map use_of us) (i # is) fake) n)"
    using Cons by simp
  finally show ?case .
qed simp

lemma copy_of_records:
  "records_right fake \<Longrightarrow> invocations_of m (Some (FakeDriver_Invocations fake)) = FakeDriver_calls fake m"
  by (cases "fd_invocations fake") (simp_all add: records_right_def FakeDriver_Invocations_def invocations_of_def)

text \<open>A copy of the invocations agrees with the records of the moment it was taken.\<close>

lemma copies_agree:
  assumes bound: "list_all (\<lambda>i. i < length us) ord" and keeps: "list_all keeps_args us" and "records_right fake"
    and seen: "list_all (\<lambda>(i, os). seen ! i = os) (uses_seen (map use_of us) ord fake)"
    and i: "i \<in> set ord" "us ! i = UseInvocations"
  shows "\<exists>copy. seen ! i = [Copied copy] \<and>
    (\<forall>m. prefix (invocations_of m (Some copy)) (FakeDriver_calls (uses_after (map use_of us) ord fake) m))"
proof -
  obtain xs ys where ord: "ord = xs @ i # ys" using split_list [OF i(1)] by blast
  with bound have xs: "list_all (\<lambda>i. i < length us) xs" and rest: "list_all (\<lambda>i. i < length us) (i # ys)" by simp_all
  let ?k = "uses_after (map use_of us) xs fake"
  have now: "records_right ?k" by (rule uses_records [OF xs keeps assms(3)])
  have "seen ! i = [Copied (FakeDriver_Invocations ?k)]" using seen rest i(2) by (simp add: ord)
  moreover have "prefix (invocations_of m (Some (FakeDriver_Invocations ?k)))
      (FakeDriver_calls (uses_after (map use_of us) ord fake) m)" for m
    using uses_grow [OF rest keeps, of ?k m] unfolding copy_of_records [OF now] ord uses_append .
  ultimately show ?thesis by blast
qed

lemma session_records:
  assumes "session_run (session_start (map use_of us) new_FakeDriver) n is c" and "finished (s_locks c)"
    and "list_all keeps_args us"
  shows "invocations_of m (Some (FakeDriver_Invocations (s_fake c))) = FakeDriver_calls (s_fake c) m"
    and "length (FakeDriver_calls (s_fake c) m) = length (filter (is_call m) us)"
    and "i < length us \<Longrightarrow> us ! i = UseInvocations \<Longrightarrow>
      \<exists>copy. s_seen c ! i = [Copied copy] \<and> (\<forall>m. prefix (invocations_of m (Some copy)) (FakeDriver_calls (s_fake c) m))"
proof -
  obtain ord where ord: "mset ord = mset [0..<length us]" "s_fake c = uses_after (map use_of us) ord new_FakeDriver"
      "list_all (\<lambda>(i, os). s_seen c ! i = os) (uses_seen (map use_of us) ord new_FakeDriver)"
    using fake_driver.linearisable [OF assms(1) _ assms(2)] by auto
  have mem: "set ord = {0..<length us}" using mset_eq_setD [OF ord(1)] by simp
  then have bound: "list_all (\<lambda>i. i < length us) ord" by (simp add: list_all_iff)
  have new: "records_right new_FakeDriver" "FakeDriver_calls new_FakeDriver m = []"
    by (simp_all add: records_right_def new_FakeDriver_def FakeDriver_calls_def invocations_of_def)
  have "length (filter (\<lambda>i. is_call m (us ! i)) ord) = length (filter (\<lambda>i. is_call m (us ! i)) [0..<length us])"
    using ord(1) by (metis mset_filter size_mset)
  also have "\<dots> = length (filter (is_call m) us)"
    by (metis (no_types, lifting) comp_def filter_cong filter_map length_map map_nth)
  finally show "length (FakeDriver_calls (s_fake c) m) = length (filter (is_call m) us)"
    using uses_counts [OF bound assms(3)] by (simp add: ord(2) new(2))
  show "invocations_of m (Some (FakeDriver_Invocations (s_fake c))) = FakeDriver_calls (s_fake c) m"
    unfolding ord(2) by (rule copy_of_records [OF uses_records [OF bound assms(3) new(1)]])
  assume "i < length us" and copy: "us ! i = UseInvocations"
  then have "i \<in> set ord" by (simp add: mem)
  from copies_agree [OF bound assms(3) new(1) ord(3) this copy] show
    "\<exists>copy. s_seen c ! i = [Copied copy] \<and> (\<forall>m. prefix (invocations_of m (Some copy)) (FakeDriver_calls (s_fake c) m))"
    by (simp only: ord(2))
qed

section \<open>Properties\<close>

text \<open>Property C25. However calls of a faked driver, changes of its answers, looks at its calls and
  copies of its invocations interleave, the fake ends in the state that the same uses lead to one at a time in some order,
  in which a use that ended before another took its first lock comes first; each call goes on with the
  stub or answer, and each look and each copy sees the value, that it has there.\<close>

theorem fake_linearisable:
  assumes "session_run (session_start (map use_of us) fake) n is c" and "finished (s_locks c)"
  shows "\<exists>ord. mset ord = mset [0..<length us] \<and> in_real_time is ord \<and>
    s_fake c = uses_after (map use_of us) ord fake \<and>
    list_all (\<lambda>(i, os). s_seen c ! i = os) (uses_seen (map use_of us) ord fake)"
  using fake_driver.linearisable [OF assms(1) _ assms(2)] by auto

text \<open>A call of the faked driver with nothing else about is the one step of its use, followed
  by the stub or answer it picked.\<close>

theorem fake_use_is_call:
  "\<exists>fake' m. use_step (use_of (UseCall env c)) fake = (fake', [Picked m]) \<and>
    run_state (exec_call FakeDriver_Driver env c) (fake, w) = (case run_state m w of (a, w') \<Rightarrow> (a, (fake', w')))"
  unfolding use_is_call exec_fake by blast

text \<open>Property C26. When goroutines have finished calling a new fake side by side, setting its answers and
  looking at its calls, no call is lost or mixed up: the invocations it reports for each method
  are the arguments recorded for that method, and their number is the number of calls made. A
  copy of the invocations taken meanwhile has, for every method, the first calls of these.\<close>

theorem fake_concurrent_records:
  assumes "session_run (session_start (map use_of us) new_FakeDriver) n is c" and "finished (s_locks c)"
    and "list_all keeps_args us"
  shows "invocations_of m (Some (FakeDriver_Invocations (s_fake c))) = FakeDriver_calls (s_fake c) m \<and>
    length (FakeDriver_calls (s_fake c) m) = length (filter (is_call m) us) \<and>
    (\<forall>i < length us. us ! i = UseInvocations \<longrightarrow>
      (\<exists>copy. s_seen c ! i = [Copied copy] \<and> (\<forall>m. prefix (invocations_of m (Some copy)) (FakeDriver_calls (s_fake c) m))))"
  using session_records [OF assms] by blast

text \<open>Property C27. Uses of a faked driver other than \<open>Invocations\<close> never block each other for good, and
  a session of them takes at most six lock operations per use.\<close>

theorem fake_sessions_end:
  assumes "session_run (session_start (map use_of us) fake) n is c" and "UseInvocations \<notin> set us"
  shows "(finished (s_locks c) \<or> (\<exists>js c'. session_step c js c')) \<and> n \<le> 6 * length us"
proof -
  have "\<not> views (use_of u)" if "u \<in> set us" for u
  proof -
    have "u \<noteq> UseInvocations" using that assms(2) by metis
    then show ?thesis by (cases u) simp_all
  qed
  then have calls: "list_all (\<lambda>u. \<not> views u) (map use_of us)" by (simp add: list_all_iff)
  have uses: "set (map use_of us) \<subseteq> range use_of" by auto
  show ?thesis using fake_driver.sessions_end [OF assms(1) uses calls] unfolding length_map .
qed

section \<open>Instances\<close>

text \<open>Two calls of \<open>Mount\<close>, a call of \<open>List\<close> and a look at the count of \<open>Mount\<close>; the second call of
  \<open>Mount\<close> comes first.\<close>

abbreviation demo_uses :: "(unit, unit, nat) driver_use list" where
  "demo_uses \<equiv>
     [UseCall lone_env (CallMount \<lparr>MountRequest_Name = ''v''\<rparr>), UseCall lone_env CallList,
      UseCall lone_env (CallMount \<lparr>MountRequest_Name = ''w''\<rparr>), UseLook (LookMount fm_CallCount)]"

lemma demo_session:
  "\<exists>is c. session_run (session_start (map use_of demo_uses) new_FakeDriver) 20 is c \<and> finished (s_locks c)"
proof -
  let ?is = "[2, 2, 1, 1, 2, 2, 2, 1, 2, 0, 1, 0, 1, 1, 0, 0, 0, 0, 3, 3] :: nat list"
  have "\<exists>c. session_schedule (session_start (map use_of demo_uses) new_FakeDriver) ?is = Some c \<and> finished (s_locks c)"
    by (simp add: session_start_def lock_start_def program_defs session_at_def lock_at_def no_effect_def finished_def)
  then obtain c where c: "session_schedule (session_start (map use_of demo_uses) new_FakeDriver) ?is = Some c" "finished (s_locks c)"
    by blast
  have "length ?is = 20" by simp
  with session_schedule_sound [OF c(1)] c(2) show ?thesis by metis
qed

text \<open>A call of \<open>List\<close> and a copy of the invocations, which starts before the call has ended.\<close>

abbreviation copy_uses :: "(unit, unit, nat) driver_use list" where
  "copy_uses \<equiv> [UseInvocations, UseCall lone_env CallList]"

lemma copy_session:
  "\<exists>is c. session_run (session_start (map use_of copy_uses) new_FakeDriver) 26 is c \<and> finished (s_locks c)"
proof -
  let ?is = "[1, 1, 1, 1, 1, 0, 0, 0, 0, 0, 1, 0, 0, 0, 0, 0, 0, 0, 0, 0, 0, 0, 0, 0, 0, 0] :: nat list"
  have "\<exists>c. session_schedule (session_start (map use_of copy_uses) new_FakeDriver) ?is = Some c \<and> finished (s_locks c)"
    by (simp add: session_start_def lock_start_def program_defs Invocations_locks_def FakeDriver_methods_def
        session_at_def lock_at_def no_effect_def finished_def)
  then obtain c where c: "session_schedule (session_start (map use_of copy_uses) new_FakeDriver) ?is = Some c" "finished (s_locks c)"
    by blast
  have "length ?is = 26" by simp
  with session_schedule_sound [OF c(1)] c(2) show ?thesis by metis
qed

theorem fake_linearisable_witness:
  "\<exists>(c :: ((unit, unit) FakeDriver, (unit, unit, nat) sight) session) ord. finished (s_locks c) \<and> mset ord = {#0, 1#} \<and>
    s_fake c = uses_after (map use_of copy_uses) ord (new_FakeDriver :: (unit, unit) FakeDriver)"
proof -
  obtain "is" c where c: "session_run (session_start (map use_of copy_uses) new_FakeDriver) 26 is c" "finished (s_locks c)"
    using copy_session by blast
  obtain ord where ord: "mset ord = mset [0..<length copy_uses]" "s_fake c = uses_after (map use_of copy_uses) ord new_FakeDriver"
    using fake_linearisable [OF c] by blast
  have "mset [0..<length copy_uses] = {#0, 1#}" by (simp add: upt_rec)
  then have "mset ord = {#0, 1#}" by (rule trans [OF ord(1)])
  with c(2) ord(2) show ?thesis by blast
qed

theorem fake_concurrent_records_witness:
  "\<exists>(c :: ((unit, unit) FakeDriver, (unit, unit, nat) sight) session) copy. finished (s_locks c) \<and>
    length (FakeDriver_calls (s_fake c) ''List'') = 1 \<and> s_seen c ! 0 = [Copied copy] \<and>
    prefix (invocations_of ''List'' (Some copy)) (FakeDriver_calls (s_fake c) ''List'')"
proof -
  obtain "is" c where c: "session_run (session_start (map use_of copy_uses) new_FakeDriver) 26 is c" "finished (s_locks c)"
    using copy_session by blast
  have "list_all keeps_args copy_uses" by simp
  note records = fake_concurrent_records [OF c this, of "''List''"]
  from records have "length (FakeDriver_calls (s_fake c) ''List'') = 1" by simp
  moreover have "\<exists>copy. s_seen c ! 0 = [Copied copy] \<and> prefix (invocations_of ''List'' (Some copy)) (FakeDriver_calls (s_fake c) ''List'')"
    using conjunct2 [OF conjunct2 [OF records], rule_format, of 0] by auto
  ultimately show ?thesis using c(2) by blast
qed

theorem fake_sessions_end_witness: "(20 :: nat) \<le> 6 * length demo_uses"
proof -
  obtain "is" c where "session_run (session_start (map use_of demo_uses) (new_FakeDriver :: (unit, unit) FakeDriver)) 20 is c"
    using demo_session by blast
  from fake_sessions_end [OF this] show ?thesis by simp
qed

end
