(* ===== verification/Server_Over_Fake.thy ===== *)
theory Server_Over_Fake
  imports Server_Jobs Fake_Concurrent
begin

text \<open>
  The server of \<^verbatim>\<open>handlers.go\<close> over the faked driver of \<^verbatim>\<open>dockerdriverfakes\<close>, as its tests run it, with
  requests served at the same time and the calls of the fake interleaved at its mutexes. Here a
  driver call is not one step: the goroutine of a request that has come to its call takes the
  lock operations of the faked method one by one, the others going on meanwhile, and then runs the
  stub or gives the answer it has picked. A fake that was told its answers, with no stubs, serves
  concurrent requests as if they came one at a time.
\<close>

section \<open>Server and fake together\<close>

record ('f, 'w) fake_server =
  fs_log :: "(nat \<times> log_entry) list"
  fs_monitors :: "(nat \<times> ctx \<times> ctx) list"
  fs_jobs :: "('f job \<times> response_writer) list"
  fs_calls :: "(('f, 'w) FakeDriver, ('f, 'w, unit) sight) session"
  fs_world :: 'w

text \<open>The effect of a job that is not at its call.\<close>

fun local_effect :: "'f job \<Rightarrow> unit server_state \<Rightarrow> ('f job \<times> unit server_state) option" where
  "local_effect JobDone s = None"
| "local_effect (JobLog e t) s = Some (t, s\<lparr>log := log s @ [e]\<rparr>)"
| "local_effect (JobMonitor p t) s =
     Some (t, s\<lparr>srv_monitors := srv_monitors s @ (if rw_close_notifier (srv_rw s) then [p] else [])\<rparr>)"
| "local_effect (JobWrite f t) s = Some (t, s\<lparr>srv_rw := f (srv_rw s)\<rparr>)"
| "local_effect (JobCall env q k) s = None"

text \<open>Thread \<open>p\<close> of the session moves: it completes a lock operation, or announces that it waits for a
  mutex.\<close>

definition moves :: "nat \<Rightarrow> ('k, 'o) session \<Rightarrow> nat list \<Rightarrow> ('k, 'o) session \<Rightarrow> bool" where
  "moves p c js d \<longleftrightarrow>
     session_step c js d \<and>
     (js = [p] \<or> js = [] \<and> (\<exists>m. writer (s_locks c) m = None \<and> writer (s_locks d) m = Some p))"

text \<open>\<open>callers\<close> lists the requests that call the driver, in the order of the threads of the session.\<close>

inductive fake_server_step ::
  "nat list \<Rightarrow> ('f, 'w) fake_server \<Rightarrow> nat \<Rightarrow> ('f, 'w) fake_server \<Rightarrow> bool" for callers where
  own_effect: "i < length (fs_jobs c) \<Longrightarrow>
    local_effect (fst (fs_jobs c ! i)) (local_state () (snd (fs_jobs c ! i))) = Some (j, s) \<Longrightarrow>
    fake_server_step callers c i (c\<lparr>fs_log := fs_log c @ map (Pair i) (log s),
      fs_monitors := fs_monitors c @ map (Pair i) (srv_monitors s), fs_jobs := (fs_jobs c)[i := (j, srv_rw s)]\<rparr>)"
| in_call: "p < length callers \<Longrightarrow> callers ! p < length (fs_jobs c) \<Longrightarrow>
    fst (fs_jobs c ! (callers ! p)) = JobCall env q k \<Longrightarrow> moves p (fs_calls c) js d \<Longrightarrow>
    fake_server_step callers c (callers ! p) (c\<lparr>fs_calls := d\<rparr>)"
| answered: "p < length callers \<Longrightarrow> callers ! p < length (fs_jobs c) \<Longrightarrow>
    fst (fs_jobs c ! (callers ! p)) = JobCall env q k \<Longrightarrow>
    todo (s_locks (fs_calls c)) ! p = [] \<Longrightarrow> s_seen (fs_calls c) ! p = [Picked m] \<Longrightarrow>
    run_state m (fs_world c) = (a, w) \<Longrightarrow>
    fake_server_step callers c (callers ! p)
      (c\<lparr>fs_jobs := (fs_jobs c)[callers ! p := (k a, snd (fs_jobs c ! (callers ! p)))], fs_world := w\<rparr>)"

inductive_cases fake_server_stepE: "fake_server_step callers c i c'"

inductive fake_server_run ::
  "nat list \<Rightarrow> ('f, 'w) fake_server \<Rightarrow> nat list \<Rightarrow> ('f, 'w) fake_server \<Rightarrow> bool" for callers where
  server_begin: "fake_server_run callers c [] c"
| server_next: "fake_server_run callers c es c' \<Longrightarrow> fake_server_step callers c' i c'' \<Longrightarrow>
    fake_server_run callers c (es @ [i]) c''"

definition job_at :: "'f strconv \<Rightarrow> logger \<Rightarrow> (bool \<times> server_request) list \<Rightarrow> nat \<Rightarrow> 'f job" where
  "job_at fl lg0 reqs i = request_job fl lg0 (snd (reqs ! i))"

definition callers_of :: "'f strconv \<Rightarrow> logger \<Rightarrow> (bool \<times> server_request) list \<Rightarrow> nat list" where
  "callers_of fl lg0 reqs = filter (\<lambda>i. job_call (job_at fl lg0 reqs i) \<noteq> None) [0..<length reqs]"

definition calls_of :: "'f strconv \<Rightarrow> logger \<Rightarrow> (bool \<times> server_request) list \<Rightarrow> ('f, 'w, unit) driver_use list" where
  "calls_of fl lg0 reqs =
     map (\<lambda>i. case the (job_call (job_at fl lg0 reqs i)) of (env, q) \<Rightarrow> UseCall env q) (callers_of fl lg0 reqs)"

definition fake_serving ::
  "'f strconv \<Rightarrow> logger \<Rightarrow> (bool \<times> server_request) list \<Rightarrow> ('f, 'w) FakeDriver \<Rightarrow> 'w \<Rightarrow> ('f, 'w) fake_server" where
  "fake_serving fl lg0 reqs fake w =
     \<lparr>fs_log = [], fs_monitors = [],
      fs_jobs = map (\<lambda>(closeNotifier, req). (request_job fl lg0 req, fresh_writer closeNotifier)) reqs,
      fs_calls = session_start (map use_of (calls_of fl lg0 reqs)) fake, fs_world = w\<rparr>"

definition all_done :: "('f, 'w) fake_server \<Rightarrow> bool" where
  "all_done c \<longleftrightarrow> list_all (\<lambda>(j, w). j = JobDone) (fs_jobs c)"

text \<open>What request \<open>i\<close> has done, beside a driver in state \<open>d\<close>.\<close>

definition done_by :: "('f, 'w) fake_server \<Rightarrow> nat \<Rightarrow> 's \<Rightarrow> 's server_state" where
  "done_by c i d = \<lparr>log = own i (fs_log c), srv_driver = d, srv_rw = snd (fs_jobs c ! i), srv_monitors = own i (fs_monitors c)\<rparr>"

section \<open>A fake that was told its answers\<close>

definition told :: "('f, 'w) FakeDriver \<Rightarrow> bool" where
  "told fake \<longleftrightarrow>
     fm_Stub (fd_Activate fake) = None \<and> fm_Stub (fd_Capabilities fake) = None \<and> fm_Stub (fd_Create fake) = None \<and>
     fm_Stub (fd_Get fake) = None \<and> fm_Stub (fd_List fake) = None \<and> fm_Stub (fd_Mount fake) = None \<and>
     fm_Stub (fd_Path fake) = None \<and> fm_Stub (fd_Remove fake) = None \<and> fm_Stub (fd_Unmount fake) = None"

lemma told_picks: "told fake \<Longrightarrow> \<exists>a. pick_answer env q fake = State_Monad.return a"
  by (cases q) (auto simp: told_def fm_answer_def split: option.split)

lemma told_stays: "told fake \<Longrightarrow> told (FakeDriver_recordInvocation n as (record_call env q fake))"
  by (cases q) (simp_all add: told_def FakeDriver_recordInvocation_def fm_record_def)

definition is_use_call :: "('f, 'w, 'o) driver_use \<Rightarrow> bool" where
  "is_use_call u \<longleftrightarrow> (\<exists>env q. u = UseCall env q)"

lemma told_use: "is_use_call u \<Longrightarrow> told fake \<Longrightarrow> told (fst (use_step (use_of u) fake))"
  by (auto simp: is_use_call_def told_stays)

lemma told_uses:
  assumes "list_all is_use_call us" and "list_all (\<lambda>i. i < length us) is" and "told fake"
  shows "told (uses_after (map use_of us) is fake)"
    and "list_all (\<lambda>(i, os). \<exists>a. os = [Picked (State_Monad.return a)]) (uses_seen (map use_of us) is fake)"
proof -
  have "told (uses_after (map use_of us) is fake) \<and>
      list_all (\<lambda>(i, os). \<exists>a. os = [Picked (State_Monad.return a)]) (uses_seen (map use_of us) is fake)"
    using assms(2,3)
  proof (induction "is" arbitrary: fake)
    case (Cons i "is")
    then have "i < length us" by simp
    then have u: "is_use_call (us ! i)" using assms(1) by (simp add: list_all_length)
    then obtain env q where "us ! i = UseCall env q" by (auto simp: is_use_call_def)
    with Cons told_use [OF u Cons.prems(2)] told_picks [OF Cons.prems(2), of env q] show ?case by auto
  qed simp
  then show "told (uses_after (map use_of us) is fake)"
    and "list_all (\<lambda>(i, os). \<exists>a. os = [Picked (State_Monad.return a)]) (uses_seen (map use_of us) is fake)" by simp_all
qed

section \<open>The calls of the session\<close>

lemma use_of_session:
  assumes run: "session_run (session_start (map use_of us) k) n is d" and calls: "list_all is_use_call us" and "told k"
  shows "length (todo (s_locks d)) = length us" and "length (s_seen d) = length us"
    and "p < length us \<Longrightarrow> length (s_code d ! p) = length (todo (s_locks d) ! p)"
    and "p < length us \<Longrightarrow> todo (s_locks d) ! p = [] \<Longrightarrow> \<exists>a. s_seen d ! p = [Picked (State_Monad.return a)]"
proof -
  let ?us = "map use_of us"
  have sub: "set ?us \<subseteq> range use_of" by auto
  obtain pos ord ps where inv: "session_inv ?us k is pos ord ps d"
    using fake_driver.session_inv_run [OF run session_inv_start [OF fake_driver.uses_well_formed [OF sub]] sub] by blast
  then have control: "control_inv ?us pos d" and placed: "placed ?us pos ord ps"
    and data: "data_inv ?us k ord ps (s_fake d) (s_seen d)" by (simp_all add: session_inv_def)
  show "length (todo (s_locks d)) = length us" "length (s_seen d) = length us" using control by (simp_all add: control_inv_def)
  show "length (s_code d ! p) = length (todo (s_locks d) ! p)" if "p < length us"
    using control that by (simp add: control_inv_def use_lengths)
  show "\<exists>a. s_seen d ! p = [Picked (State_Monad.return a)]" if p: "p < length us" and "todo (s_locks d) ! p = []"
  proof -
    have "is_use_call (us ! p)" using calls p by (simp add: list_all_length)
    then obtain env q where u: "us ! p = UseCall env q" by (auto simp: is_use_call_def)
    have "drop (pos p) (use_locks (use_of (us ! p))) = []"
      using control that by (simp add: control_inv_def)
    then have "4 \<le> pos p" by (simp add: u program_defs)
    then have "p \<in> set ord" using placed p u by (simp add: placed_def)
    moreover have bound: "list_all (\<lambda>i. i < length us) ord" using placed by (simp add: placed_def list_all_iff)
    ultimately obtain os where os: "(p, os) \<in> set (uses_seen ?us ord k)"
      using uses_seen_some [of p ord ?us k] by blast
    with told_uses(2) [OF calls bound assms(3)] obtain a where "os = [Picked (State_Monad.return a)]"
      by (auto simp: list_all_iff)
    moreover have "s_seen d ! p = os" using data os by (auto simp: data_inv_def list_all_iff)
    ultimately show ?thesis by blast
  qed
qed

text \<open>A thread that has ended stays so, with what it has seen.\<close>

lemma ended_stays:
  assumes "session_step c js d" and "todo (s_locks c) ! p = []" and "p < length (todo (s_locks c))" and "s_code c ! p = []"
  shows "todo (s_locks d) ! p = [] \<and> s_seen d ! p = s_seen c ! p"
  using assms(1)
proof cases
  case (wait l)
  then show ?thesis using assms by simp
next
  case (work l i e es k os)
  then have "i \<noteq> p" using assms(4) by auto
  with work assms show ?thesis by simp
qed

lemma moves_thread: "moves p c js d \<Longrightarrow> js = [p] \<or> js = []"
  by (auto simp: moves_def)

section \<open>The invariant\<close>

text \<open>A job moves on: it is still to make its call, and will then have done what it was to do.\<close>

lemma local_effect_job:
  assumes "local_effect j (local_state () w) = Some (j', s')"
  shows "job_call j' = job_call j" and "single_call j \<Longrightarrow> single_call j'"
    and "job_effects j' a \<lparr>log = l @ log s', srv_driver = d, srv_rw = srv_rw s', srv_monitors = ms @ srv_monitors s'\<rparr> =
      job_effects j a \<lparr>log = l, srv_driver = d, srv_rw = w, srv_monitors = ms\<rparr>"
  using assms by (cases j; auto simp: local_state_def)+

definition ahead :: "'f job \<Rightarrow> response_writer \<Rightarrow> ('f, 'w) fake_server \<Rightarrow> nat \<Rightarrow> bool" where
  "ahead j0 w0 c i \<longleftrightarrow>
     (let j = fst (fs_jobs c ! i) in
      job_call j = job_call j0 \<and> single_call j \<and>
      (\<forall>a d. job_effects j a (done_by c i (d :: ('f, 'w) FakeDriver \<times> 'w)) = job_effects j0 a (local_state d w0)))"

definition behind :: "'f job \<Rightarrow> response_writer \<Rightarrow> nat list \<Rightarrow> ('f, 'w) fake_server \<Rightarrow> nat \<Rightarrow> bool" where
  "behind j0 w0 callers c i \<longleftrightarrow>
     (let j = fst (fs_jobs c ! i) in
      job_call j = None \<and>
      (\<exists>p a. p < length callers \<and> callers ! p = i \<and> todo (s_locks (fs_calls c)) ! p = [] \<and>
         s_seen (fs_calls c) ! p = [Picked (State_Monad.return a)] \<and>
         (\<forall>b d. job_effects j b (done_by c i (d :: ('f, 'w) FakeDriver \<times> 'w)) = job_effects j0 a (local_state d w0))))"

lemma own_effect_kept:
  assumes "i < length (fs_jobs c)" and "local_effect (fst (fs_jobs c ! i)) (local_state () (snd (fs_jobs c ! i))) = Some (j, s)"
    and c': "c' = c\<lparr>fs_log := fs_log c @ map (Pair i) (log s), fs_monitors := fs_monitors c @ map (Pair i) (srv_monitors s),
      fs_jobs := (fs_jobs c)[i := (j, srv_rw s)]\<rparr>"
  shows "ahead j0 w0 c h \<Longrightarrow> ahead j0 w0 c' h" and "behind j0 w0 callers c h \<Longrightarrow> behind j0 w0 callers c' h"
proof -
  note effect = local_effect_job [OF assms(2)]
  have other: "fs_jobs c' ! h = fs_jobs c ! h" "done_by c' h d = done_by c h d" if "h \<noteq> i" for d :: "('a, 'b) FakeDriver \<times> 'b"
    using that by (simp_all add: c' done_by_def)
  have own: "fst (fs_jobs c' ! i) = j" "job_effects j a (done_by c' i d) = job_effects (fst (fs_jobs c ! i)) a (done_by c i d)"
    for a and d :: "('a, 'b) FakeDriver \<times> 'b"
    using assms(1) effect(3) by (simp_all add: c' done_by_def)
  have calls: "fs_calls c' = fs_calls c" by (simp add: c')
  show "ahead j0 w0 c h \<Longrightarrow> ahead j0 w0 c' h"
    using other own effect(1,2) by (cases "h = i") (simp_all add: ahead_def Let_def)
  show "behind j0 w0 callers c h \<Longrightarrow> behind j0 w0 callers c' h"
    using other own effect(1) by (cases "h = i") (simp_all add: behind_def Let_def calls)
qed

text \<open>The run so far is a run of the session; when requests came one after the other, so did their
  calls.\<close>

definition follows :: "nat list \<Rightarrow> nat list \<Rightarrow> nat list \<Rightarrow> bool" where
  "follows callers es is \<longleftrightarrow>
     list_all (\<lambda>p. p < length callers \<and> callers ! p \<in> set es) is \<and>
     (\<forall>p < length callers. \<forall>q < length callers. before es (callers ! p) (callers ! q) \<longrightarrow> before is p q)"

lemma follows_other: "distinct callers \<Longrightarrow> follows callers es is \<Longrightarrow> follows callers (es @ [i]) is"
  using before_absent by (auto simp: follows_def list_all_iff before_snoc split: if_splits)

lemma follows_step:
  assumes "distinct callers" and "follows callers es is" and "p < length callers"
  shows "follows callers (es @ [callers ! p]) (is @ [p])"
  using assms by (auto simp: follows_def list_all_iff before_snoc nth_eq_iff_index_eq split: if_splits)

definition phase :: "'f strconv \<Rightarrow> logger \<Rightarrow> (bool \<times> server_request) list \<Rightarrow> ('f, 'w) fake_server \<Rightarrow> nat \<Rightarrow> bool" where
  "phase fl lg0 reqs c i \<longleftrightarrow>
     ahead (job_at fl lg0 reqs i) (fresh_writer (fst (reqs ! i))) c i \<or>
     behind (job_at fl lg0 reqs i) (fresh_writer (fst (reqs ! i))) (callers_of fl lg0 reqs) c i"

definition serving_inv ::
  "'f strconv \<Rightarrow> logger \<Rightarrow> (bool \<times> server_request) list \<Rightarrow> ('f, 'w) FakeDriver \<Rightarrow> 'w \<Rightarrow> nat list \<Rightarrow>
    ('f, 'w) fake_server \<Rightarrow> bool" where
  "serving_inv fl lg0 reqs fake w es c \<longleftrightarrow>
     (\<exists>n is. session_run (session_start (map use_of (calls_of fl lg0 reqs)) fake) n is (fs_calls c) \<and>
        follows (callers_of fl lg0 reqs) es is) \<and>
     fs_world c = w \<and> length (fs_jobs c) = length reqs \<and> (\<forall>i < length reqs. phase fl lg0 reqs c i)"

lemma serving_invI:
  assumes "session_run (session_start (map use_of (calls_of fl lg0 reqs)) fake) n is (fs_calls c)"
    and "follows (callers_of fl lg0 reqs) es is" and "fs_world c = w" and "length (fs_jobs c) = length reqs"
    and "\<And>i. i < length reqs \<Longrightarrow> phase fl lg0 reqs c i"
  shows "serving_inv fl lg0 reqs fake w es c"
  using assms unfolding serving_inv_def by blast

lemma callers_distinct: "distinct (callers_of fl lg0 reqs)"
  by (simp add: callers_of_def)

lemma callers_mem: "i \<in> set (callers_of fl lg0 reqs) \<longleftrightarrow> i < length reqs \<and> job_call (job_at fl lg0 reqs i) \<noteq> None"
  by (auto simp: callers_of_def)

lemma calls_count: "length (calls_of fl lg0 reqs) = length (callers_of fl lg0 reqs)"
  by (simp add: calls_of_def)

lemma calls_are_calls: "list_all is_use_call (calls_of fl lg0 reqs)"
  by (auto simp: calls_of_def list_all_iff is_use_call_def split: prod.split)

lemma request_job_single: "single_call (request_job fl lg0 req)"
proof -
  have "job_of c (request_thread fl lg0 c) (request_job fl lg0)" for c :: "('a, unit) Driver" by (rule request_jobs)
  then show ?thesis unfolding job_of_def by blast
qed

lemma serving_inv_start: "serving_inv fl lg0 reqs fake w [] (fake_serving fl lg0 reqs fake w)"
proof (rule serving_invI)
  show "session_run (session_start (map use_of (calls_of fl lg0 reqs)) fake) 0 [] (fs_calls (fake_serving fl lg0 reqs fake w))"
    by (simp add: fake_serving_def session_begin)
  show "follows (callers_of fl lg0 reqs) [] []" by (simp add: follows_def before_def upto_last_def)
  show "phase fl lg0 reqs (fake_serving fl lg0 reqs fake w) i" if "i < length reqs" for i
    using that by (simp add: request_job_single phase_def ahead_def Let_def fake_serving_def job_at_def case_prod_beta done_by_def local_state_def)
qed (simp_all add: fake_serving_def)

lemma serving_inv_step:
  assumes inv: "serving_inv fl lg0 reqs fake w es c" and "told fake" and step: "fake_server_step (callers_of fl lg0 reqs) c i c'"
  shows "serving_inv fl lg0 reqs fake w (es @ [i]) c'"
proof -
  let ?cs = "callers_of fl lg0 reqs" and ?us = "calls_of fl lg0 reqs"
  let ?j0 = "job_at fl lg0 reqs" and ?w0 = "\<lambda>i. fresh_writer (fst (reqs ! i))"
  have cs: "distinct ?cs" "\<And>i. i \<in> set ?cs \<longleftrightarrow> i < length reqs \<and> job_call (job_at fl lg0 reqs i) \<noteq> None"
    by (rule callers_distinct callers_mem)+
  have us: "list_all is_use_call ?us" "length ?us = length ?cs" by (rule calls_are_calls calls_count)+
  from inv obtain n "is" where run: "session_run (session_start (map use_of ?us) fake) n is (fs_calls c)"
    and follows: "follows ?cs es is" and world: "fs_world c = w" and len: "length (fs_jobs c) = length reqs"
    and phase: "\<And>h. h < length reqs \<Longrightarrow> phase fl lg0 reqs c h"
    unfolding serving_inv_def by blast
  note session = use_of_session [OF run us(1) assms(2), unfolded us(2)]
  from step show ?thesis
  proof cases
    case (own_effect j s)
    note kept = own_effect_kept [OF own_effect(2,3) own_effect(1)]
    show ?thesis
    proof (rule serving_invI [OF _ follows_other [OF cs(1) follows]])
      show "phase fl lg0 reqs c' h" if "h < length reqs" for h
        using phase [OF that] kept unfolding phase_def by blast
    qed (use run world len in \<open>simp_all add: own_effect(1)\<close>)
  next
    case (in_call p env q k js d)
    have step: "session_step (fs_calls c) js d" using in_call(6) by (simp add: moves_def)
    have same: "fs_jobs c' = fs_jobs c" "done_by c' h x = done_by c h x" "fs_calls c' = d" "fs_world c' = fs_world c"
      for h and x :: "('a, 'b) FakeDriver \<times> 'b"
      by (simp_all add: in_call(2) done_by_def)
    have ended: "todo (s_locks d) ! p' = [] \<and> s_seen d ! p' = s_seen (fs_calls c) ! p'"
      if "p' < length ?cs" "todo (s_locks (fs_calls c)) ! p' = []" for p'
      using ended_stays [OF step that(2)] session(1) session(3) [OF that(1)] that by simp
    have behind: "behind j0 w0 ?cs c' h" if "behind j0 w0 ?cs c h" for j0 w0 h
      using that ended unfolding behind_def Let_def same by metis
    have ahead: "ahead j0 w0 c' h = ahead j0 w0 c h" for j0 w0 h by (simp add: ahead_def same)
    show ?thesis
    proof (rule serving_invI)
      show "session_run (session_start (map use_of ?us) fake) (Suc n) (is @ js) (fs_calls c')"
        unfolding same by (rule session_next [OF run step])
      show "follows ?cs (es @ [i]) (is @ js)"
        using moves_thread [OF in_call(6)] follows_other [OF cs(1) follows] follows_step [OF cs(1) follows in_call(3)]
        by (auto simp: in_call(1))
      show "phase fl lg0 reqs c' h" if "h < length reqs" for h
        using phase [OF that] behind unfolding phase_def ahead by blast
    qed (use world len in \<open>simp_all add: same\<close>)
  next
    case (answered p env q k m a w')
    obtain a' where "s_seen (fs_calls c) ! p = [Picked (State_Monad.return a')]"
      using session(4) [OF answered(3,6)] by blast
    with answered(7) have m: "m = State_Monad.return a'" by simp
    with answered(7,8) have pure: "s_seen (fs_calls c) ! p = [Picked (State_Monad.return a)]" "w' = w" by (simp_all add: world)
    have i: "i < length (fs_jobs c)" "fst (fs_jobs c ! i) = JobCall env q k" using answered(1,4,5) by simp_all
    have "\<not> behind (?j0 i) (?w0 i) ?cs c i" by (simp add: behind_def Let_def i(2))
    with phase [of i] i(1) len have ahead: "ahead (?j0 i) (?w0 i) c i" by (simp add: phase_def)
    then have quiet: "job_call (k a) = None" by (simp add: ahead_def i(2))
    have effects: "job_effects (k a) b (done_by c' i d) = job_effects (?j0 i) a (local_state d (?w0 i))"
      for b and d :: "('a, 'b) FakeDriver \<times> 'b"
    proof -
      have "done_by c' i d = done_by c i d" using i(1) answered(1) by (simp add: answered(2) done_by_def)
      moreover have "job_effects (k a) a (done_by c i d) = job_effects (?j0 i) a (local_state d (?w0 i))"
        using ahead by (cases d) (simp add: ahead_def i(2))
      ultimately show ?thesis using job_effects_quiet [OF quiet, of b "done_by c i d" a] by simp
    qed
    have now: "behind (?j0 i) (?w0 i) ?cs c' i"
      unfolding behind_def Let_def
      using answered(1,3,6) pure(1) i(1) quiet effects by (auto simp: answered(2) intro!: exI [of _ p] exI [of _ a])
    have other: "fs_jobs c' ! h = fs_jobs c ! h" "done_by c' h d = done_by c h d" if "h \<noteq> i" for h and d :: "('a, 'b) FakeDriver \<times> 'b"
      using that answered(1) by (simp_all add: answered(2) done_by_def)
    have calls: "fs_calls c' = fs_calls c" by (simp add: answered(2))
    show ?thesis
    proof (rule serving_invI [OF _ follows_other [OF cs(1) follows]])
      show "phase fl lg0 reqs c' h" if "h < length reqs" for h
        using phase [OF that] now other by (cases "h = i") (simp_all add: phase_def ahead_def behind_def Let_def calls)
    qed (use run len in \<open>simp_all add: answered(2) pure(2)\<close>)
  qed
qed

lemma serving_inv_run:
  "fake_server_run (callers_of fl lg0 reqs) c es c' \<Longrightarrow> serving_inv fl lg0 reqs fake w [] c \<Longrightarrow> told fake \<Longrightarrow>
    serving_inv fl lg0 reqs fake w es c'"
  by (induction rule: fake_server_run.induct) (blast intro: serving_inv_step)+

section \<open>Requests one at a time\<close>

lemma before_map:
  assumes "inj_on f (insert p (insert q (set is)))"
  shows "before (map f is) (f p) (f q) \<longleftrightarrow> before is p q"
  using assms
proof (induction "is" rule: rev_induct)
  case (snoc i "is")
  have eq: "f x = f y \<longleftrightarrow> x = y" if "x \<in> {p, q, i} \<union> set is" "y \<in> {p, q, i} \<union> set is" for x y
    by (rule inj_on_eq_iff [OF snoc.prems]) (use that in auto)
  have "before (map f is) (f p) (f q) \<longleftrightarrow> before is p q" by (rule snoc.IH [OF inj_on_subset [OF snoc.prems]]) auto
  moreover have "f q \<in> f ` set is \<longleftrightarrow> q \<in> set is" using eq by (auto simp: image_iff)
  ultimately show ?case by (simp add: before_snoc eq)
qed (simp add: before_def upto_last_def)

text \<open>A request to a told fake, with nothing else about: its call is the step of its use.\<close>

lemma serve_told:
  fixes fake :: "('f, 'w) FakeDriver" and w :: 'w
  assumes "p < length (callers_of fl lg0 reqs)" and "told fake"
  shows "\<exists>a. snd (use_step (use_of (calls_of fl lg0 reqs ! p)) fake) = [Picked (State_Monad.return a)] \<and>
    serve_one (server_mux fl lg0 FakeDriver_Driver) reqs (callers_of fl lg0 reqs ! p) (fake, w) =
      job_effects (job_at fl lg0 reqs (callers_of fl lg0 reqs ! p)) a
        (local_state (fst (use_step (use_of (calls_of fl lg0 reqs ! p)) fake), w)
          (fresh_writer (fst (reqs ! (callers_of fl lg0 reqs ! p)))))"
proof -
  let ?i = "callers_of fl lg0 reqs ! p"
  have "?i \<in> set (callers_of fl lg0 reqs)" using assms(1) by simp
  then have i: "?i < length reqs" "job_call (job_at fl lg0 reqs ?i) \<noteq> None" by (simp_all add: callers_mem)
  obtain b req where req: "reqs ! ?i = (b, req)" by fastforce
  obtain env q where call: "job_call (request_job fl lg0 req) = Some (env, q)"
    using i(2) by (auto simp: job_at_def req)
  have use: "calls_of fl lg0 reqs ! p = UseCall env q"
    using assms(1) by (simp add: calls_of_def job_at_def req call)
  obtain a where a: "pick_answer env q fake = State_Monad.return a" using told_picks [OF assms(2)] by blast
  let ?fake' = "FakeDriver_recordInvocation (call_method q) (call_args env q) (record_call env q fake)"
  have "run_state (exec_call FakeDriver_Driver env q) (fake, w) = (a, ?fake', w)" by (simp add: exec_fake a)
  from serve_one_job(2) [OF i(1) req call this] have
    "serve_one (server_mux fl lg0 FakeDriver_Driver) reqs ?i (fake, w) =
      job_effects (request_job fl lg0 req) a ((local_state (fake, w) (fresh_writer b))\<lparr>srv_driver := (?fake', w)\<rparr>)"
    by (simp add: job_effects_driver)
  moreover have "(local_state (fake, w) (fresh_writer b))\<lparr>srv_driver := (?fake', w)\<rparr> = local_state (?fake', w) (fresh_writer b)"
    by (simp add: local_state_def)
  ultimately show ?thesis by (intro exI [of _ a]) (simp add: use a req job_at_def)
qed

lemma job_effects_srv_driver: "srv_driver (job_effects t a s) = srv_driver s"
  by (induction t arbitrary: s) simp_all

text \<open>So the session's uses, one at a time, are the requests one at a time: a request that was served
  did so with an answer that one of the session's uses picked.\<close>

definition served_from ::
  "'f strconv \<Rightarrow> logger \<Rightarrow> (bool \<times> server_request) list \<Rightarrow> (nat \<times> ('f, 'w, unit) sight list) list \<Rightarrow>
    nat \<times> (('f, 'w) FakeDriver \<times> 'w) server_state \<Rightarrow> bool" where
  "served_from fl lg0 reqs seen r \<longleftrightarrow>
     (\<exists>p a. p < length (callers_of fl lg0 reqs) \<and> fst r = callers_of fl lg0 reqs ! p \<and>
        (p, [Picked (State_Monad.return a)]) \<in> set seen \<and>
        snd r = job_effects (job_at fl lg0 reqs (fst r)) a (local_state (srv_driver (snd r)) (fresh_writer (fst (reqs ! fst r)))))"

lemma served_from_later:
  "list_all (served_from fl lg0 reqs seen) rs \<Longrightarrow> list_all (served_from fl lg0 reqs (x # seen)) rs"
  unfolding served_from_def list_all_iff by (metis list.set_intros(2))

lemma serve_told_all:
  fixes fake :: "('f, 'w) FakeDriver" and w :: 'w and lg0 :: logger and fl :: "'f strconv" and reqs :: "(bool \<times> server_request) list"
  defines "serve_alone \<equiv> serve_one (server_mux fl lg0 FakeDriver_Driver) reqs"
    and "us \<equiv> map use_of (calls_of fl lg0 reqs :: ('f, 'w, unit) driver_use list)"
  assumes "list_all (\<lambda>p. p < length (callers_of fl lg0 reqs)) ps" and "told fake"
  shows "driver_after serve_alone (map (nth (callers_of fl lg0 reqs)) ps) (fake, w) = (uses_after us ps fake, w) \<and>
    list_all (served_from fl lg0 reqs (uses_seen us ps fake)) (one_by_one serve_alone (map (nth (callers_of fl lg0 reqs)) ps) (fake, w))"
  using assms(3,4)
proof (induction ps arbitrary: fake)
  case (Cons p ps)
  let ?i = "callers_of fl lg0 reqs ! p"
  let ?u = "calls_of fl lg0 reqs ! p :: ('f, 'w, unit) driver_use"
  let ?fake' = "fst (use_step (use_of ?u) fake)"
  have p: "p < length (callers_of fl lg0 reqs)" using Cons.prems by simp
  then have u: "us ! p = use_of ?u" by (simp add: us_def calls_count)
  have "list_all is_use_call (calls_of fl lg0 reqs :: ('f, 'w, unit) driver_use list)" by (rule calls_are_calls)
  with p have "is_use_call ?u" by (simp add: list_all_length calls_count)
  then have told: "told ?fake'" using Cons.prems(2) by (rule told_use)
  obtain a where a: "snd (use_step (use_of ?u) fake) = [Picked (State_Monad.return a)]"
    and s: "serve_alone ?i (fake, w) = job_effects (job_at fl lg0 reqs ?i) a (local_state (?fake', w) (fresh_writer (fst (reqs ! ?i))))"
    using serve_told [OF p Cons.prems(2)] unfolding serve_alone_def by blast
  have d: "srv_driver (serve_alone ?i (fake, w)) = (?fake', w)" unfolding s job_effects_srv_driver by (simp add: local_state_def)
  have "served_from fl lg0 reqs ((p, [Picked (State_Monad.return a)]) # seen) (?i, serve_alone ?i (fake, w))" for seen
    unfolding served_from_def fst_conv snd_conv d using p s by auto
  moreover have "driver_after serve_alone (map (nth (callers_of fl lg0 reqs)) ps) (?fake', w) = (uses_after us ps ?fake', w) \<and>
      list_all (served_from fl lg0 reqs (uses_seen us ps ?fake')) (one_by_one serve_alone (map (nth (callers_of fl lg0 reqs)) ps) (?fake', w))"
    using Cons.IH [OF _ told] Cons.prems(1) by simp
  ultimately show ?case
    unfolding list.map one_by_one.simps driver_after.simps uses_after.simps uses_seen.simps d u list.pred_inject a
    using served_from_later by blast
qed simp

section \<open>The end of a run\<close>

lemma done_phases:
  fixes d :: "('f, 'w) FakeDriver \<times> 'w" and c :: "('f, 'w) fake_server"
  assumes "serving_inv fl lg0 reqs fake w es c" and "all_done c" and "i < length reqs"
  shows "i \<notin> set (callers_of fl lg0 reqs) \<Longrightarrow>
      done_by c i d = job_effects (job_at fl lg0 reqs i) a (local_state d (fresh_writer (fst (reqs ! i))))"
    and "p < length (callers_of fl lg0 reqs) \<Longrightarrow> i = callers_of fl lg0 reqs ! p \<Longrightarrow>
      todo (s_locks (fs_calls c)) ! p = [] \<and>
      (\<exists>a. s_seen (fs_calls c) ! p = [Picked (State_Monad.return a)] \<and>
        (\<forall>d :: ('f, 'w) FakeDriver \<times> 'w. done_by c i d = job_effects (job_at fl lg0 reqs i) a (local_state d (fresh_writer (fst (reqs ! i))))))"
proof -
  have "i < length (fs_jobs c)" "phase fl lg0 reqs c i" using assms(1,3) by (simp_all add: serving_inv_def)
  moreover from this assms(2) have end_job: "fst (fs_jobs c ! i) = JobDone" by (simp add: all_done_def list_all_length case_prod_beta)
  ultimately have phase: "phase fl lg0 reqs c i" by simp
  show "done_by c i d = job_effects (job_at fl lg0 reqs i) a (local_state d (fresh_writer (fst (reqs ! i))))"
    if "i \<notin> set (callers_of fl lg0 reqs)"
  proof -
    have "\<not> behind (job_at fl lg0 reqs i) (fresh_writer (fst (reqs ! i))) (callers_of fl lg0 reqs) c i"
      using that nth_mem by (auto simp: behind_def Let_def)
    with phase show ?thesis by (cases d) (simp add: phase_def ahead_def end_job)
  qed
  show "todo (s_locks (fs_calls c)) ! p = [] \<and>
      (\<exists>a. s_seen (fs_calls c) ! p = [Picked (State_Monad.return a)] \<and>
        (\<forall>d :: ('f, 'w) FakeDriver \<times> 'w. done_by c i d = job_effects (job_at fl lg0 reqs i) a (local_state d (fresh_writer (fst (reqs ! i))))))"
    if p: "p < length (callers_of fl lg0 reqs)" "i = callers_of fl lg0 reqs ! p"
  proof -
    have "i \<in> set (callers_of fl lg0 reqs)" using p by simp
    then have "job_call (job_at fl lg0 reqs i) \<noteq> None" by (simp add: callers_mem)
    with phase have "behind (job_at fl lg0 reqs i) (fresh_writer (fst (reqs ! i))) (callers_of fl lg0 reqs) c i"
      by (auto simp: phase_def ahead_def end_job)
    then obtain p' a where p': "p' < length (callers_of fl lg0 reqs)" "callers_of fl lg0 reqs ! p' = i"
      "todo (s_locks (fs_calls c)) ! p' = []" "s_seen (fs_calls c) ! p' = [Picked (State_Monad.return a)]"
      "\<And>d :: ('f, 'w) FakeDriver \<times> 'w. done_by c i d = job_effects (job_at fl lg0 reqs i) a (local_state d (fresh_writer (fst (reqs ! i))))"
      unfolding behind_def Let_def end_job job_effects.simps by blast
    have "p' = p" using p p'(1,2) callers_distinct [of fl lg0 reqs] by (simp add: nth_eq_iff_index_eq)
    with p'(3-5) show ?thesis by blast
  qed
qed

lemma fake_server_order:
  fixes fake :: "('f, 'w) FakeDriver" and lg0 :: logger and fl :: "'f strconv" and reqs :: "(bool \<times> server_request) list"
  defines "serve_alone \<equiv> serve_one (server_mux fl lg0 FakeDriver_Driver) reqs"
  assumes inv: "serving_inv fl lg0 reqs fake w es c" and all_done: "all_done c" and told: "told fake"
  shows "\<exists>ord. mset ord = mset (callers_of fl lg0 reqs) \<and> in_real_time es ord \<and>
    driver_after serve_alone ord (fake, w) = (s_fake (fs_calls c), fs_world c) \<and>
    list_all (\<lambda>(i, s). done_by c i (srv_driver s) = s) (one_by_one serve_alone ord (fake, w))"
proof -
  let ?cs = "callers_of fl lg0 reqs"
  define us where "us = map use_of (calls_of fl lg0 reqs :: ('f, 'w, unit) driver_use list)"
  have count: "length us = length ?cs" by (simp add: us_def calls_count)
  from inv obtain n "is" where run: "session_run (session_start us fake) n is (fs_calls c)" and follows: "follows ?cs es is"
    and world: "fs_world c = w"
    unfolding serving_inv_def us_def by blast
  note ends = done_phases(2) [OF inv all_done]
  have caller: "?cs ! p < length reqs" if "p < length ?cs" for p
    using nth_mem [OF that] by (simp add: callers_mem)
  have "length (todo (s_locks (fs_calls c))) = length ?cs"
    using use_of_session(1) [OF run [unfolded us_def] calls_are_calls told] by (simp add: calls_count)
  then have "finished (s_locks (fs_calls c))"
    using ends [OF caller _ refl] by (simp add: finished_def list_all_length)
  from fake_driver.linearisable [OF run _ this] obtain ps where ps: "mset ps = mset [0..<length us]" "in_real_time is ps"
    "s_fake (fs_calls c) = uses_after us ps fake" "list_all (\<lambda>(p, os). s_seen (fs_calls c) ! p = os) (uses_seen us ps fake)"
    by (auto simp: us_def)
  have set_ps: "set ps = {0..<length ?cs}" using mset_eq_setD [OF ps(1)] count by simp
  then have bound: "list_all (\<lambda>p. p < length ?cs) ps" by (simp add: list_all_iff)
  note all = serve_told_all [OF bound told, of w, folded us_def serve_alone_def]
  have perm: "mset (map (nth ?cs) ps) = mset ?cs"
    using ps(1) count by (metis map_nth mset_map)
  have inj: "inj_on (nth ?cs) (insert p (insert q (set ps)))" if "p \<in> set ps" "q \<in> set ps" for p q
    using that set_ps callers_distinct [of fl lg0 reqs] by (auto simp: inj_on_def nth_eq_iff_index_eq)
  have "before (map (nth ?cs) ps) (?cs ! p) (?cs ! q)" if "p \<in> set ps" "q \<in> set ps" "before es (?cs ! p) (?cs ! q)" for p q
  proof -
    have "before is p q" using follows that set_ps by (simp add: follows_def)
    then have "before ps p q" using ps(2) that by (simp add: in_real_time_def list_all_iff)
    then show ?thesis by (simp add: before_map [OF inj [OF that(1,2)]])
  qed
  then have time: "in_real_time es (map (nth ?cs) ps)" by (simp add: in_real_time_def list_all_iff)
  have "done_by c i (srv_driver s) = s" if served: "served_from fl lg0 reqs (uses_seen us ps fake) (i, s)" for i s
  proof -
    obtain p a where p: "p < length ?cs" "i = ?cs ! p" "(p, [Picked (State_Monad.return a)]) \<in> set (uses_seen us ps fake)"
      and s: "s = job_effects (job_at fl lg0 reqs i) a (local_state (srv_driver s) (fresh_writer (fst (reqs ! i))))"
      using served unfolding served_from_def fst_conv snd_conv by blast
    have "i < length reqs" using caller [OF p(1)] p(2) by simp
    from ends [OF this p(1,2)] obtain a' where a': "s_seen (fs_calls c) ! p = [Picked (State_Monad.return a')]"
      "done_by c i (srv_driver s) = job_effects (job_at fl lg0 reqs i) a' (local_state (srv_driver s) (fresh_writer (fst (reqs ! i))))"
      by blast
    have "s_seen (fs_calls c) ! p = [Picked (State_Monad.return a)]" using ps(4) p(3) by (auto simp: list_all_iff)
    with a'(1) have "(State_Monad.return a :: ('w, answer) state) = State_Monad.return a'" by simp
    from arg_cong [OF this, of "\<lambda>m. fst (run_state m w)"] have "a = a'" by simp
    with a'(2) s show ?thesis by simp
  qed
  then have "list_all (\<lambda>(i, s). done_by c i (srv_driver s) = s) (one_by_one serve_alone (map (nth ?cs) ps) (fake, w))"
    using all by (auto simp: list_all_iff)
  with perm time all ps(3) world show ?thesis by (intro exI [of _ "map (nth ?cs) ps"]) simp
qed

section \<open>Going on\<close>

text \<open>What a session can do one of its unfinished threads can do.\<close>

lemma session_moves:
  assumes "session_step c js d" and "\<And>p. p < length (todo (s_locks c)) \<Longrightarrow> length (s_code c ! p) = length (todo (s_locks c) ! p)"
  shows "\<exists>p. p < length (todo (s_locks c)) \<and> todo (s_locks c) ! p \<noteq> [] \<and> moves p c js d"
  using assms(1)
proof cases
  case (wait l)
  have kept: "todo (s_locks c) ! i = []" if "i < length (todo (s_locks c))" "todo (s_locks c) = advance (s_locks c) i" for i
  proof -
    have "todo (s_locks c) ! i = tl (todo (s_locks c) ! i)" using that by (metis nth_list_update_eq)
    then show ?thesis by (cases "todo (s_locks c) ! i") simp_all
  qed
  from wait(3,4) obtain i m where "i < length (todo (s_locks c))" "todo (s_locks c) ! i \<noteq> []" "writer (s_locks c) m = None" "writer l m = Some i"
    by (cases rule: lock_stepE) (auto dest: kept)
  with wait assms(1) show ?thesis by (auto simp: moves_def intro!: exI [of _ i])
next
  case (work l i e es k os)
  with assms have "moves i c js d" by (simp add: moves_def)
  moreover have "todo (s_locks c) ! i \<noteq> []" using assms(2) [OF work(4)] work(6) by auto
  ultimately show ?thesis using work(4) by blast
qed

lemma no_views: "list_all is_use_call us \<Longrightarrow> list_all (\<lambda>u. \<not> views u) (map use_of us)"
  by (auto simp: list_all_iff is_use_call_def)

text \<open>Unless all requests have been answered, one of them can go on.\<close>

lemma serving_goes_on:
  fixes fake :: "('f, 'w) FakeDriver"
  assumes inv: "serving_inv fl lg0 reqs fake w es c" and told: "told fake"
  shows "all_done c \<or> (\<exists>i c'. fake_server_step (callers_of fl lg0 reqs) c i c')"
proof (rule ccontr)
  let ?cs = "callers_of fl lg0 reqs" and ?us = "calls_of fl lg0 reqs :: ('f, 'w, unit) driver_use list"
  assume "\<not> (all_done c \<or> (\<exists>i c'. fake_server_step ?cs c i c'))"
  then have undone: "\<not> all_done c" and stuck: "\<not> fake_server_step ?cs c i c'" for i c' by blast+
  have us: "list_all is_use_call ?us" "length ?us = length ?cs" by (rule calls_are_calls calls_count)+
  from inv obtain n "is" where run: "session_run (session_start (map use_of ?us) fake) n is (fs_calls c)"
    and len: "length (fs_jobs c) = length reqs" and phase: "\<And>i. i < length reqs \<Longrightarrow> phase fl lg0 reqs c i"
    unfolding serving_inv_def by blast
  note session = use_of_session [OF run us(1) told, unfolded us(2)]
  have at_call: "fst (fs_jobs c ! i) = JobDone \<or> (\<exists>env q k. fst (fs_jobs c ! i) = JobCall env q k)" if "i < length reqs" for i
  proof (cases "local_effect (fst (fs_jobs c ! i)) (local_state () (snd (fs_jobs c ! i)))")
    case None
    then show ?thesis by (cases "fst (fs_jobs c ! i)") simp_all
  next
    case (Some r)
    then show ?thesis using stuck own_effect [of i c "fst r" "snd r" ?cs] that len by auto
  qed
  have caller: "?cs ! p < length reqs" "job_call (job_at fl lg0 reqs (?cs ! p)) \<noteq> None" if "p < length ?cs" for p
    using nth_mem [OF that] by (simp_all add: callers_mem)
  have calling: "\<exists>env q k. fst (fs_jobs c ! (?cs ! p)) = JobCall env q k" if p: "p < length ?cs" "todo (s_locks (fs_calls c)) ! p \<noteq> []" for p
  proof -
    have "\<not> behind (job_at fl lg0 reqs (?cs ! p)) (fresh_writer (fst (reqs ! (?cs ! p)))) ?cs c (?cs ! p)"
      using p callers_distinct [of fl lg0 reqs] by (auto simp: behind_def Let_def nth_eq_iff_index_eq)
    with phase [OF caller(1) [OF p(1)]] have "job_call (fst (fs_jobs c ! (?cs ! p))) = job_call (job_at fl lg0 reqs (?cs ! p))"
      by (simp add: phase_def ahead_def Let_def)
    with at_call [OF caller(1) [OF p(1)]] caller(2) [OF p(1)] show ?thesis by auto
  qed
  from undone obtain i where i: "i < length reqs" "fst (fs_jobs c ! i) \<noteq> JobDone"
    using len by (auto simp: all_done_def list_all_length case_prod_beta)
  with at_call obtain env q k where job: "fst (fs_jobs c ! i) = JobCall env q k" by blast
  then have "\<not> behind (job_at fl lg0 reqs i) (fresh_writer (fst (reqs ! i))) ?cs c i" by (simp add: behind_def Let_def)
  with phase [OF i(1)] job have "Some (env, q) = job_call (job_at fl lg0 reqs i)" by (simp add: phase_def ahead_def)
  from this [symmetric] have "i \<in> set ?cs" using i(1) by (simp add: callers_mem)
  then obtain p where p: "p < length ?cs" "?cs ! p = i" by (auto simp: in_set_conv_nth)
  have "todo (s_locks (fs_calls c)) ! p \<noteq> []"
  proof
    assume ended: "todo (s_locks (fs_calls c)) ! p = []"
    from session(4) [OF p(1) ended] obtain a where "s_seen (fs_calls c) ! p = [Picked (State_Monad.return a)]" by blast
    from answered [OF p(1) _ _ ended this] stuck show False using p(2) i(1) len job by auto
  qed
  with p(1) session(1) have "\<not> finished (s_locks (fs_calls c))" by (auto simp: finished_def list_all_length)
  moreover have "set (map use_of ?us) \<subseteq> range use_of" by auto
  ultimately obtain js d where step: "session_step (fs_calls c) js d"
    using fake_driver.sessions_end [OF run _ no_views [OF us(1)]] by blast
  from session_moves [OF step session(3)] session(1) obtain p' where p': "p' < length ?cs"
    "todo (s_locks (fs_calls c)) ! p' \<noteq> []" "moves p' (fs_calls c) js d" by auto
  from calling [OF p'(1,2)] obtain env' q' k' where "fst (fs_jobs c ! (?cs ! p')) = JobCall env' q' k'" by blast
  from in_call [OF p'(1) _ this p'(3)] stuck caller(1) [OF p'(1)] len show False by simp
qed

section \<open>How long it takes\<close>

text \<open>\<open>job_at_most t n\<close>: the job has at most \<open>n\<close> effects left, whatever the driver answers.\<close>

primrec job_at_most :: "'f job \<Rightarrow> nat \<Rightarrow> bool" where
  "job_at_most JobDone = (\<lambda>n. True)"
| "job_at_most (JobLog e t) = (\<lambda>n. 0 < n \<and> job_at_most t (n - 1))"
| "job_at_most (JobMonitor p t) = (\<lambda>n. 0 < n \<and> job_at_most t (n - 1))"
| "job_at_most (JobWrite f t) = (\<lambda>n. 0 < n \<and> job_at_most t (n - 1))"
| "job_at_most (JobCall env q k) = (\<lambda>n. 0 < n \<and> (\<forall>a. job_at_most (k a) (n - 1)))"

lemma job_at_most_log_all [simp]: "job_at_most (job_log_all es t) n \<longleftrightarrow> length es \<le> n \<and> job_at_most t (n - length es)"
proof (induction es arbitrary: n)
  case (Cons e es)
  then show ?case by (cases n) simp_all
qed simp

lemma job_at_most_effect: "job_at_most t n \<Longrightarrow> local_effect t s = Some (t', s') \<Longrightarrow> 0 < n \<and> job_at_most t' (n - 1)"
  by (cases t) auto

lemma serve_job_at_most:
  assumes "\<And>a. length (remark a) \<le> 1"
  shows "job_at_most (serve_job lvl lg accept mk remark req) 8"
proof -
  have "length (remark a) \<le> 3 \<and> length (remark a) < 3 \<and> Suc 0 < 3 - length (remark a)" for a
    using assms [of a] by linarith
  then show ?thesis by (simp add: serve_job_def Let_def split: sum.split)
qed

lemma server_jobs_at_most: "list_all (\<lambda>(n, j). \<forall>req. job_at_most (j req) 8) (server_jobs fl lg)"
  by (simp add: server_jobs_def serve_job_at_most error_note_def)

lemma request_job_at_most: "job_at_most (request_job fl lg0 req) 8"
proof (cases "find (\<lambda>r. Route_Path r = req_Path req) Routes")
  case None
  then show ?thesis by (simp add: request_job_def mux_choose_Routes)
next
  case (Some rt)
  then have rt: "rt \<in> set Routes" by (auto simp: find_Some_iff)
  let ?lg = "Session lg0 ''server''"
  let ?drv = "FakeDriver_Driver :: ('a, ('a, unit) FakeDriver \<times> unit) Driver"
  obtain h where h: "map_of (server_handlers fl ?lg ?drv) (Route_Name rt) = Some h"
    using server_handlers_complete [OF rt] by fastforce
  obtain t where t: "map_of (server_threads fl ?lg ?drv) (Route_Name rt) = Some t"
    using map_of_match [OF threads_match h] by blast
  obtain j where j: "map_of (server_jobs fl ?lg) (Route_Name rt) = Some j"
    using map_of_match [OF jobs_match t] by blast
  then have "job_at_most (j req) 8"
    using server_jobs_at_most [of fl ?lg] map_of_SomeD [OF j] by (auto simp: list_all_iff)
  with Some j show ?thesis by (simp add: request_job_def mux_choose_Routes)
qed

text \<open>Effects of jobs and lock operations are all that a run consists of.\<close>

definition budget :: "('f, 'w) fake_server \<Rightarrow> nat list \<Rightarrow> bool" where
  "budget c ks \<longleftrightarrow> list_all2 (\<lambda>(j, w) k. job_at_most j k) (fs_jobs c) ks"

lemma budget_spent:
  assumes "budget c ks" and "i < length (fs_jobs c)" and "0 < ks ! i" and "job_at_most j (ks ! i - 1)" and "fs_jobs c' = (fs_jobs c)[i := (j, v)]"
  shows "budget c' (ks[i := ks ! i - 1]) \<and> Suc (sum_list (ks[i := ks ! i - 1])) = sum_list ks"
proof
  have len: "i < length ks" using assms(1,2) by (simp add: budget_def list_all2_lengthD)
  show "budget c' (ks[i := ks ! i - 1])"
    using assms(1,4) unfolding budget_def assms(5) by (intro list_all2_update_cong) auto
  show "Suc (sum_list (ks[i := ks ! i - 1])) = sum_list ks"
    using len assms(3) elem_le_sum_list [OF len] by (simp add: sum_list_update)
qed

lemma fake_server_cost:
  "fake_server_run callers c0 es c \<Longrightarrow> session_run s n0 is0 (fs_calls c0) \<Longrightarrow> budget c0 ks0 \<Longrightarrow>
    \<exists>n is ks. session_run s n is (fs_calls c) \<and> budget c ks \<and> length es + sum_list ks + n0 = sum_list ks0 + n"
proof (induction rule: fake_server_run.induct)
  case (server_begin c)
  then show ?case by (intro exI conjI) auto
next
  case (server_next c0 es c i c')
  from server_next.IH [OF server_next.prems] obtain n "is" ks where run: "session_run s n is (fs_calls c)"
    and budget: "budget c ks" and cost: "length es + sum_list ks + n0 = sum_list ks0 + n" by blast
  have at_most: "job_at_most (fst (fs_jobs c ! h)) (ks ! h)" if "h < length (fs_jobs c)" for h
    using list_all2_nthD [OF budget [unfolded budget_def] that] by (simp add: case_prod_beta)
  have spent: ?case if "h < length (fs_jobs c)" "0 < ks ! h \<and> job_at_most j (ks ! h - 1)" "fs_jobs c' = (fs_jobs c)[h := (j, v)]"
    "fs_calls c' = fs_calls c" for h j v
  proof -
    from that(2) have "0 < ks ! h" "job_at_most j (ks ! h - 1)" by simp_all
    from budget_spent [OF budget that(1) this that(3)] run cost that(4) show ?thesis
      by (intro exI [of _ n] exI [of _ "is"] exI [of _ "ks[h := ks ! h - 1]"]) simp
  qed
  from server_next.hyps(2) show ?case
  proof cases
    case (own_effect j s)
    show ?thesis
      by (rule spent [OF own_effect(2) job_at_most_effect [OF at_most [OF own_effect(2)] own_effect(3)]])
        (simp_all add: own_effect(1))
  next
    case (in_call p env q k js d)
    then have "session_step (fs_calls c) js d" by (simp add: moves_def)
    from session_next [OF run this] show ?thesis
      using budget cost by (intro exI [of _ "Suc n"] exI [of _ "is @ js"] exI [of _ ks]) (simp add: in_call(2) budget_def)
  next
    case (answered p env q k m a w')
    have "0 < ks ! i \<and> job_at_most (k a) (ks ! i - 1)" using at_most [of i] answered(1,4,5) by simp
    then show ?thesis
      by (rule spent [rotated]) (use answered(1,4) in \<open>simp_all add: answered(2)\<close>)
  qed
qed

lemma serving_cost:
  fixes fake :: "('f, 'w) FakeDriver"
  assumes "fake_server_run (callers_of fl lg0 reqs) (fake_serving fl lg0 reqs fake w) es c"
  shows "length es \<le> 14 * length reqs"
proof -
  let ?us = "calls_of fl lg0 reqs :: ('f, 'w, unit) driver_use list"
  let ?c0 = "fake_serving fl lg0 reqs fake w"
  have "budget ?c0 (replicate (length reqs) 8)"
    by (simp add: budget_def fake_serving_def list_all2_conv_all_nth case_prod_beta request_job_at_most)
  moreover have "session_run (session_start (map use_of ?us) fake) 0 [] (fs_calls ?c0)"
    by (simp add: fake_serving_def session_begin)
  ultimately obtain n "is" ks where run: "session_run (session_start (map use_of ?us) fake) n is (fs_calls c)"
    and "length es + sum_list ks + 0 = sum_list (replicate (length reqs) 8) + n"
    using fake_server_cost [OF assms] by blast
  then have cost: "length es + sum_list ks = 8 * length reqs + n" by (simp add: sum_list_replicate)
  have "set (map use_of ?us) \<subseteq> range use_of" by auto
  then have "n \<le> 6 * length ?us"
    using fake_driver.sessions_end [OF run _ no_views [OF calls_are_calls]] by simp
  moreover have "length ?us \<le> length reqs"
    using length_filter_le [of "\<lambda>i. job_call (job_at fl lg0 reqs i) \<noteq> None" "[0..<length reqs]"]
    by (simp add: calls_count callers_of_def)
  ultimately show ?thesis using cost by linarith
qed

text \<open>So every run can be brought to an end.\<close>

lemma serving_finishes:
  fixes fake :: "('f, 'w) FakeDriver"
  assumes "told fake"
  shows "\<exists>es c. fake_server_run (callers_of fl lg0 reqs) (fake_serving fl lg0 reqs fake w) es c \<and> all_done c"
proof -
  let ?run = "fake_server_run (callers_of fl lg0 reqs) (fake_serving fl lg0 reqs fake w)"
  have "\<exists>es c. ?run es c \<and> (all_done c \<or> length es = n)" for n
  proof (induction n)
    case 0
    then show ?case using server_begin by fastforce
  next
    case (Suc n)
    then obtain es c where run: "?run es c" "all_done c \<or> length es = n" by blast
    then show ?case
      using serving_goes_on [OF serving_inv_run [OF run(1) serving_inv_start assms] assms] server_next [OF run(1)]
      by (metis length_append_singleton)
  qed
  from this [of "Suc (14 * length reqs)"] show ?thesis using serving_cost by fastforce
qed

section \<open>Properties\<close>

text \<open>Property C8. However requests to the server over a fake that was told its answers interleave, at the
  effects of the handlers and at the mutexes of the fake, when all have been answered there is an
  order of those that called it, in which one that returned before another began comes first, such
  that serving them one at a time gives the fake as it is, with the calls it has recorded, and for
  each the same response, log and goroutines; and the others did what they do alone.\<close>

theorem fake_server_serialisable:
  assumes "fake_server_run (callers_of fl lg0 reqs) (fake_serving fl lg0 reqs fake w) es c" and "all_done c"
    and "told fake" and "alone_serve = serve_one (server_mux fl lg0 FakeDriver_Driver) reqs"
  shows "(\<exists>ord. mset ord = mset (callers_of fl lg0 reqs) \<and> in_real_time es ord \<and>
      driver_after alone_serve ord (fake, w) = (s_fake (fs_calls c), fs_world c) \<and>
      list_all (\<lambda>(i, s). done_by c i (srv_driver s) = s) (one_by_one alone_serve ord (fake, w))) \<and>
    list_all (\<lambda>i. i \<in> set (callers_of fl lg0 reqs) \<or> done_by c i d = alone_serve i d) [0..<length reqs]"
proof
  note inv = serving_inv_run [OF assms(1) serving_inv_start assms(3)]
  show "\<exists>ord. mset ord = mset (callers_of fl lg0 reqs) \<and> in_real_time es ord \<and>
      driver_after alone_serve ord (fake, w) = (s_fake (fs_calls c), fs_world c) \<and>
      list_all (\<lambda>(i, s). done_by c i (srv_driver s) = s) (one_by_one alone_serve ord (fake, w))"
    unfolding assms(4) by (rule fake_server_order [OF inv assms(2,3)])
  have "done_by c i d = alone_serve i d" if "i < length reqs" "i \<notin> set (callers_of fl lg0 reqs)" for i
  proof -
    obtain b req where req: "reqs ! i = (b, req)" by fastforce
    have quiet: "job_call (request_job fl lg0 req) = None" using that by (simp add: callers_mem job_at_def req del: not_None_eq)
    from done_phases(1) [OF inv assms(2) that, of d undefined]
    show ?thesis unfolding assms(4) serve_one_job(1) [OF that(1) req quiet, where a = undefined] by (simp add: job_at_def req)
  qed
  then show "list_all (\<lambda>i. i \<in> set (callers_of fl lg0 reqs) \<or> done_by c i d = alone_serve i d) [0..<length reqs]"
    unfolding list_all_iff set_upt by force
qed

text \<open>Property C9. Requests to the server over a fake that was told its answers never block each other at
  its mutexes for good: unless all have been answered one can go on, and \<open>n\<close> requests take at most
  \<open>14 n\<close> steps.\<close>

theorem fake_server_ends:
  assumes "fake_server_run (callers_of fl lg0 reqs) (fake_serving fl lg0 reqs fake w) es c" and "told fake"
  shows "(all_done c \<or> (\<exists>i c'. fake_server_step (callers_of fl lg0 reqs) c i c')) \<and> length es \<le> 14 * length reqs"
  using serving_goes_on [OF serving_inv_run [OF assms(1) serving_inv_start assms(2)] assms(2)] serving_cost [OF assms(1)]
  by blast

section \<open>Instances\<close>

text \<open>Two requests to mount a volume, and one to a path that is not routed.\<close>

definition demo_requests :: "(bool \<times> server_request) list" where
  "demo_requests = [(True, demo_mount), (False, demo_mount), (True, demo_mount\<lparr>req_Path := ''/VolumeDriver''\<rparr>)]"

definition demo_fake :: "(unit, unit) FakeDriver" where
  "demo_fake = FakeDriver_MountReturns \<lparr>MountResponse_Err = '''', MountResponse_Mountpoint = ''/mnt/v''\<rparr> new_FakeDriver"

lemma demo_told: "told demo_fake"
  by (simp add: told_def demo_fake_def FakeDriver_MountReturns_def new_FakeDriver_def fm_new_def fm_SetReturns_def)

lemma demo_callers: "callers_of no_floats ''srv'' demo_requests = [0, 1]"
proof -
  have req: "req_Method demo_mount = ''POST''" "req_Path demo_mount = ''/VolumeDriver.Mount''"
    by (simp_all add: demo_mount_def demo_request_def)
  have "find (\<lambda>r. Route_Path r = ''/VolumeDriver.Mount'') Routes = Some (post_route ''/VolumeDriver.Mount'' MountRoute)"
    by (simp add: Routes_def post_route_def)
  then have "request_job no_floats ''srv'' demo_mount =
      (the (map_of (server_jobs no_floats (Session ''srv'' ''server'')) MountRoute)) demo_mount"
    by (simp add: request_job_def mux_choose_Routes req) (simp add: post_route_def server_jobs_def route_name_defs)
  then have mount: "job_call (request_job no_floats ''srv'' demo_mount) \<noteq> None"
    by (simp add: server_jobs_def route_name_defs serve_job_def demo_accepted Let_def)
  have "find (\<lambda>r. Route_Path r = ''/VolumeDriver'') Routes = None"
    by (simp add: Routes_def post_route_def)
  then have "job_call (request_job no_floats ''srv'' (demo_mount\<lparr>req_Path := ''/VolumeDriver''\<rparr>)) = None"
    by (simp add: request_job_def mux_choose_Routes req)
  with mount show ?thesis by (simp add: callers_of_def job_at_def demo_requests_def upt_rec)
qed

theorem fake_server_serialisable_witness:
  "\<exists>es c ord. fake_server_run [0, 1] (fake_serving no_floats ''srv'' demo_requests demo_fake ()) es c \<and> all_done c \<and>
    mset ord = {#0, 1#} \<and>
    driver_after (serve_one (server_mux no_floats ''srv'' FakeDriver_Driver) demo_requests) ord (demo_fake, ()) = (s_fake (fs_calls c), ()) \<and>
    done_by c 2 (demo_fake, ()) = serve_one (server_mux no_floats ''srv'' FakeDriver_Driver) demo_requests 2 (demo_fake, ())"
proof -
  obtain es c where c: "fake_server_run (callers_of no_floats ''srv'' demo_requests) (fake_serving no_floats ''srv'' demo_requests demo_fake ()) es c"
    "all_done c" using serving_finishes [OF demo_told] by blast
  note serial = fake_server_serialisable [OF c demo_told refl, of "(demo_fake, ())", unfolded demo_callers]
  obtain ord where ord: "mset ord = mset [0, 1 :: nat]"
    "driver_after (serve_one (server_mux no_floats ''srv'' FakeDriver_Driver) demo_requests) ord (demo_fake, ()) = (s_fake (fs_calls c), fs_world c)"
    using serial by blast
  have "[0..<length demo_requests] = [0, 1, 2]" by (simp add: demo_requests_def upt_rec)
  with conjunct2 [OF serial] have
    "done_by c 2 (demo_fake, ()) = serve_one (server_mux no_floats ''srv'' FakeDriver_Driver) demo_requests 2 (demo_fake, ())" by simp
  with c ord show ?thesis unfolding demo_callers by auto
qed

theorem fake_server_ends_witness:
  "\<exists>es (c :: (unit, unit) fake_server). fake_server_run [0, 1] (fake_serving no_floats ''srv'' demo_requests demo_fake ()) es c \<and>
    all_done c \<and> length es \<le> 42"
proof -
  obtain es c where c: "fake_server_run (callers_of no_floats ''srv'' demo_requests) (fake_serving no_floats ''srv'' demo_requests demo_fake ()) es c"
    "all_done c" using serving_finishes [OF demo_told] by blast
  have "length es \<le> 14 * length demo_requests" using fake_server_ends [OF c(1) demo_told] by blast
  with c show ?thesis unfolding demo_callers by (auto simp: demo_requests_def)
qed

end
