(* ===== verification/Fake_Interfaces.thy ===== *)
theory Fake_Interfaces
  imports Fake_Spec
begin

text \<open>
  The three smaller test doubles as implementations of the interfaces they stand for, \<open>Env\<close>,
  \<open>Provisioner\<close> and \<open>RemoteClientFactory\<close>, and what makes them good stand-ins: an environment fake
  told what to return is read like a real environment, a provisioner fake is what a driver fake
  is to its provisioner, and a factory fake may be a spy on a real factory.
\<close>

section \<open>Environments\<close>

text \<open>The interface \<open>Env\<close> as its users see it: two methods, either of which may return nil.\<close>

record 's EnvInterface =
  env_Logger :: "('s, logger nilable) state"
  env_Context :: "('s, ctx nilable) state"

definition voldriverEnv_Env :: "Env \<Rightarrow> 's EnvInterface" where
  "voldriverEnv_Env env =
     \<lparr>env_Logger = State_Monad.return (Some (Env_Logger env)), env_Context = State_Monad.return (Some (Env_Context env))\<rparr>"

text \<open>\<open>var _ dockerdriver.Env = new(FakeEnv)\<close>.\<close>

definition FakeEnv_Env :: "(('f, 'w) FakeEnv \<times> 'w) EnvInterface" where
  "FakeEnv_Env = \<lparr>env_Logger = FakeEnv_Logger (), env_Context = FakeEnv_Context ()\<rparr>"

text \<open>\<open>EnvWithLogger\<close> and \<open>EnvWithContext\<close> as methods of the interface: each asks the given environment
  for the part it keeps, once.\<close>

definition env_with_logger :: "logger \<Rightarrow> 's EnvInterface \<Rightarrow> ('s, logger nilable \<times> ctx nilable) state" where
  "env_with_logger lg e = do { cx \<leftarrow> env_Context e; State_Monad.return (Some lg, cx) }"

definition env_with_context :: "ctx \<Rightarrow> 's EnvInterface \<Rightarrow> ('s, logger nilable \<times> ctx nilable) state" where
  "env_with_context cx e = do { lg \<leftarrow> env_Logger e; State_Monad.return (lg, Some cx) }"

text \<open>What a user can do with an environment, and what it learns.\<close>

datatype env_use = ReadLogger | ReadContext | WithLogger logger | WithContext ctx

datatype env_view = SawLogger "logger nilable" | SawContext "ctx nilable" | SawEnv "logger nilable \<times> ctx nilable"

fun use_env :: "'s EnvInterface \<Rightarrow> env_use \<Rightarrow> ('s, env_view) state" where
  "use_env e ReadLogger = do { x \<leftarrow> env_Logger e; State_Monad.return (SawLogger x) }"
| "use_env e ReadContext = do { x \<leftarrow> env_Context e; State_Monad.return (SawContext x) }"
| "use_env e (WithLogger lg) = do { x \<leftarrow> env_with_logger lg e; State_Monad.return (SawEnv x) }"
| "use_env e (WithContext cx) = do { x \<leftarrow> env_with_context cx e; State_Monad.return (SawEnv x) }"

fun use_env_all :: "'s EnvInterface \<Rightarrow> env_use list \<Rightarrow> ('s, env_view list) state" where
  "use_env_all e [] = State_Monad.return []"
| "use_env_all e (u # us) = do { x \<leftarrow> use_env e u; xs \<leftarrow> use_env_all e us; State_Monad.return (x # xs) }"

fun asks_logger :: "env_use \<Rightarrow> bool" where
  "asks_logger ReadLogger = True" | "asks_logger (WithContext cx) = True" | "asks_logger _ = False"

text \<open>A fake told to return a logger and a context, and nothing else since.\<close>

definition told_env :: "logger \<Rightarrow> ctx \<Rightarrow> ('f, 'w) FakeEnv \<Rightarrow> bool" where
  "told_env lg cx fake \<longleftrightarrow>
     fm_Stub (fe_Logger fake) = None \<and> fm_ReturnsOnCall (fe_Logger fake) = None \<and> fm_Returns (fe_Logger fake) = Some lg \<and>
     fm_Stub (fe_Context fake) = None \<and> fm_ReturnsOnCall (fe_Context fake) = None \<and> fm_Returns (fe_Context fake) = Some cx"

lemma told_env_set:
  "fm_ReturnsOnCall (fe_Logger fake) = None \<Longrightarrow> fm_ReturnsOnCall (fe_Context fake) = None \<Longrightarrow>
    told_env lg cx (FakeEnv_LoggerReturns (Some lg) (FakeEnv_ContextReturns (Some cx) fake))"
  by (simp add: told_env_def FakeEnv_LoggerReturns_def FakeEnv_ContextReturns_def fm_SetReturns_def)

lemma told_env_calls:
  assumes "told_env lg cx fake"
  shows "\<exists>fake'. run_state (FakeEnv_Logger ()) (fake, w) = (Some lg, (fake', w)) \<and> told_env lg cx fake' \<and>
      FakeEnv_LoggerCallCount fake' = Suc (FakeEnv_LoggerCallCount fake) \<and> FakeEnv_ContextCallCount fake' = FakeEnv_ContextCallCount fake"
    and "\<exists>fake'. run_state (FakeEnv_Context ()) (fake, w) = (Some cx, (fake', w)) \<and> told_env lg cx fake' \<and>
      FakeEnv_LoggerCallCount fake' = FakeEnv_LoggerCallCount fake \<and> FakeEnv_ContextCallCount fake' = Suc (FakeEnv_ContextCallCount fake)"
  using assms
  by (simp_all add: FakeEnv_Logger_def FakeEnv_Context_def FakeEnv_recordInvocation_def FakeEnv_LoggerCallCount_def
      FakeEnv_ContextCallCount_def fm_CallCount_def told_env_def fm_answer_def fm_specific_def fm_record_def)

lemma told_env_use:
  assumes "told_env lg cx fake"
  shows "\<exists>fake'. run_state (use_env FakeEnv_Env u) (fake, w) =
      (fst (run_state (use_env (voldriverEnv_Env \<lparr>Env_Logger = lg, Env_Context = cx\<rparr>) u) ()), (fake', w)) \<and>
    told_env lg cx fake' \<and>
    FakeEnv_LoggerCallCount fake' = FakeEnv_LoggerCallCount fake + (if asks_logger u then 1 else 0) \<and>
    FakeEnv_ContextCallCount fake' = FakeEnv_ContextCallCount fake + (if asks_logger u then 0 else 1)"
  using told_env_calls(1) [OF assms, of w] told_env_calls(2) [OF assms, of w]
  by (cases u) (auto simp: FakeEnv_Env_def voldriverEnv_Env_def env_with_logger_def env_with_context_def)

lemma told_env_uses:
  assumes "told_env lg cx fake"
  shows "\<exists>fake'. run_state (use_env_all FakeEnv_Env us) (fake, w) =
      (fst (run_state (use_env_all (voldriverEnv_Env \<lparr>Env_Logger = lg, Env_Context = cx\<rparr>) us) ()), (fake', w)) \<and>
    FakeEnv_LoggerCallCount fake' = FakeEnv_LoggerCallCount fake + length (filter asks_logger us) \<and>
    FakeEnv_ContextCallCount fake' = FakeEnv_ContextCallCount fake + length (filter (\<lambda>u. \<not> asks_logger u) us)"
  using assms
proof (induction us arbitrary: fake)
  case (Cons u us)
  obtain fake1 where fake1: "run_state (use_env FakeEnv_Env u) (fake, w) =
      (fst (run_state (use_env (voldriverEnv_Env \<lparr>Env_Logger = lg, Env_Context = cx\<rparr>) u) ()), (fake1, w))"
    "told_env lg cx fake1"
    "FakeEnv_LoggerCallCount fake1 = FakeEnv_LoggerCallCount fake + (if asks_logger u then 1 else 0)"
    "FakeEnv_ContextCallCount fake1 = FakeEnv_ContextCallCount fake + (if asks_logger u then 0 else 1)"
    using told_env_use [OF Cons.prems] by blast
  from Cons.IH [OF fake1(2)] fake1 show ?case by (auto simp: case_prod_beta)
qed simp

section \<open>Provisioners\<close>

record ('f, 's) ProvisionerInterface =
  Provisioner_Create :: "Env \<Rightarrow> 'f CreateRequest \<Rightarrow> ('s, ErrorResponse) state"
  Provisioner_Remove :: "Env \<Rightarrow> RemoveRequest \<Rightarrow> ('s, ErrorResponse) state"

text \<open>A driver is a provisioner, and \<open>var _ dockerdriver.Provisioner = new(FakeProvisioner)\<close>.\<close>

definition Driver_Provisioner :: "('f, 's) Driver \<Rightarrow> ('f, 's) ProvisionerInterface" where
  "Driver_Provisioner drv = \<lparr>Provisioner_Create = Driver_Create drv, Provisioner_Remove = Driver_Remove drv\<rparr>"

definition FakeProvisioner_Provisioner :: "('f, ('f, 'w) FakeProvisioner \<times> 'w) ProvisionerInterface" where
  "FakeProvisioner_Provisioner =
     \<lparr>Provisioner_Create = (\<lambda>env q. FakeProvisioner_Create (env, q)),
      Provisioner_Remove = (\<lambda>env q. FakeProvisioner_Remove (env, q))\<rparr>"

text \<open>The provisioner inside a driver fake, with its invocations only.\<close>

definition provisioner_of :: "('f, 'w) FakeDriver \<Rightarrow> ('f, 'w) FakeProvisioner" where
  "provisioner_of k =
     \<lparr>fp_Create = fd_Create k, fp_Remove = fd_Remove k,
      fp_invocations = map_option (filter (\<lambda>e. fst e = ''Create'' \<or> fst e = ''Remove'')) (fd_invocations k)\<rparr>"

lemma map_of_filter_fst: "P k \<Longrightarrow> map_of (filter (\<lambda>e. P (fst e)) m) k = map_of m k"
  by (induction m) auto

lemma filter_record_provisioner:
  assumes "key = ''Create'' \<or> key = ''Remove''"
  shows "map_option (filter (\<lambda>e. fst e = ''Create'' \<or> fst e = ''Remove'')) (record_invocation key args invs) =
      record_invocation key args (map_option (filter (\<lambda>e. fst e = ''Create'' \<or> fst e = ''Remove'')) invs)"
  using assms
  by (cases invs) (simp_all add: record_invocation_def Let_def conj_commute
      map_of_filter_fst [of "\<lambda>n. n = ''Create'' \<or> n = ''Remove''" key, OF assms])

section \<open>Factories\<close>

text \<open>A factory as its users see it, which may have effects; \<open>var _ dockerdriver.RemoteClientFactory =
  new(FakeRemoteClientFactory)\<close>.\<close>

type_synonym ('s, 'd) FactoryInterface = "string \<Rightarrow> TLSConfig nilable \<Rightarrow> ('s, 'd nilable \<times> go_error option) state"

definition RemoteClientFactory_Factory :: "RemoteClientFactory \<Rightarrow> ('s, remoteClient nilable) FactoryInterface" where
  "RemoteClientFactory_Factory F url tls = State_Monad.return (factory_NewRemoteClient F url tls)"

definition FakeRemoteClientFactory_Factory :: "(('f, 'd, 'w) FakeRemoteClientFactory \<times> 'w, 'd) FactoryInterface" where
  "FakeRemoteClientFactory_Factory url tls = FakeRemoteClientFactory_NewRemoteClient (url, tls)"

text \<open>A factory fake whose stub is another factory: it answers as that one and keeps the calls.\<close>

definition spying_on :: "('w, 'd) FactoryInterface \<Rightarrow> ('f, 'd, 'w) FakeRemoteClientFactory \<Rightarrow> bool" where
  "spying_on F fake \<longleftrightarrow> fm_Stub (ff_NewRemoteClient fake) = Some (\<lambda>(url, tls). F url tls)"

theorem fake_factory_spies:
  assumes "spying_on F fake"
    and "run_state (FakeRemoteClientFactory_Factory url tls) (fake, w) = (r, (fake', w'))"
  shows "run_state (F url tls) w = (r, w') \<and> spying_on F fake' \<and>
    FakeRemoteClientFactory_calls fake' =
      (FakeRemoteClientFactory_calls fake)(''NewRemoteClient'' :=
        FakeRemoteClientFactory_calls fake ''NewRemoteClient'' @ [[ArgString url, ArgTLS tls]])"
proof -
  let ?run = "run_state (FakeRemoteClientFactory_NewRemoteClient (url, tls)) (fake, w)"
  have run: "?run = (r, (fake', w'))" using assms(2) by (simp add: FakeRemoteClientFactory_Factory_def)
  have stub: "fm_Stub (ff_NewRemoteClient fake) = Some (\<lambda>(url, tls). F url tls)"
    using assms(1) by (simp add: spying_on_def)
  have "run_state (F url tls) w = (r, w')"
    using ff_NewRemoteClient.stubbed [OF stub, of "(url, tls)" w] run by (cases "run_state (F url tls) w") simp
  moreover have "spying_on F fake'"
    using ff_NewRemoteClient.recorded [of "(url, tls)" fake w] run stub
    by (simp add: spying_on_def fm_record_def)
  ultimately show ?thesis
    using ff_NewRemoteClient.remembered [of "(url, tls)" fake w] run by simp
qed

section \<open>Properties\<close>

text \<open>Property C28. An environment fake told to return a logger and a context answers any sequence of uses as
  the real environment with that logger and context does, \<open>EnvWithLogger\<close> and \<open>EnvWithContext\<close>
  included, which each ask it for the one part they keep; it counts what it was asked for.\<close>

theorem fake_env_stands_in:
  assumes "fm_ReturnsOnCall (fe_Logger fake) = None" and "fm_ReturnsOnCall (fe_Context fake) = None"
    and "told = FakeEnv_LoggerReturns (Some lg) (FakeEnv_ContextReturns (Some cx) fake)"
  shows "\<exists>fake'. run_state (use_env_all FakeEnv_Env us) (told, w) =
      (fst (run_state (use_env_all (voldriverEnv_Env (NewHttpDriverEnv lg cx)) us) ()), (fake', w)) \<and>
    FakeEnv_LoggerCallCount fake' = FakeEnv_LoggerCallCount fake + length (filter asks_logger us) \<and>
    FakeEnv_ContextCallCount fake' = FakeEnv_ContextCallCount fake + length (filter (\<lambda>u. \<not> asks_logger u) us)"
proof -
  have "FakeEnv_LoggerCallCount told = FakeEnv_LoggerCallCount fake" "FakeEnv_ContextCallCount told = FakeEnv_ContextCallCount fake"
    by (simp_all add: assms(3) FakeEnv_LoggerCallCount_def FakeEnv_ContextCallCount_def fm_CallCount_def
        FakeEnv_LoggerReturns_def FakeEnv_ContextReturns_def)
  with told_env_uses [OF told_env_set [OF assms(1,2), of lg cx], of us w] show ?thesis
    by (simp add: assms(3) NewHttpDriverEnv_def)
qed

text \<open>The provisioner inside a driver fake is a provisioner fake: creating and removing through
  either answers the same, does the same to the world and leaves the same records.\<close>

theorem fake_provisioner_refines:
  "run_state (Provisioner_Create FakeProvisioner_Provisioner env q) (provisioner_of k, w) =
     apsnd (apfst provisioner_of) (run_state (Provisioner_Create (Driver_Provisioner FakeDriver_Driver) env q) (k, w)) \<and>
   run_state (Provisioner_Remove FakeProvisioner_Provisioner env q') (provisioner_of k, w) =
     apsnd (apfst provisioner_of) (run_state (Provisioner_Remove (Driver_Provisioner FakeDriver_Driver) env q') (k, w))"
  by (simp add: FakeProvisioner_Provisioner_def Driver_Provisioner_def FakeDriver_Driver_def FakeProvisioner_Create_def
      FakeProvisioner_Remove_def FakeDriver_Create_def FakeDriver_Remove_def FakeProvisioner_recordInvocation_def
      FakeDriver_recordInvocation_def provisioner_of_def filter_record_provisioner Let_def split: prod.split)

section \<open>Instances\<close>

theorem fake_env_stands_in_witness:
  "fst (run_state (use_env_all FakeEnv_Env [ReadContext, WithContext (RootCtx 1), ReadLogger])
      (FakeEnv_LoggerReturns (Some ''lg'') (FakeEnv_ContextReturns (Some (RootCtx 0)) (new_FakeEnv :: (unit, unit) FakeEnv)), ())) =
    [SawContext (Some (RootCtx 0)), SawEnv (Some ''lg'', Some (RootCtx 1)), SawLogger (Some ''lg'')]"
proof -
  have "fm_ReturnsOnCall (fe_Logger (new_FakeEnv :: (unit, unit) FakeEnv)) = None"
    "fm_ReturnsOnCall (fe_Context (new_FakeEnv :: (unit, unit) FakeEnv)) = None"
    by (simp_all add: new_FakeEnv_def fm_new_def)
  from fake_env_stands_in [OF this refl, where lg = "''lg''" and cx = "RootCtx 0" and
      us = "[ReadContext, WithContext (RootCtx 1), ReadLogger]" and w = "()"]
  show ?thesis
    by (auto simp: voldriverEnv_Env_def env_with_context_def NewHttpDriverEnv_def)
qed

end
