(* ===== verification/Spec2Isabelle.thy ===== *)
theory Spec2Isabelle
  imports Volume_Id Integration_Config Lager Driver_Programs Server_Over_Fake Fake_Interfaces
begin

text \<open>
  A verification library for \<^verbatim>\<open>code.cloudfoundry.org/dockerdriver\<close>: the Docker volume plugin
  protocol of Cloud Foundry's volume services. The repository holds the protocol's types
  (\<^verbatim>\<open>resources.go\<close>), an HTTP server that offers a Go \<open>Driver\<close> to Docker
  (\<^verbatim>\<open>driverhttp/handlers.go\<close>), a client that is a \<open>Driver\<close> over HTTP
  (\<^verbatim>\<open>driverhttp/remote_client.go\<close>), the files by which drivers announce themselves
  (\<^verbatim>\<open>driver_spec.go\<close>), the printable volume ids (\<^verbatim>\<open>utils/volume_id.go\<close>) and the generated test
  doubles (\<^verbatim>\<open>dockerdriverfakes\<close>) and the configuration of the certification tests
  (\<^verbatim>\<open>integration/config.go\<close>).

  \<^bold>\<open>Conventions.\<close> A Go \<open>string\<close> or \<open>[]byte\<close> is a HOL \<open>string\<close> of bytes, an \<open>error\<close> the datatype
  \<open>go_error\<close>, a result with an error a sum, a nilable slice, map or pointer an option, \<open>int\<close> a
  64-bit word. Struct fields carry their struct's name. Effects run in the state monad: log
  entries, the driver's own state, what was written to a response and the goroutines started
  (\<open>server_state\<close>), the network behind the client (\<open>client_state\<close>), the files and open handles
  (\<open>file_system\<close>). Early returns are branches, and what a \<^verbatim>\<open>defer\<close> does comes last on each; what a
  deferred \<open>Close\<close> returns is dropped, as in Go.
  Every recursion terminates; no fuel is used.

  \<^bold>\<open>Foundations.\<close> \<open>Prelude\<close> (errors, sequencing, the interface \<open>codec\<close>, orders of events in a schedule) and \<open>Go_Strings\<close>
  (\<open>strings.Split\<close>, \<open>Replace\<close>, \<open>Join\<close>). \<open>Json_String\<close>, \<open>Json\<close> and \<open>Json_Roundtrip\<close> are the text
  layer of \<open>encoding/json\<close>: UTF-8 repair, quoting, the scanner as a push-down automaton with
  its nesting limit of 10000 and its error texts, and the theorem that it reads back what
  \<open>Marshal\<close> prints; \<open>Json_Utf8\<close> shows that every string it reads is in UTF-8, whatever the bytes,
  and carries that through the decoders (\<open>decodes_type\<close>, the interface \<open>typed_decoder\<close>). \<open>Go_Json\<close> is the mapping between Go values and JSON: field lookup by folded
  name, decoding over existing values, type errors; the conversion of \<open>float64\<close> is the
  parameter \<open>strconv\<close>. \<open>Go_Files\<close> has readers, \<open>bufio.ReadLine\<close> with its 4096-byte buffer, the
  streaming decoder, \<open>path.Join\<close> and a file system whose refusals are a parameter.

  \<^bold>\<open>Protocol.\<close> \<open>Resources\<close> has the nine routes and every type of \<^verbatim>\<open>resources.go\<close>; \<open>Wire\<close> the
  JSON form of each, with the interfaces \<open>wire_type\<close> (decoding undoes encoding) and
  \<open>wire_response\<close> (a response's error is what a reader of \<open>ErrorResponse\<close> sees), interpreted on
  all of them.

  \<^bold>\<open>Server.\<close> \<open>Env\<close> has loggers (by their task), contexts, environments, the \<open>Driver\<close> interface, the response
  writer and \<open>EnvWithMonitor\<close>; \<open>Env_Monitor\<close> the goroutine it starts, as an inductive step
  relation interleaved with the environment's moves, with its invariant and progress. \<open>Pat\<close>
  and \<open>Rata\<close> are the vendored multiplexer and router; \<open>Handlers\<close> the nine handlers,
  \<open>NewHandler\<close> and the dispatch. \<open>Handler_Spec\<close> gives the abstract handler \<open>serve\<close> (reject
  without touching the driver, or call it once and answer), the interface \<open>json_handler\<close>, and
  the refinement of each handler to it as an interpretation; \<open>route_answers\<close> has the values each
  handler may answer, which a JSON parser reads back.

  \<open>Lager\<close> has the loggers as the shared objects they are (vendored \<^verbatim>\<open>lager\<close>), shows that the
  loggers by task of \<open>Env\<close> are what a sink sees of them, and that each entry carries the session id
  of the logger it was made on, which no other logger has, up to the wrap of a 32-bit counter.

  \<^bold>\<open>Client.\<close> \<open>Remote_Client\<close> has the constructors, \<open>Matches\<close>, the exchange \<open>rc_do\<close> (the method
  \<open>do\<close>) and the nine operations; the HTTP client behind \<open>http_wrap.Client\<close> and two \<open>net\<close> functions
  are parameters. \<open>Tls_Config\<close> is what \<open>NewRemoteClient\<close> configures it with (vendored \<^verbatim>\<open>tlsconfig\<close> and
  \<^verbatim>\<open>cfhttp\<close>): options that are functions on a configuration, the authority file read block by block,
  with parsing and the clock as parameters, and what the options accept as a specification. \<open>Client_Spec\<close> gives the abstract call \<open>remote_call\<close>
  (encode, one exchange, decode, failures as responses), the interfaces \<open>remote_method\<close> and
  \<open>remote_error_method\<close>, and the nine refinements; in particular the code's branch for a nil
  response is never taken. The factory of \<^verbatim>\<open>remote_client_factory.go\<close> is a record of its one
  function; its result keeps apart the nil interface and an interface around a nil pointer.

  \<^bold>\<open>Both ends.\<close> \<open>End_To_End\<close> joins the client to the server by an HTTP transport, \<open>loopback\<close>: the
  interface \<open>remote_driver_op\<close> extends those of client, server and wire, and its nine
  interpretations say that the client behaves as the driver behind the server. What is assumed
  of strings is that they are UTF-8, since \<open>encoding/json\<close> repairs others. \<open>Driver_Programs\<close> puts the nine
  operations together: a \<open>program\<close> is a user of the \<open>Driver\<close> interface that chooses its calls by the
  answers so far. Over the network a program with names in UTF-8 and encodable options (\<open>program_ok\<close>)
  has the result it has over a driver that answers in UTF-8 (\<open>keeps_utf8\<close>) when a response that
  carries an error loses its other fields, as in the protocol (\<open>on_wire\<close>); over a driver that leaves
  them empty (\<open>errors_alone\<close>) it is the result of the program as it is. A client is itself such a driver, so programs can be moved over
  several hops. \<open>Typed_Protocol\<close> needs no assumption on
  strings: the server calls its driver only with names in UTF-8 and at most once per request
  (the step relation \<open>driver_step\<close>, the interface \<open>handler_steps\<close>), so an invariant of the driver
  survives any requests; the client returns only volumes and mount points in UTF-8
  (\<open>typed_method\<close>).

  \<^bold>\<open>Concurrent requests.\<close> \<open>net/http\<close> serves each request in a goroutine of its own. In
  \<open>Server_Threads\<close> a \<open>thread\<close> is what such a goroutine has left to do, one effect at a time, and
  \<open>world_step\<close> interleaves threads that share the driver, the log and the goroutines started; threads
  with at most one driver call are serialisable (\<open>serialised\<close> is the invariant), in an order that
  respects real time. \<open>Server_Concurrent\<close> has the nine handlers as threads (\<open>serve_thread\<close>), which run
  alone are the handlers (\<open>threaded_handler\<close>), and so carries over to concurrent requests what is
  proved of one; a request is answered after at most eight effects, whatever the others do, with a
  status that depends on its method and path. A driver call is one step there: the server has no lock of its own and expects its driver to be safe to share.
  \<open>Server_Jobs\<close> has the handlers apart from their driver (\<open>serve_job\<close>, whose calls are names of calls),
  so that a driver of many steps can be put behind them. \<open>Server_Over_Fake\<close> does that with the faked
  driver of the test suites: goroutines of requests take the lock operations of its methods one by
  one (\<open>fake_server_step\<close>). A fake that was told its answers (\<open>told\<close>) still serves them as if one came
  after the other, they cannot block each other for good, and \<open>n\<close> requests are answered within
  \<open>14 n\<close> steps: eight effects of the handler and six lock operations each.

  \<^bold>\<open>Beside the protocol.\<close> \<open>Driver_Spec\<close> has \<open>WriteDriverSpec\<close> and \<open>ReadDriverSpec\<close>, each with the
  outcome it refines to; what is written is read back for a driver whose name has no dot and, as
  JSON, for strings in UTF-8, and a dot in the name is what \<open>ReadDriverSpec\<close> mistakes for the start
  of the extension; \<open>Integration_Config\<close> has \<open>LoadConfig\<close>, its panic a value of \<open>outcome\<close>;
  \<open>Volume_Id\<close> the volume ids. \<open>Fake_Method\<close> is the state and the uses of one faked method, with the
  interfaces \<open>fake_call\<close> and \<open>fake_api\<close>; \<open>Fakes\<close> and \<open>Fake_Drivers\<close> have the five fakes method by
  method, each method an interpretation; \<open>Fake_Spec\<close> what tests get: records that agree in every
  reachable state of a fake, one fake simulating the other, the handler over a faked driver.
  \<open>Fake_Locks\<close> lists what the generated methods do to their mutexes and interleaves threads that do
  so, with Go's reader-writer rules: exclusion, termination without \<open>Invocations\<close>, and the deadlock
  \<open>Invocations\<close> can cause. \<open>Fake_Sessions\<close> adds the data: the code between the lock operations of a
  call, a setter, a reader and \<open>Invocations\<close>, and the interface \<open>independent_uses\<close>, under which every
  session is linearisable; \<open>Fake_Concurrent\<close> interprets it on all nine methods of \<open>FakeDriver\<close>.
  \<open>Fake_Interfaces\<close> has the three smaller fakes as implementations of their interfaces.

  \<^bold>\<open>Not modelled.\<close> lager's sinks and time stamps, and in the handlers and the client the data attached to
  log entries; the bodies of \<open>net/http\<close>, \<open>crypto/tls\<close> and \<open>crypto/x509\<close> beyond the parameters above; stubs that call back into their own
  fake; in concurrent sessions of a fake, the order in which stubs run once a call has picked them; what a driver other
  than the faked one does between the steps of one of its operations; the test suites themselves; \<^verbatim>\<open>tools/tools.go\<close>, which only pins tools. Symbolic links
  and directories are not in the file system.

  Each property stands after a paragraph with its number, in the theory of the component it
  is about, and its instance on concrete data carries the suffix \<open>_witness\<close>.
\<close>

end
